(* ===== verification/Prelude.thy ===== *)
theory Prelude
  imports Complex_Main "HOL-Library.AList" "HOL-Library.Sublist" "HOL-Library.List_Lexorder"
    "HOL-Library.Char_ord" "HOL-Library.Product_Lexorder"
begin

section \<open>Shared vocabulary\<close>

text \<open>
  What every component of the model shares: the exceptions a Python function can raise and the two
  result types built on them (a value, \<open>'a result\<close>, and a stateful action, \<open>('w, 'a) act\<close>), Python's
  insertion-ordered dictionaries, the list idioms of the sources (\<open>dict.fromkeys\<close>, \<open>next\<close>, slices,
  \<open>sorted\<close> with a key, \<open>max\<close> with a key) and the string methods they call. Strings are ASCII
  \<open>char list\<close>s. The collections declared here carry the component proofs: \<open>act_simps\<close> evaluates
  actions, \<open>py_simps\<close> evaluates the Python idioms, \<open>check_iff\<close> collects the "no problem reported"
  characterisations of the checks.
\<close>

named_theorems py_simps \<open>unfolding of the Python idioms\<close>
named_theorems act_simps \<open>evaluation of stateful actions\<close>
named_theorems check_iff \<open>a check reports nothing iff the property it checks holds\<close>

subsection \<open>Exceptions and results\<close>

text \<open>
  \<open>KeyboardInterrupt\<close> derives from \<open>BaseException\<close> and passes every \<open>except Exception\<close> handler.
  A \<open>RuntimeError\<close> carries a text only where the code inspects or reports one.
\<close>

datatype exn =
    KeyError string
  | IndexError
  | StopIteration
  | ValueError
  | TypeError
  | AttributeError
  | AssertionError
  | RuntimeError
  | TimeoutError
  | TimeoutExpired
  | ProcessLookupError
  | ValidationError
  | ToolError
  | CatalogError
  | CheckFailed string
  | ContextGuardError
  | HTTPError
  | ApiException int
  | LockHeldError string string
  | KeyboardInterrupt

type_synonym 'a result = "exn + 'a"

definition is_exception :: "exn \<Rightarrow> bool" where
  "is_exception e \<longleftrightarrow> e \<noteq> KeyboardInterrupt"

definition bindE :: "'a result \<Rightarrow> ('a \<Rightarrow> 'b result) \<Rightarrow> 'b result" where
  "bindE m f = (case m of Inl e \<Rightarrow> Inl e | Inr a \<Rightarrow> f a)"

lemma bindE_simps [simp]:
  "bindE (Inl e) f = Inl e"
  "bindE (Inr a) f = f a"
  by (simp_all add: bindE_def)

lemma bindE_cong [fundef_cong]:
  "m = m' \<Longrightarrow> (\<And>a. m' = Inr a \<Longrightarrow> f a = g a) \<Longrightarrow> bindE m f = bindE m' g"
  by (cases m') (simp_all)

lemma bindE_Inr_iff: "bindE m f = Inr b \<longleftrightarrow> (\<exists>a. m = Inr a \<and> f a = Inr b)"
  by (cases m) simp_all

lemma bindE_Inl_iff: "bindE m f = Inl e \<longleftrightarrow> m = Inl e \<or> (\<exists>a. m = Inr a \<and> f a = Inl e)"
  by (cases m) simp_all

lemma bindE_assoc: "bindE (bindE m f) g = bindE m (\<lambda>a. bindE (f a) g)"
  by (cases m) simp_all

lemma bindE_Inr_id [simp]: "bindE m Inr = m"
  by (cases m) simp_all

text \<open>A list comprehension whose element expression may raise: it stops at the first exception.\<close>

fun mapE :: "('a \<Rightarrow> 'b result) \<Rightarrow> 'a list \<Rightarrow> 'b list result" where
  "mapE f [] = Inr []"
| "mapE f (x # xs) = bindE (f x) (\<lambda>y. bindE (mapE f xs) (\<lambda>ys. Inr (y # ys)))"

lemma mapE_cong [fundef_cong]:
  "xs = ys \<Longrightarrow> (\<And>x. x \<in> set ys \<Longrightarrow> f x = g x) \<Longrightarrow> mapE f xs = mapE g ys"
  by (induction ys arbitrary: xs) (auto cong: bindE_cong)

lemma mapE_Inr: "mapE (\<lambda>x. Inr (f x)) xs = Inr (map f xs)"
  by (induction xs) simp_all

lemma mapE_all_Inr:
  "(\<And>x. x \<in> set xs \<Longrightarrow> f x = Inr (g x)) \<Longrightarrow> mapE f xs = Inr (map g xs)"
  by (induction xs) simp_all

lemma mapE_InrD: "mapE f xs = Inr ys \<Longrightarrow> length ys = length xs \<and> list_all2 (\<lambda>x y. f x = Inr y) xs ys"
  by (induction xs arbitrary: ys) (auto simp: bindE_Inr_iff)

lemma mapE_append: "mapE f (xs @ ys) = bindE (mapE f xs) (\<lambda>a. bindE (mapE f ys) (\<lambda>b. Inr (a @ b)))"
  by (induction xs) (simp_all add: bindE_assoc)

text \<open>Loops that carry a state and stop at the first exception.\<close>

fun foldE :: "('s \<Rightarrow> 'a \<Rightarrow> 's result) \<Rightarrow> 's \<Rightarrow> 'a list \<Rightarrow> 's result" where
  "foldE f s [] = Inr s"
| "foldE f s (x # xs) = bindE (f s x) (\<lambda>s'. foldE f s' xs)"

lemma foldE_append: "foldE f s (xs @ ys) = bindE (foldE f s xs) (\<lambda>s'. foldE f s' ys)"
  by (induction xs arbitrary: s) (simp_all add: bindE_assoc)

lemma foldE_invariant:
  "foldE f s xs = Inr s' \<Longrightarrow> P s \<Longrightarrow>
   (\<And>s x t. x \<in> set xs \<Longrightarrow> P s \<Longrightarrow> f s x = Inr t \<Longrightarrow> P t) \<Longrightarrow> P s'"
  by (induction xs arbitrary: s) (auto simp: bindE_Inr_iff)

subsection \<open>Stateful actions\<close>

text \<open>
  An action runs in a world \<open>'w\<close>: it returns a value or raises, and leaves a new world either way
  (what was written before the exception stays written).
\<close>

type_synonym ('w, 'a) act = "'w \<Rightarrow> 'a result \<times> 'w"

definition ret :: "'a \<Rightarrow> ('w, 'a) act" where
  "ret a = (\<lambda>w. (Inr a, w))"

definition raise :: "exn \<Rightarrow> ('w, 'a) act" where
  "raise e = (\<lambda>w. (Inl e, w))"

definition bindA :: "('w, 'a) act \<Rightarrow> ('a \<Rightarrow> ('w, 'b) act) \<Rightarrow> ('w, 'b) act" where
  "bindA m f = (\<lambda>w. case m w of (Inl e, w') \<Rightarrow> (Inl e, w') | (Inr a, w') \<Rightarrow> f a w')"

abbreviation seqA :: "('w, 'a) act \<Rightarrow> ('w, 'b) act \<Rightarrow> ('w, 'b) act" where
  "seqA m n \<equiv> bindA m (\<lambda>_. n)"

definition liftE :: "'a result \<Rightarrow> ('w, 'a) act" where
  "liftE r = (\<lambda>w. (r, w))"

definition getW :: "('w \<Rightarrow> 'a) \<Rightarrow> ('w, 'a) act" where
  "getW f = (\<lambda>w. (Inr (f w), w))"

definition modW :: "('w \<Rightarrow> 'w) \<Rightarrow> ('w, unit) act" where
  "modW f = (\<lambda>w. (Inr (), f w))"

text \<open>\<open>try: m except e: h e\<close>, where the handler decides which exceptions it takes.\<close>

definition catchA :: "('w, 'a) act \<Rightarrow> (exn \<Rightarrow> ('w, 'a) act) \<Rightarrow> ('w, 'a) act" where
  "catchA m h = (\<lambda>w. case m w of (Inl e, w') \<Rightarrow> h e w' | (Inr a, w') \<Rightarrow> (Inr a, w'))"

text \<open>
  \<open>try: m finally: c\<close>: the clean-up runs in the world \<open>m\<close> left, whether or not \<open>m\<close> raised; an
  exception of the clean-up replaces the outcome of \<open>m\<close>.
\<close>

definition finallyA :: "('w, 'a) act \<Rightarrow> ('w, 'b) act \<Rightarrow> ('w, 'a) act" where
  "finallyA m c = (\<lambda>w. case m w of (r, w') \<Rightarrow>
     (case c w' of (Inl e, w'') \<Rightarrow> (Inl e, w'') | (Inr _, w'') \<Rightarrow> (r, w'')))"

fun forA :: "'a list \<Rightarrow> ('a \<Rightarrow> ('w, 'b) act) \<Rightarrow> ('w, unit) act" where
  "forA [] f = ret ()"
| "forA (x # xs) f = bindA (f x) (\<lambda>_. forA xs f)"

fun mapA :: "('a \<Rightarrow> ('w, 'b) act) \<Rightarrow> 'a list \<Rightarrow> ('w, 'b list) act" where
  "mapA f [] = ret []"
| "mapA f (x # xs) = bindA (f x) (\<lambda>y. bindA (mapA f xs) (\<lambda>ys. ret (y # ys)))"

fun foldA :: "('s \<Rightarrow> 'a \<Rightarrow> ('w, 's) act) \<Rightarrow> 's \<Rightarrow> 'a list \<Rightarrow> ('w, 's) act" where
  "foldA f s [] = ret s"
| "foldA f s (x # xs) = bindA (f s x) (\<lambda>s'. foldA f s' xs)"

definition whenA :: "bool \<Rightarrow> ('w, unit) act \<Rightarrow> ('w, unit) act" where
  "whenA b m = (if b then m else ret ())"

lemma act_basics [simp, act_simps]:
  "ret a w = (Inr a, w)"
  "raise e w = (Inl e, w)"
  "liftE r w = (r, w)"
  "getW f w = (Inr (f w), w)"
  "modW g w = (Inr (), g w)"
  by (simp_all add: ret_def raise_def liftE_def getW_def modW_def)

lemma bindA_apply [act_simps]:
  "bindA m f w = (case m w of (Inl e, w') \<Rightarrow> (Inl e, w') | (Inr a, w') \<Rightarrow> f a w')"
  by (simp add: bindA_def)

lemma bindA_Inr: "m w = (Inr a, w') \<Longrightarrow> bindA m f w = f a w'"
  by (simp add: bindA_def)

lemma bindA_Inl: "m w = (Inl e, w') \<Longrightarrow> bindA m f w = (Inl e, w')"
  by (simp add: bindA_def)

lemma bindA_ret [simp]: "bindA (ret a) f = f a"
  by (simp add: bindA_def ret_def)

lemma bindA_raise [simp]: "bindA (raise e) f = raise e"
  by (simp add: bindA_def raise_def)

lemma bindA_assoc: "bindA (bindA m f) g = bindA m (\<lambda>a. bindA (f a) g)"
  by (rule ext) (simp add: bindA_def split: prod.splits sum.splits)

lemma bindA_cases:
  assumes "bindA m f w = (r, w'')"
  obtains (Raise) e where "m w = (Inl e, w'')" "r = Inl e"
    | (Cont) a w' where "m w = (Inr a, w')" "f a w' = (r, w'')"
  using assms by (auto simp: bindA_def split: prod.splits sum.splits)

lemma catchA_cases:
  assumes "catchA m h w = (r, w'')"
  obtains (Normal) a where "m w = (Inr a, w'')" "r = Inr a"
    | (Handler) e w' where "m w = (Inl e, w')" "h e w' = (r, w'')"
  using assms by (auto simp: catchA_def split: prod.splits sum.splits)

lemma finallyA_cases:
  assumes "finallyA m c w = (r, w'')"
  obtains (Clean) a w' where "m w = (r, w')" "c w' = (Inr a, w'')"
    | (Dirty) e r' w' where "m w = (r', w')" "c w' = (Inl e, w'')" "r = Inl e"
  using assms by (auto simp: finallyA_def split: prod.splits sum.splits)

subsection \<open>What an action preserves\<close>

text \<open>
  \<open>steps R m\<close>: every run of \<open>m\<close> takes the world along \<open>R\<close>, whatever its outcome. With a reflexive
  and transitive \<open>R\<close> the combinators compose; this is how invariants of long handlers are proved
  from their primitive steps.
\<close>

definition steps :: "('w \<Rightarrow> 'w \<Rightarrow> bool) \<Rightarrow> ('w, 'a) act \<Rightarrow> bool" where
  "steps R m \<longleftrightarrow> (\<forall>w. R w (snd (m w)))"

lemma stepsI: "(\<And>w r w'. m w = (r, w') \<Longrightarrow> R w w') \<Longrightarrow> steps R m"
  by (metis prod.collapse steps_def)

lemma stepsD: "steps R m \<Longrightarrow> m w = (r, w') \<Longrightarrow> R w w'"
  by (metis snd_conv steps_def)

locale step_rel =
  fixes R :: "'w \<Rightarrow> 'w \<Rightarrow> bool"
  assumes step_refl: "R w w"
    and step_trans: "R u v \<Longrightarrow> R v w \<Longrightarrow> R u w"
begin

lemma steps_ret: "steps R (ret a)"
  by (simp add: steps_def step_refl)

lemma steps_raise: "steps R (raise e)"
  by (simp add: steps_def step_refl)

lemma steps_liftE: "steps R (liftE r)"
  by (simp add: steps_def step_refl)

lemma steps_Pair: "steps R (Pair r)"
  by (simp add: steps_def step_refl)

lemma steps_getW: "steps R (getW f)"
  by (simp add: steps_def step_refl)

lemma steps_bindA: "steps R m \<Longrightarrow> (\<And>a. steps R (f a)) \<Longrightarrow> steps R (bindA m f)"
  by (rule stepsI) (erule bindA_cases; blast dest: stepsD intro: step_trans)

lemma steps_catchA: "steps R m \<Longrightarrow> (\<And>e. steps R (h e)) \<Longrightarrow> steps R (catchA m h)"
  by (rule stepsI) (erule catchA_cases; blast dest: stepsD intro: step_trans)

lemma steps_finallyA: "steps R m \<Longrightarrow> steps R c \<Longrightarrow> steps R (finallyA m c)"
  by (rule stepsI) (erule finallyA_cases; blast dest: stepsD intro: step_trans)

lemma steps_whenA: "steps R m \<Longrightarrow> steps R (whenA b m)"
  by (simp add: whenA_def steps_ret)

lemma steps_if: "steps R m \<Longrightarrow> steps R n \<Longrightarrow> steps R (if b then m else n)"
  by simp

lemma steps_forA: "(\<And>x. x \<in> set xs \<Longrightarrow> steps R (f x)) \<Longrightarrow> steps R (forA xs f)"
  by (induction xs) (auto intro: steps_ret steps_bindA)

lemma steps_mapA: "(\<And>x. x \<in> set xs \<Longrightarrow> steps R (f x)) \<Longrightarrow> steps R (mapA f xs)"
  by (induction xs) (auto intro!: steps_ret steps_bindA)

lemma steps_foldA: "(\<And>s x. x \<in> set xs \<Longrightarrow> steps R (f s x)) \<Longrightarrow> steps R (foldA f s xs)"
  by (induction xs arbitrary: s) (auto intro!: steps_ret steps_bindA)

lemmas steps_intros =
  steps_ret steps_raise steps_liftE steps_Pair steps_getW steps_bindA steps_catchA steps_finallyA
  steps_whenA steps_if steps_forA steps_mapA steps_foldA

end

end
