(* ===== verification/PyLib.thy ===== *)
theory PyLib
  imports Prelude "HOL-Library.Multiset"
begin

section \<open>Python idioms: dictionaries, sequences and strings\<close>

text \<open>
  The parts of Python's standard types the sources use. A \<open>dict\<close> is an association list in
  insertion order (assigning to an existing key keeps its place), so iteration order is what Python's
  is. The interface that the grouping code relies on is the locale \<open>keyed_store\<close>; dictionaries
  interpret it.
\<close>

subsection \<open>Dictionaries\<close>

type_synonym ('k, 'v) dict = "('k \<times> 'v) list"

definition dict_get :: "('k, 'v) dict \<Rightarrow> 'k \<Rightarrow> 'v option" where
  "dict_get d k = map_of d k"

definition dict_put :: "'k \<Rightarrow> 'v \<Rightarrow> ('k, 'v) dict \<Rightarrow> ('k, 'v) dict" where
  "dict_put k v d = AList.update k v d"

definition dict_keys :: "('k, 'v) dict \<Rightarrow> 'k list" where
  "dict_keys d = map fst d"

text \<open>\<open>d.setdefault(k, v)\<close> as a statement.\<close>

definition dict_default :: "'k \<Rightarrow> 'v \<Rightarrow> ('k, 'v) dict \<Rightarrow> ('k, 'v) dict" where
  "dict_default k v d = (if dict_get d k = None then dict_put k v d else d)"

text \<open>\<open>d.setdefault(k, []).append(x)\<close>.\<close>

definition dict_append :: "'k \<Rightarrow> 'v \<Rightarrow> ('k, 'v list) dict \<Rightarrow> ('k, 'v list) dict" where
  "dict_append k x d =
     dict_put k ((case dict_get d k of None \<Rightarrow> [] | Some xs \<Rightarrow> xs) @ [x]) d"

text \<open>\<open>{k: v for ...}\<close>: later pairs overwrite the value, the first occurrence fixes the place.\<close>

definition dict_of :: "('k \<times> 'v) list \<Rightarrow> ('k, 'v) dict" where
  "dict_of kvs = foldl (\<lambda>d (k, v). dict_put k v d) [] kvs"

definition group_by :: "('a \<Rightarrow> 'k) \<Rightarrow> 'a list \<Rightarrow> ('k, 'a list) dict" where
  "group_by key xs = foldl (\<lambda>d x. dict_append (key x) x d) [] xs"

lemma dict_get_Nil [simp]: "dict_get [] k = None"
  by (simp add: dict_get_def)

lemma dict_get_put: "dict_get (dict_put k v d) k' = (if k' = k then Some v else dict_get d k')"
  by (simp add: dict_get_def dict_put_def update_conv)

lemma dict_keys_put:
  "dict_keys (dict_put k v d) = (if dict_get d k = None then dict_keys d @ [k] else dict_keys d)"
  by (induction d) (auto simp: dict_keys_def dict_get_def dict_put_def)

lemma dict_get_None_iff: "dict_get d k = None \<longleftrightarrow> k \<notin> set (dict_keys d)"
  by (simp add: dict_get_def dict_keys_def map_of_eq_None_iff)

lemma dict_keys_Nil [simp]: "dict_keys [] = []"
  by (simp add: dict_keys_def)

text \<open>
  What code that groups things under keys needs of a keyed store: reading after writing, and that
  the keys are listed in the order they were first written.
\<close>

locale keyed_store =
  fixes empty :: 'd
    and lookup :: "'d \<Rightarrow> 'k \<Rightarrow> 'v option"
    and store :: "'k \<Rightarrow> 'v \<Rightarrow> 'd \<Rightarrow> 'd"
    and listing :: "'d \<Rightarrow> 'k list"
  assumes lookup_empty: "lookup empty k = None"
    and lookup_store: "lookup (store k v d) k' = (if k' = k then Some v else lookup d k')"
    and listing_empty: "listing empty = []"
    and listing_store:
      "listing (store k v d) = (if lookup d k = None then listing d @ [k] else listing d)"
    and lookup_None: "lookup d k = None \<longleftrightarrow> k \<notin> set (listing d)"
begin

lemma listing_distinct_store: "distinct (listing d) \<Longrightarrow> distinct (listing (store k v d))"
  by (simp add: listing_store lookup_None)

lemma listing_set_store: "set (listing (store k v d)) = insert k (set (listing d))"
  using lookup_None [of d k] by (auto simp: listing_store)

lemma fold_store_distinct:
  "distinct (listing d) \<Longrightarrow> distinct (listing (foldl (\<lambda>d x. store (key x) (val d x) d) d xs))"
  by (induction xs arbitrary: d) (auto simp: listing_distinct_store)

lemma fold_store_set:
  "set (listing (foldl (\<lambda>d x. store (key x) (val d x) d) d xs)) = set (listing d) \<union> key ` set xs"
  by (induction xs arbitrary: d) (auto simp: listing_set_store)

lemma fold_store_untouched:
  "k \<notin> key ` set xs \<Longrightarrow> lookup (foldl (\<lambda>d x. store (key x) (val d x) d) d xs) k = lookup d k"
  by (induction xs arbitrary: d) (auto simp: lookup_store)

end

interpretation pd: keyed_store "[]" dict_get dict_put dict_keys
  by unfold_locales (simp_all add: dict_get_put dict_keys_put dict_get_None_iff)

lemma group_by_store:
  "group_by key xs =
     foldl (\<lambda>d x. dict_put (key x) ((case dict_get d (key x) of None \<Rightarrow> [] | Some ys \<Rightarrow> ys) @ [x]) d) [] xs"
  by (simp add: group_by_def dict_append_def)

lemma group_by_snoc: "group_by key (xs @ [x]) = dict_append (key x) x (group_by key xs)"
  by (simp add: group_by_def)

lemma group_by_Nil [simp]: "group_by key [] = []"
  by (simp add: group_by_def)

lemma distinct_keys_group_by: "distinct (dict_keys (group_by key xs))"
  using pd.fold_store_distinct [of "[]"] by (simp add: group_by_store)

lemma set_keys_group_by: "set (dict_keys (group_by key xs)) = key ` set xs"
  using pd.fold_store_set [of _ _ "[]"] by (simp add: group_by_store)

lemma group_by_lookup:
  "dict_get (group_by key xs) k =
     (if k \<in> key ` set xs then Some (filter (\<lambda>x. key x = k) xs) else None)"
proof (induction xs rule: rev_induct)
  case Nil
  show ?case by simp
next
  case (snoc x xs)
  have "k \<notin> key ` set xs \<Longrightarrow> filter (\<lambda>x. key x = k) xs = []"
    by (auto simp: filter_empty_conv)
  with snoc show ?case
    by (auto simp: group_by_snoc dict_append_def dict_get_put)
qed

lemma dict_member_get: "distinct (dict_keys d) \<Longrightarrow> (k, v) \<in> set d \<longleftrightarrow> dict_get d k = Some v"
  by (simp add: dict_keys_def dict_get_def)

lemma group_by_member:
  "(k, ys) \<in> set (group_by key xs) \<longleftrightarrow> k \<in> key ` set xs \<and> ys = filter (\<lambda>x. key x = k) xs"
  by (auto simp: dict_member_get [OF distinct_keys_group_by] group_by_lookup)

lemma mset_values_append:
  "mset (concat (map snd (dict_append k x d))) = add_mset x (mset (concat (map snd d)))"
proof -
  have "mset (concat (map snd (AList.update k (ys @ [x]) d))) = add_mset x (mset (concat (map snd d)))"
    if "ys = (case map_of d k of None \<Rightarrow> [] | Some zs \<Rightarrow> zs)" for ys
    using that by (induction d) (auto split: if_splits)
  then show ?thesis by (simp add: dict_append_def dict_put_def dict_get_def)
qed

lemma mset_group_by: "mset (concat (map snd (group_by key xs))) = mset xs"
  by (induction xs rule: rev_induct) (simp_all add: group_by_snoc mset_values_append)

lemma dict_of_snoc: "dict_of (kvs @ [(k, v)]) = dict_put k v (dict_of kvs)"
  by (simp add: dict_of_def)

lemma dict_of_Nil [simp]: "dict_of [] = []"
  by (simp add: dict_of_def)

lemma distinct_keys_dict_of: "distinct (dict_keys (dict_of kvs))"
  using pd.fold_store_distinct [of "[]" fst "\<lambda>_ x. snd x" kvs]
  by (simp add: dict_of_def case_prod_beta')

lemma set_keys_dict_of: "set (dict_keys (dict_of kvs)) = fst ` set kvs"
  using pd.fold_store_set [of fst "\<lambda>_ x. snd x" "[]" kvs]
  by (simp add: dict_of_def case_prod_beta')

lemma dict_get_dict_of: "dict_get (dict_of kvs) k = map_of (rev kvs) k"
  by (induction kvs rule: rev_induct) (auto simp: dict_of_snoc dict_get_put)

lemma dict_of_distinct: "distinct (map fst kvs) \<Longrightarrow> dict_of kvs = kvs"
proof (induction kvs rule: rev_induct)
  case (snoc kv kvs)
  obtain k v where kv: "kv = (k, v)" by (cases kv)
  have "k \<notin> fst ` set l \<Longrightarrow> AList.update k v l = l @ [(k, v)]" for l
    by (induction l) auto
  with snoc kv show ?case by (simp add: dict_of_snoc dict_put_def)
qed simp

subsection \<open>Sequences\<close>

text \<open>\<open>list(dict.fromkeys(xs))\<close>: first occurrences, in order.\<close>

definition uniq :: "'a list \<Rightarrow> 'a list" where
  "uniq xs = rev (remdups (rev xs))"

lemma set_uniq [simp]: "set (uniq xs) = set xs"
  by (simp add: uniq_def)

lemma distinct_uniq [simp]: "distinct (uniq xs)"
  by (simp add: uniq_def)

lemma uniq_Nil_iff [simp]: "uniq xs = [] \<longleftrightarrow> xs = []"
  by (simp add: uniq_def)

lemma uniq_snoc: "uniq (xs @ [x]) = (if x \<in> set xs then uniq xs else uniq xs @ [x])"
  by (simp add: uniq_def)

lemma uniq_distinct: "distinct xs \<Longrightarrow> uniq xs = xs"
  by (simp add: uniq_def distinct_remdups_id)

text \<open>\<open>sorted(set)\<close> and \<open>sorted({...})\<close> for values listed in any order.\<close>

definition sorted_set :: "'a::linorder list \<Rightarrow> 'a list" where
  "sorted_set xs = sort (remdups xs)"

lemma set_sorted_set [simp]: "set (sorted_set xs) = set xs"
  by (simp add: sorted_set_def)

lemma sorted_set_props: "sorted (sorted_set xs)" "distinct (sorted_set xs)"
  by (simp_all add: sorted_set_def)

lemma sorted_set_unique: "set xs = set ys \<Longrightarrow> sorted_set xs = sorted_set ys"
  by (rule sorted_distinct_set_unique) (simp_all add: sorted_set_props)

lemma sorted_set_Nil_iff [simp]: "sorted_set xs = [] \<longleftrightarrow> xs = []"
  by (metis set_empty set_sorted_set)

text \<open>\<open>next((x for x in xs if p(x)), None)\<close>.\<close>

definition first_such :: "('a \<Rightarrow> bool) \<Rightarrow> 'a list \<Rightarrow> 'a option" where
  "first_such p xs = List.find p xs"

lemma first_such_simps [simp]:
  "first_such p [] = None"
  "first_such p (x # xs) = (if p x then Some x else first_such p xs)"
  by (simp_all add: first_such_def)

lemma first_such_SomeD: "first_such p xs = Some x \<Longrightarrow> x \<in> set xs \<and> p x"
  by (induction xs) (auto split: if_splits)

lemma first_such_None_iff: "first_such p xs = None \<longleftrightarrow> (\<forall>x \<in> set xs. \<not> p x)"
  by (induction xs) auto

text \<open>\<open>max(xs, key=f)\<close>: the first element whose key is largest; \<open>ValueError\<close> when empty.\<close>

fun max_by :: "('a \<Rightarrow> 'b::linorder) \<Rightarrow> 'a list \<Rightarrow> 'a result" where
  "max_by f [] = Inl ValueError"
| "max_by f (x # xs) =
     Inr (foldl (\<lambda>best y. if f best < f y then y else best) x xs)"

lemma foldl_best_in: "foldl (\<lambda>b y. if f b < f y then y else b) x xs \<in> insert x (set xs)"
  by (induction xs arbitrary: x) (auto split: if_splits)

lemma foldl_best_ge:
  fixes f :: "'a \<Rightarrow> 'b::linorder"
  shows "y \<in> insert x (set xs) \<Longrightarrow> f y \<le> f (foldl (\<lambda>b y. if f b < f y then y else b) x xs)"
proof (induction xs arbitrary: x y)
  case Nil
  then show ?case by simp
next
  case (Cons z zs)
  let ?b = "if f x < f z then z else x"
  have base: "f ?b \<le> f (foldl (\<lambda>b y. if f b < f y then y else b) ?b zs)"
    by (rule Cons.IH) simp
  consider "y = x" | "y = z" | "y \<in> set zs" using Cons.prems by auto
  then have "f y \<le> f (foldl (\<lambda>b y. if f b < f y then y else b) ?b zs)"
  proof cases
    case 1
    then have "f y \<le> f ?b" by auto
    with base show ?thesis by (rule order_trans [rotated])
  next
    case 2
    then have "f y \<le> f ?b" by auto
    with base show ?thesis by (rule order_trans [rotated])
  next
    case 3
    then show ?thesis by (intro Cons.IH) simp
  qed
  then show ?case by simp
qed

lemma max_by_InrD: "max_by f xs = Inr x \<Longrightarrow> x \<in> set xs \<and> (\<forall>y \<in> set xs. f y \<le> f x)"
  using foldl_best_in [of f] foldl_best_ge [of _ _ _ f] by (cases xs) fastforce+

lemma max_by_total: "xs \<noteq> [] \<Longrightarrow> \<exists>x. max_by f xs = Inr x"
  by (cases xs) simp_all

text \<open>\<open>max(xs, default=d)\<close>.\<close>

definition max_default :: "'a::linorder \<Rightarrow> 'a list \<Rightarrow> 'a" where
  "max_default d xs = (case xs of [] \<Rightarrow> d | x # ys \<Rightarrow> foldl max x ys)"

lemma foldl_max_ge:
  fixes x :: "'a::linorder"
  shows "y \<in> insert x (set xs) \<Longrightarrow> y \<le> foldl max x xs"
proof (induction xs arbitrary: x y)
  case (Cons z zs)
  have base: "max x z \<le> foldl max (max x z) zs" by (rule Cons.IH) simp
  show ?case
  proof (cases "y \<in> set zs")
    case True
    then show ?thesis using Cons.IH [of y "max x z"] by simp
  next
    case False
    with Cons.prems have "y \<le> max x z" by auto
    from this base have "y \<le> foldl max (max x z) zs" by (rule order_trans)
    then show ?thesis by simp
  qed
qed simp

lemma foldl_max_in: "foldl max x xs \<in> insert (x::'a::linorder) (set xs)"
  by (induction xs arbitrary: x) (auto simp: max_def split: if_splits)

lemma max_default_le_iff: "xs \<noteq> [] \<Longrightarrow> max_default d xs \<le> b \<longleftrightarrow> (\<forall>x \<in> set xs. x \<le> b)"
proof (cases xs)
  case (Cons x ys)
  show ?thesis
    using foldl_max_ge [of _ x ys] foldl_max_in [of x ys] Cons
    by (auto simp: max_default_def intro: order_trans)
qed simp

lemma max_default_Nil [simp]: "max_default d [] = d"
  by (simp add: max_default_def)

text \<open>Python's \<open>xs[0]\<close> and \<open>xs[-1]\<close>.\<close>

definition first_item :: "'a list \<Rightarrow> 'a result" where
  "first_item xs = (case xs of [] \<Rightarrow> Inl IndexError | x # _ \<Rightarrow> Inr x)"

definition last_item :: "'a list \<Rightarrow> 'a result" where
  "last_item xs = (if xs = [] then Inl IndexError else Inr (last xs))"

lemma first_item_simps [simp]: "first_item [] = Inl IndexError" "first_item (x # xs) = Inr x"
  by (simp_all add: first_item_def)

lemma last_item_simps [simp]: "last_item [] = Inl IndexError" "xs \<noteq> [] \<Longrightarrow> last_item xs = Inr (last xs)"
  by (simp_all add: last_item_def)

subsection \<open>Strings\<close>

definition lower_char :: "char \<Rightarrow> char" where
  "lower_char c = (if CHR ''A'' \<le> c \<and> c \<le> CHR ''Z'' then char_of (of_char c + 32 :: nat) else c)"

definition lower :: "string \<Rightarrow> string" where
  "lower s = map lower_char s"

definition is_space :: "char \<Rightarrow> bool" where
  "is_space c \<longleftrightarrow> of_char c \<in> {9, 10, 11, 12, 13, 28, 29, 30, 31, 32, 133, 160 :: nat}"

definition newline :: char where
  "newline = CHR 0x0A"

definition lstrip :: "string \<Rightarrow> string" where
  "lstrip s = dropWhile is_space s"

definition strip :: "string \<Rightarrow> string" where
  "strip s = rev (lstrip (rev (lstrip s)))"

definition removeprefix :: "string \<Rightarrow> string \<Rightarrow> string" where
  "removeprefix p s = (if prefix p s then drop (length p) s else s)"

definition removesuffix :: "string \<Rightarrow> string \<Rightarrow> string" where
  "removesuffix p s = (if p \<noteq> [] \<and> suffix p s then take (length s - length p) s else s)"

text \<open>\<open>s.split(c)\<close> for a one-character separator.\<close>

fun split_on :: "char \<Rightarrow> string \<Rightarrow> string list" where
  "split_on c [] = [[]]"
| "split_on c (x # xs) =
     (if x = c then [] # split_on c xs
      else (case split_on c xs of [] \<Rightarrow> [[x]] | w # ws \<Rightarrow> (x # w) # ws))"

text \<open>\<open>s.split()\<close>: maximal runs of non-space characters.\<close>

fun words_acc :: "string \<Rightarrow> string \<Rightarrow> string list" where
  "words_acc acc [] = (if acc = [] then [] else [rev acc])"
| "words_acc acc (x # xs) =
     (if is_space x then (if acc = [] then words_acc [] xs else rev acc # words_acc [] xs)
      else words_acc (x # acc) xs)"

definition words_of :: "string \<Rightarrow> string list" where
  "words_of s = words_acc [] s"

text \<open>\<open>s.splitlines()\<close>: a carriage return and the line feed after it are one break.\<close>

definition is_break :: "char \<Rightarrow> bool" where
  "is_break c \<longleftrightarrow> of_char c \<in> {10, 11, 12, 13, 28, 29, 30, 133 :: nat}"

fun lines_acc :: "string \<Rightarrow> string \<Rightarrow> string list" where
  "lines_acc acc [] = (if acc = [] then [] else [rev acc])"
| "lines_acc acc (c # cs) =
     (if c = CHR 0x0D \<and> cs \<noteq> [] \<and> hd cs = newline then lines_acc acc cs
      else if is_break c then rev acc # lines_acc [] cs
      else lines_acc (c # acc) cs)"

definition splitlines :: "string \<Rightarrow> string list" where
  "splitlines s = lines_acc [] s"

text \<open>\<open>s.rpartition(c)\<close> without its middle component, which is \<open>c\<close> when \<open>c\<close> occurs and empty otherwise.\<close>

definition rpartition :: "char \<Rightarrow> string \<Rightarrow> string \<times> string" where
  "rpartition c s =
     (if c \<in> set s
      then (rev (tl (dropWhile (\<lambda>x. x \<noteq> c) (rev s))), rev (takeWhile (\<lambda>x. x \<noteq> c) (rev s)))
      else ([], s))"

lemma break_chars: "is_break CHR 0x0D" "is_break newline" "newline \<noteq> CHR 0x0D"
  by (simp_all add: is_break_def newline_def)

lemma lines_acc_line:
  "\<forall>c \<in> set l. \<not> is_break c \<Longrightarrow> lines_acc acc (l @ newline # s) = (rev acc @ l) # lines_acc [] s"
proof (induction l arbitrary: acc)
  case Nil
  show ?case by (simp add: break_chars)
next
  case (Cons c l)
  then have "c \<noteq> CHR 0x0D" using break_chars(1) by auto
  with Cons show ?case by simp
qed

lemma splitlines_line:
  "\<forall>c \<in> set l. \<not> is_break c \<Longrightarrow> splitlines (l @ newline # s) = l # splitlines s"
  by (simp add: splitlines_def lines_acc_line)

lemma lines_acc_last:
  "\<forall>c \<in> set l. \<not> is_break c \<Longrightarrow> lines_acc acc l = (if rev acc @ l = [] then [] else [rev acc @ l])"
proof (induction l arbitrary: acc)
  case (Cons c l)
  then have "c \<noteq> CHR 0x0D" using break_chars(1) by auto
  with Cons show ?case by simp
qed simp

lemma splitlines_last: "\<forall>c \<in> set l. \<not> is_break c \<Longrightarrow> splitlines l = (if l = [] then [] else [l])"
  by (simp add: splitlines_def lines_acc_last)

lemma split_on_nonempty [simp]: "split_on c s \<noteq> []"
  by (induction s) (auto split: list.splits)

lemma split_on_no_sep: "c \<notin> set s \<Longrightarrow> split_on c s = [s]"
  by (induction s) auto

lemma split_on_append: "c \<notin> set w \<Longrightarrow> split_on c (w @ c # s) = w # split_on c s"
  by (induction w) auto

lemma rpartition_append: "c \<notin> set t \<Longrightarrow> rpartition c (h @ c # t) = (h, t)"
  by (simp add: rpartition_def) (metis (mono_tags) append_Nil2 dropWhile.simps(2) dropWhile_append2
    list.sel(3) rev_rev_ident set_rev takeWhile.simps(2) takeWhile_append2)

lemma rpartition_no_sep: "c \<notin> set s \<Longrightarrow> rpartition c s = ([], s)"
  by (simp add: rpartition_def)

lemma rpartition_split:
  assumes "c \<in> set s"
  obtains h t where "s = h @ c # t" "c \<notin> set t" "rpartition c s = (h, t)"
proof -
  obtain h t where "s = h @ c # t" "c \<notin> set t"
    using split_list_last [OF assms] by blast
  then show thesis using that rpartition_append by metis
qed

subsection \<open>Decimal numerals\<close>

fun show_nat :: "nat \<Rightarrow> string" where
  "show_nat n =
     (if n < 10 then [char_of (48 + n)] else show_nat (n div 10) @ [char_of (48 + n mod 10)])"

declare show_nat.simps [simp del]

definition show_int :: "int \<Rightarrow> string" where
  "show_int i = (if i < 0 then CHR ''-'' # show_nat (nat (- i)) else show_nat (nat i))"

definition is_digit :: "char \<Rightarrow> bool" where
  "is_digit c \<longleftrightarrow> CHR ''0'' \<le> c \<and> c \<le> CHR ''9''"

definition digit_value :: "char \<Rightarrow> int" where
  "digit_value c = int (of_char c) - 48"

text \<open>\<open>f"{n:05d}"\<close>.\<close>

definition pad_left :: "nat \<Rightarrow> string \<Rightarrow> string" where
  "pad_left k s = replicate (k - length s) CHR ''0'' @ s"

text \<open>
  The digits of \<open>int(text)\<close>: decimal digits with single underscores between them. The first argument
  says whether an underscore may come next (it may not come first, twice in a row, or last).
\<close>

fun digits_value :: "bool \<Rightarrow> int \<Rightarrow> string \<Rightarrow> int option" where
  "digits_value sep acc [] = (if sep then Some acc else None)"
| "digits_value sep acc (c # cs) =
     (if is_digit c then digits_value True (10 * acc + digit_value c) cs
      else if c = CHR ''_'' \<and> sep then digits_value False acc cs
      else None)"

definition parse_int :: "string \<Rightarrow> int result" where
  "parse_int text =
     (case strip text of
        [] \<Rightarrow> Inl ValueError
      | c # cs \<Rightarrow>
          (case (if c = CHR ''-'' then map_option uminus (digits_value False 0 cs)
                 else if c = CHR ''+'' then digits_value False 0 cs
                 else digits_value False 0 (c # cs)) of
             None \<Rightarrow> Inl ValueError
           | Some i \<Rightarrow> Inr i))"

lemma digit_char_props:
  assumes "n < 10"
  shows "is_digit (char_of (48 + n :: nat))" "digit_value (char_of (48 + n :: nat)) = int n"
    "\<not> is_space (char_of (48 + n :: nat))"
proof -
  have "of_char (char_of (48 + n :: nat)) = 48 + n"
    using assms by simp
  then show "is_digit (char_of (48 + n :: nat))" "digit_value (char_of (48 + n :: nat)) = int n"
    "\<not> is_space (char_of (48 + n :: nat))"
    using assms by (auto simp: is_digit_def digit_value_def is_space_def less_eq_char_def)
qed

lemma digits_value_append:
  "(\<And>c. c \<in> set xs \<Longrightarrow> is_digit c) \<Longrightarrow> sep \<or> xs \<noteq> [] \<Longrightarrow>
   digits_value sep acc (xs @ ys) =
     digits_value (sep \<or> xs \<noteq> []) (foldl (\<lambda>a c. 10 * a + digit_value c) acc xs) ys"
  by (induction xs arbitrary: sep acc) auto

lemma show_nat_digits: "c \<in> set (show_nat n) \<Longrightarrow> \<exists>d::nat. d < 10 \<and> c = char_of (48 + d)"
proof (induction n rule: show_nat.induct)
  case (1 n)
  show ?case
  proof (cases "n < 10")
    case True
    with 1 show ?thesis by (auto simp: show_nat.simps [of n])
  next
    case False
    with 1(2) consider "c \<in> set (show_nat (n div 10))" | "c = char_of (48 + n mod 10)"
      by (auto simp: show_nat.simps [of n])
    then show ?thesis
    proof cases
      case 1
      with False "1.IH" show ?thesis by blast
    next
      case 2
      then show ?thesis by (intro exI [of _ "n mod 10"]) simp
    qed
  qed
qed

lemma show_nat_is_digit: "c \<in> set (show_nat n) \<Longrightarrow> is_digit c"
  by (auto dest!: show_nat_digits simp: digit_char_props)

lemma not_digit_not_in_show_nat: "\<not> is_digit c \<Longrightarrow> c \<notin> set (show_nat n)"
  using show_nat_is_digit by blast

lemma show_nat_nonempty [simp]: "show_nat n \<noteq> []"
  by (subst show_nat.simps) simp

lemma show_nat_value: "foldl (\<lambda>a c. 10 * a + digit_value c) 0 (show_nat n) = int n"
proof (induction n rule: show_nat.induct)
  case (1 n)
  show ?case
    by (subst show_nat.simps) (use 1 in \<open>simp add: digit_char_props zmod_int zdiv_int\<close>)
qed

lemma digits_value_show_nat: "digits_value False 0 (show_nat n) = Some (int n)"
proof -
  have "digits_value False 0 (show_nat n @ []) = Some (int n)"
    by (subst digits_value_append)
      (auto dest: show_nat_digits simp: digit_char_props show_nat_value)
  then show ?thesis by simp
qed

lemma digits_value_pad: "digits_value False 0 (pad_left k (show_nat n)) = Some (int n)"
proof -
  have zeros: "digits_value b 0 (replicate m CHR ''0'' @ xs) = digits_value (b \<or> m \<noteq> 0) 0 xs" for b m xs
    by (induction m arbitrary: b) (simp_all add: is_digit_def digit_value_def less_eq_char_def)
  have sep: "xs \<noteq> [] \<Longrightarrow> (\<And>c. c \<in> set xs \<Longrightarrow> is_digit c) \<Longrightarrow> digits_value True 0 xs = digits_value False 0 xs" for xs
    by (cases xs) auto
  have "digits_value b 0 (show_nat n) = Some (int n)" for b
    using digits_value_show_nat [of n] sep [of "show_nat n"] show_nat_is_digit [of _ n]
    by (cases b) auto
  then show ?thesis by (simp add: pad_left_def zeros)
qed

lemma strip_no_space: "(\<And>c. c \<in> set s \<Longrightarrow> \<not> is_space c) \<Longrightarrow> strip s = s"
proof -
  assume ns: "\<And>c. c \<in> set s \<Longrightarrow> \<not> is_space c"
  have "dropWhile is_space t = t" if "set t \<subseteq> set s" for t
    using that ns by (cases t) auto
  then show ?thesis by (simp add: strip_def lstrip_def)
qed

lemma parse_int_show_nat: "parse_int (show_nat n) = Inr (int n)"
proof -
  have "strip (show_nat n) = show_nat n"
    by (rule strip_no_space) (auto dest!: show_nat_digits simp: digit_char_props)
  moreover obtain c cs where s: "show_nat n = c # cs" by (cases "show_nat n") auto
  moreover have "c \<noteq> CHR ''-''" "c \<noteq> CHR ''+''"
    using show_nat_digits [of c n] s by (auto simp: digit_char_props dest!: arg_cong [where f = is_digit])
      (simp_all add: is_digit_def digit_char_props less_eq_char_def)
  ultimately show ?thesis
    using digits_value_show_nat [of n] by (simp add: parse_int_def)
qed

text \<open>Printing an integer in decimal and reading it back with \<open>int\<close> gives the integer.\<close>

lemma parse_int_show_int: "parse_int (show_int i) = Inr i"
proof (cases "i < 0")
  case True
  have "strip (CHR ''-'' # show_nat (nat (- i))) = CHR ''-'' # show_nat (nat (- i))"
    by (rule strip_no_space) (auto dest!: show_nat_digits simp: digit_char_props is_space_def)
  with True show ?thesis
    by (simp add: show_int_def parse_int_def digits_value_show_nat)
next
  case False
  then show ?thesis by (simp add: show_int_def parse_int_show_nat)
qed

end
