(* ===== verification/Values.thy ===== *)
theory Values
  imports PyLib
begin

section \<open>Dynamically typed values\<close>

text \<open>
  JSON documents and span attributes are values of type \<open>Any\<close> in the sources. \<open>pyval\<close> is what
  \<open>json.loads\<close> and the attribute decoder produce, with Python's truth test, \<open>==\<close>, membership, item
  access, iteration, \<open>int\<close>, \<open>float\<close>, \<open>str\<close> and \<open>json.dumps\<close>. A float is its exact real value; infinities
  and NaN are not represented. Python prints a float by a shortest-digits search and a container by
  \<open>repr\<close>; no decision of the sources depends on those texts, so they are left unspecified.
\<close>

datatype pyval =
    PNone
  | PBool bool
  | PInt int
  | PFloat real
  | PStr string
  | PList "pyval list"
  | PDict "(string \<times> pyval) list"

type_synonym attrs = "(string, pyval) dict"

subsection \<open>Truth and equality\<close>

fun truthy :: "pyval \<Rightarrow> bool" where
  "truthy PNone = False"
| "truthy (PBool b) = b"
| "truthy (PInt i) = (i \<noteq> 0)"
| "truthy (PFloat r) = (r \<noteq> 0)"
| "truthy (PStr s) = (s \<noteq> [])"
| "truthy (PList xs) = (xs \<noteq> [])"
| "truthy (PDict d) = (d \<noteq> [])"

text \<open>\<open>True == 1 == 1.0\<close>: booleans, integers and floats compare by their number.\<close>

fun num_of :: "pyval \<Rightarrow> real option" where
  "num_of (PBool b) = Some (of_bool b)"
| "num_of (PInt i) = Some (of_int i)"
| "num_of (PFloat r) = Some r"
| "num_of _ = None"

fun py_eq :: "pyval \<Rightarrow> pyval \<Rightarrow> bool"
  and py_eqs :: "pyval list \<Rightarrow> pyval list \<Rightarrow> bool"
  and py_covers :: "(string \<times> pyval) list \<Rightarrow> (string \<times> pyval) list \<Rightarrow> bool" where
  "py_eq (PList xs) (PList ys) = py_eqs xs ys"
| "py_eq (PDict d) (PDict e) = (length d = length e \<and> py_covers d e)"
| "py_eq v w = (case (num_of v, num_of w) of
     (Some x, Some y) \<Rightarrow> x = y | (None, None) \<Rightarrow> v = w | _ \<Rightarrow> False)"
| "py_eqs [] [] = True"
| "py_eqs (x # xs) (y # ys) = (py_eq x y \<and> py_eqs xs ys)"
| "py_eqs _ _ = False"
| "py_covers [] e = True"
| "py_covers ((k, v) # d) e =
     ((case map_of e k of None \<Rightarrow> False | Some w \<Rightarrow> py_eq v w) \<and> py_covers d e)"

lemma py_eq_str [simp]: "py_eq v (PStr s) \<longleftrightarrow> v = PStr s"
  by (cases v) auto

lemma py_eq_str' [simp]: "py_eq (PStr s) v \<longleftrightarrow> v = PStr s"
  by (cases v) auto

lemma py_eq_int: "py_eq v (PInt i) \<longleftrightarrow> num_of v = Some (of_int i)"
  by (cases v) auto

lemma py_eqs_strs: "py_eqs vs (map PStr ss) \<longleftrightarrow> vs = map PStr ss"
proof (induction vs arbitrary: ss)
  case Nil
  show ?case by (cases ss) auto
next
  case (Cons v vs)
  then show ?case by (cases ss) (auto simp del: py_eq.simps)
qed

text \<open>\<open>d.get(k)\<close> on a decoded attribute dictionary.\<close>

definition attr :: "attrs \<Rightarrow> string \<Rightarrow> pyval" where
  "attr d k = (case dict_get d k of None \<Rightarrow> PNone | Some v \<Rightarrow> v)"

subsection \<open>Operations on values of unknown type\<close>

definition py_in :: "string \<Rightarrow> pyval \<Rightarrow> bool result" where
  "py_in k v = (case v of
     PDict d \<Rightarrow> Inr (k \<in> fst ` set d)
   | PStr s \<Rightarrow> Inr (sublist k s)
   | PList xs \<Rightarrow> Inr (PStr k \<in> set xs)
   | _ \<Rightarrow> Inl TypeError)"

definition py_item :: "pyval \<Rightarrow> string \<Rightarrow> pyval result" where
  "py_item v k = (case v of
     PDict d \<Rightarrow> (case dict_get d k of None \<Rightarrow> Inl (KeyError k) | Some w \<Rightarrow> Inr w)
   | _ \<Rightarrow> Inl TypeError)"

text \<open>The method \<open>v.get(k, default)\<close>, which only dictionaries have.\<close>

definition py_get :: "pyval \<Rightarrow> string \<Rightarrow> pyval \<Rightarrow> pyval result" where
  "py_get v k dflt = (case v of
     PDict d \<Rightarrow> Inr (case dict_get d k of None \<Rightarrow> dflt | Some w \<Rightarrow> w)
   | _ \<Rightarrow> Inl AttributeError)"

fun py_iter :: "pyval \<Rightarrow> pyval list result" where
  "py_iter (PList xs) = Inr xs"
| "py_iter (PDict d) = Inr (map (\<lambda>(k, _). PStr k) d)"
| "py_iter (PStr s) = Inr (map (\<lambda>c. PStr [c]) s)"
| "py_iter _ = Inl TypeError"

fun py_int :: "pyval \<Rightarrow> int result" where
  "py_int (PInt i) = Inr i"
| "py_int (PBool b) = Inr (of_bool b)"
| "py_int (PFloat r) = Inr (if r < 0 then \<lceil>r\<rceil> else \<lfloor>r\<rfloor>)"
| "py_int (PStr s) = parse_int s"
| "py_int _ = Inl TypeError"

text \<open>
  \<open>float(text)\<close> for decimal literals: sign, digits with an optional point, optional exponent.
\<close>

definition digits_opt :: "string \<Rightarrow> int option" where
  "digits_opt s = (if s = [] then Some 0 else digits_value False 0 s)"

definition signed_digits :: "string \<Rightarrow> int option" where
  "signed_digits s = (case s of
     [] \<Rightarrow> None
   | c # cs \<Rightarrow> if c = CHR ''-'' then map_option uminus (digits_value False 0 cs)
              else if c = CHR ''+'' then digits_value False 0 cs
              else digits_value False 0 s)"

definition parse_float :: "string \<Rightarrow> real result" where
  "parse_float text =
     (let s = strip text;
          neg = (case s of c # _ \<Rightarrow> c = CHR ''-'' | [] \<Rightarrow> False);
          body = (case s of c # cs \<Rightarrow> if c = CHR ''-'' \<or> c = CHR ''+'' then cs else s | [] \<Rightarrow> []);
          mant = takeWhile (\<lambda>c. c \<noteq> CHR ''e'' \<and> c \<noteq> CHR ''E'') body;
          expo = dropWhile (\<lambda>c. c \<noteq> CHR ''e'' \<and> c \<noteq> CHR ''E'') body;
          ip = takeWhile (\<lambda>c. c \<noteq> CHR ''.'') mant;
          fp = tl (dropWhile (\<lambda>c. c \<noteq> CHR ''.'') mant)
      in (case (digits_opt ip, digits_opt fp, if expo = [] then Some 0 else signed_digits (tl expo)) of
            (Some i, Some f, Some e) \<Rightarrow>
              if ip = [] \<and> fp = [] then Inl ValueError
              else (let k = length (filter is_digit fp);
                        m = (of_int i + of_int f / 10 ^ k) * (10 powi e)
                    in Inr (if neg then - m else m))
          | _ \<Rightarrow> Inl ValueError))"

fun py_float :: "pyval \<Rightarrow> real result" where
  "py_float (PFloat r) = Inr r"
| "py_float (PInt i) = Inr (of_int i)"
| "py_float (PBool b) = Inr (of_bool b)"
| "py_float (PStr s) = parse_float s"
| "py_float _ = Inl TypeError"

subsection \<open>Texts of values\<close>

definition unspecified_text :: "pyval \<Rightarrow> string" where
  "unspecified_text = undefined"

fun py_str :: "pyval \<Rightarrow> string" where
  "py_str PNone = ''None''"
| "py_str (PBool b) = (if b then ''True'' else ''False'')"
| "py_str (PInt i) = show_int i"
| "py_str (PStr s) = s"
| "py_str v = unspecified_text v"

text \<open>
  \<open>json.dumps\<close> with its default separators. A character outside the printable ASCII range, a quote
  or a backslash is written as an escape that starts with a backslash.
\<close>

definition json_plain :: "char \<Rightarrow> bool" where
  "json_plain c \<longleftrightarrow> (32 :: nat) \<le> of_char c \<and> (of_char c :: nat) < 127
     \<and> c \<noteq> CHR 0x22 \<and> c \<noteq> CHR 0x5C"

definition hex_digit :: "nat \<Rightarrow> char" where
  "hex_digit n = (if n < 10 then char_of (48 + n) else char_of (87 + n))"

definition json_char :: "char \<Rightarrow> string" where
  "json_char c =
     (let n = of_char c :: nat in
      if json_plain c then [c]
      else if c = CHR 0x22 \<or> c = CHR 0x5C then [CHR 0x5C, c]
      else if n = 10 then [CHR 0x5C, CHR ''n'']
      else if n = 13 then [CHR 0x5C, CHR ''r'']
      else if n = 9 then [CHR 0x5C, CHR ''t'']
      else if n = 12 then [CHR 0x5C, CHR ''f'']
      else if n = 8 then [CHR 0x5C, CHR ''b'']
      else CHR 0x5C # ''u00'' @ [hex_digit (n div 16), hex_digit (n mod 16)])"

definition json_text :: "string \<Rightarrow> string" where
  "json_text s = CHR 0x22 # concat (map json_char s) @ [CHR 0x22]"

fun join :: "string \<Rightarrow> string list \<Rightarrow> string" where
  "join sep [] = []"
| "join sep [s] = s"
| "join sep (s # t # ts) = s @ sep @ join sep (t # ts)"

fun json_dumps :: "pyval \<Rightarrow> string" where
  "json_dumps PNone = ''null''"
| "json_dumps (PBool b) = (if b then ''true'' else ''false'')"
| "json_dumps (PInt i) = show_int i"
| "json_dumps (PFloat r) = unspecified_text (PFloat r)"
| "json_dumps (PStr s) = json_text s"
| "json_dumps (PList xs) = ''['' @ join '', '' (map json_dumps xs) @ '']''"
| "json_dumps (PDict d) =
     ''{'' @ join '', '' (map (\<lambda>(k, v). json_text k @ '': '' @ json_dumps v) d) @ ''}''"

lemma sublist_middle: "sublist x y \<Longrightarrow> sublist x (a @ y @ b)"
  by (auto simp: sublist_def) (metis append.assoc)

lemmas sublist_left = sublist_middle [of _ _ "[]", simplified]
  and sublist_right = sublist_middle [of _ _ _ "[]", simplified]

lemma sublist_join: "s \<in> set ss \<Longrightarrow> sublist s (join sep ss)"
proof (induction sep ss rule: join.induct)
  case (3 sep s' t ts)
  show ?case
  proof (cases "s = s'")
    case True
    then show ?thesis by (simp add: sublist_append_rightI)
  next
    case False
    with 3 have "sublist s (join sep (t # ts))" by simp
    then have "sublist s ((s' @ sep) @ join sep (t # ts))" by (rule sublist_right)
    then show ?thesis by simp
  qed
qed simp_all

lemma json_char_plain: "json_plain c \<Longrightarrow> json_char c = [c]"
  by (simp add: json_char_def Let_def)

lemma concat_json_plain: "(\<And>c. c \<in> set s \<Longrightarrow> json_plain c) \<Longrightarrow> concat (map json_char s) = s"
  by (induction s) (simp_all add: json_char_plain)

text \<open>A text without characters that need an escape appears literally in every dump of a string that contains it.\<close>

lemma sublist_json_text:
  assumes "sublist p s" and plain: "\<And>c. c \<in> set p \<Longrightarrow> json_plain c"
  shows "sublist p (json_text s)"
proof -
  from assms(1) obtain a b where s: "s = a @ p @ b" by (auto simp: sublist_def)
  have "json_text s = (CHR 0x22 # concat (map json_char a)) @ p @ (concat (map json_char b) @ [CHR 0x22])"
    by (simp add: json_text_def s concat_json_plain [OF plain])
  then show ?thesis unfolding sublist_def by blast
qed

lemma sublist_dumps_list: "v \<in> set xs \<Longrightarrow> sublist p (json_dumps v) \<Longrightarrow> sublist p (json_dumps (PList xs))"
proof -
  assume "v \<in> set xs" and p: "sublist p (json_dumps v)"
  then have "sublist (json_dumps v) (join '', '' (map json_dumps xs))"
    by (intro sublist_join) simp
  then have "sublist (json_dumps v) (json_dumps (PList xs))"
    unfolding json_dumps.simps by (rule sublist_middle)
  with p show ?thesis by (rule sublist_order.order_trans)
qed

lemma sublist_dumps_entry:
  assumes "(k, v) \<in> set d" and "sublist p (json_text k @ '': '' @ json_dumps v)"
  shows "sublist p (json_dumps (PDict d))"
proof -
  let ?e = "json_text k @ '': '' @ json_dumps v"
  have "?e \<in> set (map (\<lambda>(k, v). json_text k @ '': '' @ json_dumps v) d)"
    using assms(1) by force
  then have "sublist ?e (join '', '' (map (\<lambda>(k, v). json_text k @ '': '' @ json_dumps v) d))"
    by (rule sublist_join)
  then have "sublist ?e (json_dumps (PDict d))"
    unfolding json_dumps.simps by (rule sublist_middle)
  with assms(2) show ?thesis by (rule sublist_order.order_trans)
qed

lemma sublist_dumps_value:
  "(k, v) \<in> set d \<Longrightarrow> sublist p (json_dumps v) \<Longrightarrow> sublist p (json_dumps (PDict d))"
  by (erule sublist_dumps_entry) (intro sublist_right)

lemma sublist_dumps_key:
  "(k, v) \<in> set d \<Longrightarrow> sublist p (json_text k) \<Longrightarrow> sublist p (json_dumps (PDict d))"
  by (erule sublist_dumps_entry) (rule sublist_left)

subsection \<open>Nesting depth\<close>

text \<open>The measure for decoders that recurse into values they looked up.\<close>

fun depth :: "pyval \<Rightarrow> nat" where
  "depth (PList xs) = Suc (foldr max (map depth xs) 0)"
| "depth (PDict d) = Suc (foldr max (map (\<lambda>(_, v). depth v) d) 0)"
| "depth _ = 0"

lemma foldr_max_ge: "(x::nat) \<in> set xs \<Longrightarrow> x \<le> foldr max xs 0"
  by (induction xs) auto

lemma depth_item: "py_item v k = Inr w \<Longrightarrow> depth w < depth v"
proof -
  assume "py_item v k = Inr w"
  then obtain d where v: "v = PDict d" and "map_of d k = Some w"
    by (auto simp: py_item_def dict_get_def split: pyval.splits option.splits)
  then have "(k, w) \<in> set d" by (simp add: map_of_SomeD)
  then have "depth w \<in> set (map (\<lambda>(_, v). depth v) d)" by force
  then show ?thesis using foldr_max_ge v by (simp add: less_Suc_eq_le)
qed

lemma depth_get: "py_get v k dflt = Inr w \<Longrightarrow> w = dflt \<or> depth w < depth v"
  using depth_item [of v k w]
  by (auto simp: py_get_def py_item_def split: pyval.splits option.splits)

lemma depth_iter: "py_iter v = Inr xs \<Longrightarrow> x \<in> set xs \<Longrightarrow> depth x \<le> depth v"
proof (cases v)
  case (PList ys)
  assume "py_iter v = Inr xs" "x \<in> set xs"
  with PList have "depth x \<in> set (map depth ys)" by simp
  with PList show ?thesis using foldr_max_ge by (fastforce intro: le_SucI)
qed auto

end
