(* ===== verification/Base64.thy ===== *)
theory Base64
  imports PyLib
begin

section \<open>Base64 and hexadecimal texts\<close>

text \<open>
  Python's \<open>base64.b64encode\<close>, \<open>base64.b64decode\<close> (its default, lenient mode) and \<open>bytes.hex\<close>,
  which the trace model, the secrets and the token tampering rest on. Bytes are naturals below 256.
  \<open>b64decode\<close> follows \<open>binascii.a2b_base64\<close>: characters outside the alphabet are skipped, a complete
  padding ends the input, and data that stops inside a group of four is an error
  (\<open>binascii.Error\<close> is a \<open>ValueError\<close>).
\<close>

type_synonym bytes = "nat list"

definition is_bytes :: "bytes \<Rightarrow> bool" where
  "is_bytes bs \<longleftrightarrow> (\<forall>b \<in> set bs. b < 256)"

definition b64_char :: "nat \<Rightarrow> char" where
  "b64_char n =
     (if n < 26 then char_of (65 + n)
      else if n < 52 then char_of (71 + n)
      else if n < 62 then char_of (n - 4)
      else if n = 62 then CHR ''+'' else CHR ''/'')"

definition b64_value :: "char \<Rightarrow> nat option" where
  "b64_value c =
     (let n = of_char c :: nat in
      if 65 \<le> n \<and> n \<le> 90 then Some (n - 65)
      else if 97 \<le> n \<and> n \<le> 122 then Some (n - 71)
      else if 48 \<le> n \<and> n \<le> 57 then Some (n + 4)
      else if n = 43 then Some 62
      else if n = 47 then Some 63
      else None)"

fun b64encode :: "bytes \<Rightarrow> string" where
  "b64encode [] = []"
| "b64encode [a] = [b64_char (a div 4), b64_char (a mod 4 * 16), CHR ''='', CHR ''='']"
| "b64encode [a, b] =
     [b64_char (a div 4), b64_char (a mod 4 * 16 + b div 16), b64_char (b mod 16 * 4), CHR ''='']"
| "b64encode (a # b # c # bs) =
     b64_char (a div 4) # b64_char (a mod 4 * 16 + b div 16) #
     b64_char (b mod 16 * 4 + c div 64) # b64_char (c mod 64) # b64encode bs"

text \<open>State of the decoder: position in the group of four, bits left over, padding seen.\<close>

fun a2b_loop :: "nat \<Rightarrow> nat \<Rightarrow> nat \<Rightarrow> string \<Rightarrow> bytes result" where
  "a2b_loop q left pads [] = (if q = 0 then Inr [] else Inl ValueError)"
| "a2b_loop q left pads (c # cs) =
     (if c = CHR ''='' then
        (if 2 \<le> q then (if 4 \<le> q + (pads + 1) then Inr [] else a2b_loop q left (pads + 1) cs)
         else a2b_loop q left pads cs)
      else (case b64_value c of
              None \<Rightarrow> a2b_loop q left pads cs
            | Some v \<Rightarrow>
                if q = 0 then a2b_loop 1 v 0 cs
                else if q = 1 then map_sum id (Cons (left * 4 + v div 16)) (a2b_loop 2 (v mod 16) 0 cs)
                else if q = 2 then map_sum id (Cons (left * 16 + v div 4)) (a2b_loop 3 (v mod 4) 0 cs)
                else map_sum id (Cons (left * 64 + v)) (a2b_loop 0 0 0 cs)))"

definition b64decode :: "string \<Rightarrow> bytes result" where
  "b64decode s =
     (if \<exists>c \<in> set s. (128 :: nat) \<le> of_char c then Inl ValueError else a2b_loop 0 0 0 s)"

definition hex_char :: "nat \<Rightarrow> char" where
  "hex_char n = (if n < 10 then char_of (48 + n) else char_of (87 + n))"

definition hex :: "bytes \<Rightarrow> string" where
  "hex bs = concat (map (\<lambda>b. [hex_char (b div 16), hex_char (b mod 16)]) bs)"

subsection \<open>Decoding what was encoded\<close>

lemma of_char_b64_char:
  assumes "n < 64"
  shows "(of_char (b64_char n) :: nat) =
    (if n < 26 then 65 + n else if n < 52 then 71 + n else if n < 62 then n - 4
     else if n = 62 then 43 else 47)"
  using assms by (auto simp: b64_char_def)

lemma b64_char_props:
  assumes "n < 64"
  shows "b64_value (b64_char n) = Some n" "b64_char n \<noteq> CHR ''=''"
    "(of_char (b64_char n) :: nat) < 128"
proof -
  show "b64_value (b64_char n) = Some n"
    using assms unfolding b64_value_def Let_def of_char_b64_char [OF assms] by auto
  have "(of_char (b64_char n) :: nat) \<noteq> of_char (CHR ''='')"
    using assms unfolding of_char_b64_char [OF assms] by auto
  then show "b64_char n \<noteq> CHR ''=''" by metis
  show "(of_char (b64_char n) :: nat) < 128"
    using assms unfolding of_char_b64_char [OF assms] by auto
qed

lemma is_bytes_simps [simp]:
  "is_bytes []" "is_bytes (b # bs) \<longleftrightarrow> b < 256 \<and> is_bytes bs"
  by (auto simp: is_bytes_def)

lemma a2b_loop_encode: "is_bytes bs \<Longrightarrow> a2b_loop 0 0 0 (b64encode bs) = Inr bs"
proof (induction bs rule: b64encode.induct)
  case (2 a)
  then have "a div 4 < 64" "a mod 4 * 16 < 64" by auto
  then show ?case by (simp add: b64_char_props)
next
  case (3 a b)
  then have "a div 4 < 64" "a mod 4 * 16 + b div 16 < 64" "b mod 16 * 4 < 64" by auto
  moreover have "(a mod 4 * 16 + b div 16) div 16 = a mod 4" "(a mod 4 * 16 + b div 16) mod 16 = b div 16"
    using 3 by auto
  ultimately show ?case by (simp add: b64_char_props)
next
  case (4 a b c bs)
  then have "a div 4 < 64" "a mod 4 * 16 + b div 16 < 64" "b mod 16 * 4 + c div 64 < 64" "c mod 64 < 64"
    by auto
  moreover have "(a mod 4 * 16 + b div 16) div 16 = a mod 4" "(a mod 4 * 16 + b div 16) mod 16 = b div 16"
    "(b mod 16 * 4 + c div 64) div 4 = b mod 16" "(b mod 16 * 4 + c div 64) mod 4 = c div 64"
    using 4 by auto
  ultimately show ?case using 4 by (simp add: b64_char_props)
qed simp

lemma b64encode_ascii: "is_bytes bs \<Longrightarrow> c \<in> set (b64encode bs) \<Longrightarrow> (of_char c :: nat) < 128"
proof (induction bs rule: b64encode.induct)
  case (2 a)
  then have "a div 4 < 64" "a mod 4 * 16 < 64" by auto
  with 2 show ?case by (auto simp: b64_char_props)
next
  case (3 a b)
  then have "a div 4 < 64" "a mod 4 * 16 + b div 16 < 64" "b mod 16 * 4 < 64" by auto
  with 3 show ?case by (auto simp: b64_char_props)
next
  case (4 a b c bs)
  then have "a div 4 < 64" "a mod 4 * 16 + b div 16 < 64" "b mod 16 * 4 + c div 64 < 64" "c mod 64 < 64"
    by auto
  with 4 show ?case by (auto simp: b64_char_props)
qed simp

lemma b64decode_encode: "is_bytes bs \<Longrightarrow> b64decode (b64encode bs) = Inr bs"
  using b64encode_ascii [of bs] by (fastforce simp: b64decode_def a2b_loop_encode)

lemma length_b64encode: "length (b64encode bs) = 4 * ((length bs + 2) div 3)"
proof (induction bs rule: b64encode.induct)
  case (4 a b c bs)
  have "(length (a # b # c # bs) + 2) div 3 = Suc ((length bs + 2) div 3)" by simp
  with 4 show ?case by simp
qed simp_all

lemma b64encode_Nil_iff [simp]: "b64encode bs = [] \<longleftrightarrow> bs = []"
  by (cases bs rule: b64encode.cases) simp_all

lemma length_hex: "length (hex bs) = 2 * length bs"
  by (induction bs) (simp_all add: hex_def)

subsection \<open>Unused bits of a final character\<close>

text \<open>
  A data length of two characters beyond a multiple of four carries one byte in its last two
  characters; the low four bits of the last one are unused, and the lenient decoder ignores them.
\<close>

definition b64_text :: "string \<Rightarrow> bool" where
  "b64_text s \<longleftrightarrow> (\<forall>c \<in> set s. b64_value c \<noteq> None \<and> c \<noteq> CHR ''='' \<and> (of_char c :: nat) < 128)"

lemma a2b_loop_last_bits:
  assumes "b64_text s" "q < 4" "b64_value c = Some v" "b64_value d = Some w" "v div 16 = w div 16"
    "c \<noteq> CHR ''=''" "d \<noteq> CHR ''=''" "(q + length s) mod 4 = 1"
  shows "a2b_loop q l p (s @ c # ''=='') = a2b_loop q l p (s @ d # ''=='')"
  using assms
proof (induction s arbitrary: q l p)
  case Nil
  then have "q = 1" by simp
  with Nil show ?case by simp
next
  case (Cons x s)
  then obtain v where v: "b64_value x = Some v" and x: "x \<noteq> CHR ''=''" and s: "b64_text s"
    by (auto simp: b64_text_def)
  note IH = Cons.IH [OF s _ Cons.prems(3-7)]
  have m: "(q + Suc (length s)) mod 4 = 1" using Cons.prems(8) by simp
  have "q = 0 \<or> q = 1 \<or> q = 2 \<or> q = 3" using Cons.prems(2) by auto
  then show ?case using m v x by (auto intro!: arg_cong [where f = "map_sum id _"] IH) (presburger+)?
qed

end
