(* ===== verification/Traces.thy ===== *)
theory Traces
  imports Values Base64
begin

section \<open>Traces: the parsed model of the Jaeger Query API (traces.py)\<close>

text \<open>
  Spans, traces and their queries, and the parser from the OTLP JSON documents of the Query API.
  Times are the integers of the document; a duration in milliseconds is a real number. The OTLP
  schema makes the names of spans, events and attributes strings; the parser model raises
  \<open>TypeError\<close> where a document has another type there, which Python would carry on with.
\<close>

subsection \<open>Spans and traces\<close>

record span_event =
  event_name :: string
  time_unix_nano :: int
  event_attrs :: attrs

record span =
  span_trace_id :: string
  span_id :: string
  parent_span_id :: string
  span_name :: string
  span_kind :: string
  start_unix_nano :: int
  end_unix_nano :: int
  span_status :: string
  span_attrs :: attrs
  span_events :: "span_event list"
  span_resource :: attrs

definition service :: "span \<Rightarrow> string" where
  "service s = py_str (case dict_get (span_resource s) ''service.name'' of None \<Rightarrow> PStr [] | Some v \<Rightarrow> v)"

definition duration_ms :: "span \<Rightarrow> real" where
  "duration_ms s = of_int (end_unix_nano s - start_unix_nano s) / 1000000"

definition is_root :: "span \<Rightarrow> bool" where
  "is_root s \<longleftrightarrow> parent_span_id s = []"

definition overlaps :: "span \<Rightarrow> span \<Rightarrow> bool" where
  "overlaps s other \<longleftrightarrow>
     start_unix_nano s < end_unix_nano other \<and> start_unix_nano other < end_unix_nano s"

record trace =
  trace_id :: string
  spans :: "span list"

definition services :: "trace \<Rightarrow> string set" where
  "services t = service ` set (spans t)"

definition named :: "trace \<Rightarrow> string \<Rightarrow> span list" where
  "named t nm = filter (\<lambda>s. span_name s = nm) (spans t)"

definition by_service :: "trace \<Rightarrow> string \<Rightarrow> string option \<Rightarrow> span list" where
  "by_service t svc kind =
     filter (\<lambda>s. service s = svc \<and> (case kind of None \<Rightarrow> True | Some k \<Rightarrow> span_kind s = k)) (spans t)"

definition children_of :: "trace \<Rightarrow> span \<Rightarrow> span list" where
  "children_of t s = filter (\<lambda>c. parent_span_id c = span_id s) (spans t)"

definition parent_of :: "trace \<Rightarrow> span \<Rightarrow> span option" where
  "parent_of t s = first_such (\<lambda>c. span_id c = parent_span_id s) (spans t)"

definition known_ids :: "trace \<Rightarrow> string set" where
  "known_ids t = span_id ` set (spans t)"

definition roots :: "trace \<Rightarrow> span list" where
  "roots t = filter (\<lambda>s. parent_span_id s = [] \<or> parent_span_id s \<notin> known_ids t) (spans t)"

lemma parent_of_SomeD: "parent_of t s = Some p \<Longrightarrow> p \<in> set (spans t) \<and> span_id p = parent_span_id s"
  by (auto simp: parent_of_def dest: first_such_SomeD)

lemma parent_of_None_iff: "parent_of t s = None \<longleftrightarrow> parent_span_id s \<notin> known_ids t"
  by (simp add: parent_of_def first_such_None_iff known_ids_def image_iff) metis

subsection \<open>Identifiers\<close>

definition hex_digits :: string where
  "hex_digits = ''0123456789abcdefABCDEF''"

definition normalize_id :: "string option \<Rightarrow> nat \<Rightarrow> string result" where
  "normalize_id value byte_length =
     (case value of
        None \<Rightarrow> Inr []
      | Some v \<Rightarrow>
          if v = [] then Inr []
          else if length v = byte_length * 2 \<and> (\<forall>c \<in> set v. c \<in> set hex_digits) then Inr (lower v)
          else bindE (b64decode (v @ replicate (nat ((- int (length v)) mod 4)) (CHR ''='')))
                 (\<lambda>raw. Inr (if \<exists>b \<in> set raw. b \<noteq> 0 then hex raw else [])))"

text \<open>An identifier of a JSON object: \<open>raw.get(key)\<close> handed to \<open>normalize_id\<close>.\<close>

definition id_field :: "pyval \<Rightarrow> string \<Rightarrow> nat \<Rightarrow> string result" where
  "id_field raw key byte_length =
     bindE (py_get raw key PNone) (\<lambda>v.
       case v of
         PStr s \<Rightarrow> normalize_id (Some s) byte_length
       | _ \<Rightarrow> if truthy v then Inl TypeError else normalize_id None byte_length)"

subsection \<open>Attribute values\<close>

definition as_key :: "pyval \<Rightarrow> string result" where
  "as_key v = (case v of PStr s \<Rightarrow> Inr s | _ \<Rightarrow> Inl TypeError)"

function attribute_value :: "pyval \<Rightarrow> pyval result"
  and attributes :: "pyval \<Rightarrow> attrs result" where
  "attribute_value value =
     bindE (py_in ''stringValue'' value) (\<lambda>b1. if b1 then py_item value ''stringValue'' else
     bindE (py_in ''boolValue'' value) (\<lambda>b2. if b2 then
       bindE (py_item value ''boolValue'') (\<lambda>v. Inr (PBool (truthy v))) else
     bindE (py_in ''intValue'' value) (\<lambda>b3. if b3 then
       bindE (py_item value ''intValue'') (\<lambda>v. bindE (py_int v) (\<lambda>i. Inr (PInt i))) else
     bindE (py_in ''doubleValue'' value) (\<lambda>b4. if b4 then
       bindE (py_item value ''doubleValue'') (\<lambda>v. bindE (py_float v) (\<lambda>r. Inr (PFloat r))) else
     bindE (py_in ''arrayValue'' value) (\<lambda>b5. if b5 then
       bindE (py_item value ''arrayValue'') (\<lambda>a.
       bindE (py_get a ''values'' (PList [])) (\<lambda>vs.
       bindE (py_iter vs) (\<lambda>items.
       bindE (mapE attribute_value items) (\<lambda>ys. Inr (PList ys))))) else
     bindE (py_in ''kvlistValue'' value) (\<lambda>b6. if b6 then
       bindE (py_item value ''kvlistValue'') (\<lambda>a.
       bindE (py_get a ''values'' (PList [])) (\<lambda>vs.
       bindE (attributes vs) (\<lambda>d. Inr (PDict d)))) else
     Inr PNone))))))"
| "attributes items =
     bindE (if truthy items then py_iter items else Inr []) (\<lambda>xs.
     bindE (mapE (\<lambda>item.
         bindE (py_item item ''key'') (\<lambda>k.
         bindE (as_key k) (\<lambda>key.
         bindE (py_get item ''value'' (PDict [])) (\<lambda>w.
         bindE (attribute_value w) (\<lambda>v. Inr (key, v)))))) xs)
       (\<lambda>kvs. Inr (dict_of kvs)))"
  by pat_completeness auto

lemma depth_values:
  assumes "py_item value k = Inr a" "py_get a ''values'' (PList []) = Inr vs"
  shows "depth vs < depth value"
proof -
  have "depth a < depth value" using assms(1) by (rule depth_item)
  moreover have "0 < depth a" using assms(2) by (cases a) (auto simp: py_get_def)
  moreover have "vs = PList [] \<or> depth vs < depth a" using assms(2) by (rule depth_get)
  ultimately show ?thesis by auto
qed

lemma depth_value_field:
  assumes "py_iter items = Inr xs" "item \<in> set xs" "py_item item ''key'' = Inr k"
    "py_get item ''value'' (PDict []) = Inr w"
  shows "depth w < depth items"
proof -
  obtain ys where items: "items = PList ys" and xs: "xs = ys"
    using assms(1-3) by (cases items) (auto simp: py_item_def)
  have "depth item \<in> set (map depth ys)" using assms(2) xs by simp
  then have "depth item < depth items" using foldr_max_ge items by (simp add: less_Suc_eq_le)
  moreover have "depth (PDict []) \<le> depth item"
    using assms(3) by (cases item) (auto simp: py_item_def)
  ultimately show ?thesis using depth_get [OF assms(4)] by auto
qed

lemma depth_array_item:
  "py_item value k = Inr a \<Longrightarrow> py_get a ''values'' (PList []) = Inr vs \<Longrightarrow> py_iter vs = Inr items \<Longrightarrow>
   x \<in> set items \<Longrightarrow> depth x < depth value"
  using depth_values depth_iter by (blast intro: le_less_trans)

termination attribute_value
  by (relation "measure (case_sum depth depth)")
    (auto intro: depth_array_item depth_values depth_value_field split: if_splits)

declare attribute_value.simps [simp del] attributes.simps [simp del]

subsection \<open>Documents\<close>

text \<open>\<open>_enum\<close>: numeric and textual spellings of an enumeration.\<close>

definition enum_name :: "pyval \<Rightarrow> (int, string) dict \<Rightarrow> string \<Rightarrow> string" where
  "enum_name value names pre =
     (let numeric = (\<lambda>i. case dict_get names i of None \<Rightarrow> ''UNSPECIFIED'' | Some n \<Rightarrow> n) in
      case value of
        PInt i \<Rightarrow> numeric i
      | PBool b \<Rightarrow> numeric (of_bool b)
      | _ \<Rightarrow> (let text = (if truthy value then py_str value else []);
                 rest = removeprefix pre text
             in if rest = [] then (case dict_get names 0 of None \<Rightarrow> [] | Some n \<Rightarrow> n) else rest))"

definition kind_names :: "(int, string) dict" where
  "kind_names = [(0, ''UNSPECIFIED''), (1, ''INTERNAL''), (2, ''SERVER''), (3, ''CLIENT''),
     (4, ''PRODUCER''), (5, ''CONSUMER'')]"

definition status_names :: "(int, string) dict" where
  "status_names = [(0, ''UNSET''), (1, ''OK''), (2, ''ERROR'')]"

text \<open>\<open>_resource_spans\<close>: a TracesData object, a result wrapper, or a list of streamed chunks.\<close>

function resource_spans :: "pyval \<Rightarrow> pyval list result" where
  "resource_spans document =
     (case document of
        PList chunks \<Rightarrow> bindE (mapE resource_spans chunks) (\<lambda>xss. Inr (concat xss))
      | PDict d \<Rightarrow>
          (case dict_get d ''result'' of
             Some r \<Rightarrow> resource_spans r
           | None \<Rightarrow> bindE (py_get document ''resourceSpans'' (PList [])) py_iter)
      | _ \<Rightarrow> Inr [])"
  by pat_completeness auto

lemma depth_member: "x \<in> set xs \<Longrightarrow> depth x < depth (PList xs)"
  using foldr_max_ge [of "depth x" "map depth xs"] by (simp add: less_Suc_eq_le)

lemma depth_entry: "dict_get d k = Some r \<Longrightarrow> depth r < depth (PDict d)"
  using depth_item [of "PDict d" k r] by (simp add: py_item_def)

termination resource_spans
  by (relation "measure depth")
    (simp_all only: wf_measure in_measure depth_member depth_entry)

declare resource_spans.simps [simp del]

definition parse_event :: "pyval \<Rightarrow> span_event result" where
  "parse_event e =
     bindE (bindE (py_get e ''name'' (PStr [])) as_key) (\<lambda>nm.
     bindE (bindE (py_get e ''timeUnixNano'' (PInt 0)) py_int) (\<lambda>t.
     bindE (bindE (py_get e ''attributes'' PNone) attributes) (\<lambda>a.
     Inr \<lparr>event_name = nm, time_unix_nano = t, event_attrs = a\<rparr>)))"

definition parse_span :: "attrs \<Rightarrow> pyval \<Rightarrow> span result" where
  "parse_span resource raw =
     bindE (id_field raw ''traceId'' 16) (\<lambda>tid.
     bindE (id_field raw ''spanId'' 8) (\<lambda>sid.
     bindE (id_field raw ''parentSpanId'' 8) (\<lambda>pid.
     bindE (bindE (py_get raw ''name'' (PStr [])) as_key) (\<lambda>nm.
     bindE (py_get raw ''kind'' PNone) (\<lambda>knd.
     bindE (bindE (py_get raw ''startTimeUnixNano'' (PInt 0)) py_int) (\<lambda>st.
     bindE (bindE (py_get raw ''endTimeUnixNano'' (PInt 0)) py_int) (\<lambda>en.
     bindE (bindE (py_get raw ''status'' (PDict [])) (\<lambda>sts. py_get sts ''code'' PNone)) (\<lambda>code.
     bindE (bindE (py_get raw ''attributes'' PNone) attributes) (\<lambda>a.
     bindE (bindE (bindE (py_get raw ''events'' (PList [])) py_iter) (mapE parse_event)) (\<lambda>evs.
     Inr \<lparr>span_trace_id = tid, span_id = sid, parent_span_id = pid, span_name = nm,
       span_kind = enum_name knd kind_names ''SPAN_KIND_'',
       start_unix_nano = st, end_unix_nano = en,
       span_status = enum_name code status_names ''STATUS_CODE_'',
       span_attrs = a, span_events = evs, span_resource = resource\<rparr>))))))))))"

definition parse_spans :: "pyval \<Rightarrow> span list result" where
  "parse_spans document =
     bindE (resource_spans document) (\<lambda>rss.
     bindE (mapE (\<lambda>rs.
       bindE (bindE (bindE (py_get rs ''resource'' (PDict [])) (\<lambda>r. py_get r ''attributes'' PNone)) attributes) (\<lambda>resource.
       bindE (bindE (py_get rs ''scopeSpans'' (PList [])) py_iter) (\<lambda>scopes.
       bindE (mapE (\<lambda>scope.
           bindE (bindE (py_get scope ''spans'' (PList [])) py_iter) (mapE (parse_span resource))) scopes) (\<lambda>sss.
       Inr (concat sss))))) rss) (\<lambda>ssss.
     Inr (concat ssss)))"

definition group_traces :: "span list \<Rightarrow> trace list" where
  "group_traces ss =
     map (\<lambda>(tid, items). \<lparr>trace_id = tid, spans = sort_key start_unix_nano items\<rparr>)
       (group_by span_trace_id ss)"

subsection \<open>Identifiers are normalised\<close>

lemma hex_char_table:
  fixes n :: nat
  assumes "n < 16"
  shows "hex_char n \<in> set hex_digits \<and> lower_char (hex_char n) = hex_char n"
proof -
  have "\<forall>k \<in> set [0..<16]. hex_char k \<in> set hex_digits \<and> lower_char (hex_char k) = hex_char k"
    by code_simp
  with assms show ?thesis by simp
qed

lemma set_hex: "is_bytes bs \<Longrightarrow> c \<in> set (hex bs) \<Longrightarrow> \<exists>n < 16. c = hex_char n"
proof -
  assume "is_bytes bs" and "c \<in> set (hex bs)"
  then obtain b where "b < 256" and "c = hex_char (b div 16) \<or> c = hex_char (b mod 16)"
    by (auto simp: hex_def is_bytes_def)
  moreover from this have "b div 16 < 16" "b mod 16 < 16" by auto
  ultimately show ?thesis by blast
qed

lemma lower_hex: "is_bytes bs \<Longrightarrow> lower (hex bs) = hex bs"
  unfolding lower_def by (rule map_idI) (auto dest: set_hex simp: hex_char_table)

lemma hex_is_hex: "is_bytes bs \<Longrightarrow> c \<in> set (hex bs) \<Longrightarrow> c \<in> set hex_digits"
  by (auto dest: set_hex simp: hex_char_table)

lemma normalize_id_hex:
  "v \<noteq> [] \<Longrightarrow> length v = 2 * n \<Longrightarrow> (\<And>c. c \<in> set v \<Longrightarrow> c \<in> set hex_digits) \<Longrightarrow>
   normalize_id (Some v) n = Inr (lower v)"
  by (simp add: normalize_id_def)

lemma normalize_id_b64:
  assumes "is_bytes bs" "length bs = n" "n = 8 \<or> n = 16"
  shows "normalize_id (Some (b64encode bs)) n = Inr (if \<exists>b \<in> set bs. b \<noteq> 0 then hex bs else [])"
proof -
  have len: "length (b64encode bs) = 4 * ((n + 2) div 3)"
    using assms(2) by (simp add: length_b64encode)
  then have "length (b64encode bs) \<noteq> n * 2" and pad: "nat ((- int (length (b64encode bs))) mod 4) = 0"
    using assms(3) by auto
  moreover have "b64encode bs \<noteq> []" using assms by auto
  ultimately show ?thesis
    by (simp add: normalize_id_def b64decode_encode [OF assms(1)])
qed

text \<open>
  An identifier is normalised to the same lowercase hexadecimal text whether the
  document spells its bytes in hexadecimal (in any mix of cases) or in base64, unless all its bytes
  are zero: then base64 gives the empty identifier while hexadecimal gives zeros.
\<close>

theorem normalize_id_encodings:
  assumes "is_bytes bs" and "length bs = n" and "n = 8 \<or> n = 16"
    and "lower v = hex bs" and "set v \<subseteq> set hex_digits"
  shows "normalize_id (Some v) n = Inr (hex bs) \<and>
    normalize_id (Some (b64encode bs)) n = Inr (if \<exists>b \<in> set bs. b \<noteq> 0 then hex bs else [])"
proof
  have "length v = 2 * n"
    using arg_cong [OF assms(4), of length] assms(2) by (simp add: lower_def length_hex)
  moreover from this assms(3) have "v \<noteq> []" by auto
  ultimately show "normalize_id (Some v) n = Inr (hex bs)"
    using assms(4,5) by (simp add: normalize_id_hex subset_iff)
  show "normalize_id (Some (b64encode bs)) n = Inr (if \<exists>b \<in> set bs. b \<noteq> 0 then hex bs else [])"
    using assms(1-3) by (rule normalize_id_b64)
qed

theorem normalize_id_encodings_witness:
  "normalize_id (Some ''A1b2000000000000'') 8 = Inr ''a1b2000000000000''"
proof -
  have "normalize_id (Some ''A1b2000000000000'') 8 = Inr (hex [161, 178, 0, 0, 0, 0, 0, 0])"
    by (rule normalize_id_encodings [THEN conjunct1])
      (simp_all add: is_bytes_def lower_def lower_char_def hex_def hex_char_def hex_digits_def
        less_eq_char_def char_of_def bit_iff_odd)
  then show ?thesis
    by (simp add: hex_def hex_char_def char_of_def bit_iff_odd)
qed

subsection \<open>Grouping spans into traces\<close>

lemma group_traces_member:
  "t \<in> set (group_traces ss) \<longleftrightarrow>
     trace_id t \<in> span_trace_id ` set ss \<and>
     spans t = sort_key start_unix_nano (filter (\<lambda>s. span_trace_id s = trace_id t) ss)"
proof -
  have "t \<in> set (group_traces ss) \<longleftrightarrow>
      (\<exists>k items. (k, items) \<in> set (group_by span_trace_id ss) \<and>
         t = \<lparr>trace_id = k, spans = sort_key start_unix_nano items\<rparr>)"
    by (force simp: group_traces_def image_iff)
  then show ?thesis by (cases t) (auto simp: group_by_member)
qed

lemma group_traces_ids: "map trace_id (group_traces ss) = dict_keys (group_by span_trace_id ss)"
  by (simp add: group_traces_def dict_keys_def case_prod_beta)

lemma mset_concat_sorted: "mset (concat (map (\<lambda>x. sort_key f (g x)) xs)) = mset (concat (map g xs))"
  by (induction xs) simp_all

lemma mset_group_traces: "mset (concat (map spans (group_traces ss))) = mset ss"
  using mset_concat_sorted [of start_unix_nano snd "group_by span_trace_id ss"]
    mset_group_by [of span_trace_id ss]
  by (simp add: group_traces_def case_prod_beta comp_def)

text \<open>
  \<open>group_traces\<close> partitions the spans: no trace id occurs twice, no span is lost or
  duplicated, and the spans of a trace are exactly those that carry its id, in the order of their
  start times, spans with equal start times in document order.
\<close>

theorem group_traces_partition:
  "distinct (map trace_id (group_traces ss)) \<and>
   mset (concat (map spans (group_traces ss))) = mset ss \<and>
   (\<forall>t \<in> set (group_traces ss). spans t \<noteq> [] \<and> sorted (map start_unix_nano (spans t)) \<and>
      (\<forall>s \<in> set (spans t). span_trace_id s = trace_id t) \<and>
      (\<forall>k. filter (\<lambda>s. start_unix_nano s = k) (spans t) =
           filter (\<lambda>s. span_trace_id s = trace_id t \<and> start_unix_nano s = k) ss))"
proof (intro conjI ballI allI)
  show "distinct (map trace_id (group_traces ss))"
    by (simp add: group_traces_ids distinct_keys_group_by)
  show "mset (concat (map spans (group_traces ss))) = mset ss"
    by (rule mset_group_traces)
next
  fix t assume t: "t \<in> set (group_traces ss)"
  then have "\<exists>s \<in> set ss. span_trace_id s = trace_id t" by (auto simp: group_traces_member)
  then have "set (spans t) \<noteq> {}" using t by (auto simp: group_traces_member)
  then show "spans t \<noteq> []" by auto
  show "sorted (map start_unix_nano (spans t))"
    using t by (simp add: group_traces_member)
  show "span_trace_id s = trace_id t" if "s \<in> set (spans t)" for s
    using t that by (simp add: group_traces_member)
  show "filter (\<lambda>s. start_unix_nano s = k) (spans t) =
      filter (\<lambda>s. span_trace_id s = trace_id t \<and> start_unix_nano s = k) ss" for k
    using t by (simp add: group_traces_member sort_key_stable conj_commute)
qed

theorem group_traces_partition_witness:
  "spans (hd (group_traces [\<lparr>span_trace_id = ''t'', span_id = ''b'', parent_span_id = [], span_name = ''n'',
       span_kind = ''SERVER'', start_unix_nano = 5, end_unix_nano = 9, span_status = ''UNSET'',
       span_attrs = [], span_events = [], span_resource = []\<rparr>])) \<noteq> []"
proof -
  let ?s = "\<lparr>span_trace_id = ''t'', span_id = ''b'', parent_span_id = [], span_name = ''n'',
       span_kind = ''SERVER'', start_unix_nano = 5, end_unix_nano = 9, span_status = ''UNSET'',
       span_attrs = [], span_events = [], span_resource = []\<rparr>"
  have "group_traces [?s] = [\<lparr>trace_id = ''t'', spans = [?s]\<rparr>]"
    by (simp add: group_traces_def group_by_def dict_append_def dict_put_def)
  then show ?thesis using group_traces_partition [of "[?s]"] by simp
qed

end
