(* ===== verification/Schema.thy ===== *)
theory Schema
  imports Values
begin

section \<open>Scenario files (scenarios/schema.py)\<close>

text \<open>
  The typed structure of a scenario and every rule that decides whether one is accepted: the bounds
  declared with \<open>Field\<close> and the \<open>model_validator\<close>s, in their order. A record here is a model object
  after the YAML values were converted to their declared types; pydantic's conversion itself and the
  rejection of unknown fields are the library's. A violated bound or rule is a value of
  \<open>schema_error\<close>; where the source raises \<open>ValueError\<close> the first violated rule is reported, where
  pydantic checks field bounds all of them are.
\<close>

definition DOWNSTREAM_SERVICES :: "string list" where
  "DOWNSTREAM_SERVICES = [''inventory-service'', ''fraud-service'', ''payment-service'', ''shipping-service'']"

datatype workload_kind = Deployment | StatefulSet

definition WORKLOADS :: "(string, string \<times> workload_kind) dict" where
  "WORKLOADS =
     map (\<lambda>nm. (nm, (''transaction-platform'', Deployment))) (''order-service'' # DOWNSTREAM_SERVICES)
     @ [(''jaeger-collector'', (''observability'', Deployment)),
        (''opensearch-traces'', (''observability'', StatefulSet))]"

definition FAULT_OPERATIONS :: "(string, string list) dict" where
  "FAULT_OPERATIONS =
     [(''inventory-service'', [''inventory.reserve'', ''inventory.release'', ''readiness'']),
      (''fraud-service'', [''fraud.evaluate'', ''readiness'']),
      (''payment-service'', [''payment.authorize'', ''payment.void'', ''readiness'']),
      (''shipping-service'', [''shipping.create'', ''readiness''])]"

definition MAX_FAULT_TTL_SECONDS :: int where
  "MAX_FAULT_TTL_SECONDS = 1800"

text \<open>\<open>Field(ge=lo, le=hi)\<close> on an optional value, which \<open>None\<close> satisfies.\<close>

definition in_bounds :: "'a::linorder option \<Rightarrow> 'a \<Rightarrow> 'a option \<Rightarrow> bool" where
  "in_bounds v lo hi \<longleftrightarrow> (case v of None \<Rightarrow> True
     | Some x \<Rightarrow> lo \<le> x \<and> (case hi of None \<Rightarrow> True | Some h \<Rightarrow> x \<le> h))"

definition in_bounds_gt :: "real option \<Rightarrow> real \<Rightarrow> real \<Rightarrow> bool" where
  "in_bounds_gt v lo hi \<longleftrightarrow> (case v of None \<Rightarrow> True | Some x \<Rightarrow> lo < x \<and> x \<le> hi)"

datatype schema_error =
    FieldBound string
  | UnknownOperation string string
  | ReadinessOperation
  | ReadinessScoped
  | LatencyNeedsDelay
  | NeedsStatusCode string
  | IntermittentNeedsOne
  | AfterEffectNeedsLatency
  | UnknownWorkload string
  | ReplicasOnlyForScale
  | RestoreOnlyForScale
  | ProfileNeedsRate
  | SpikeNeedsRate
  | SpikeTooLong
  | DebugNeedsRunner
  | AllCombined
  | NoCountRule

text \<open>The bounds that do not hold, by the name of their field.\<close>

definition violated :: "(string \<times> bool) list \<Rightarrow> schema_error list" where
  "violated rules = map (\<lambda>(nm, _). FieldBound nm) (filter (\<lambda>(_, ok). \<not> ok) rules)"

lemma violated_Nil_iff [simp]: "violated rules = [] \<longleftrightarrow> (\<forall>(nm, ok) \<in> set rules. ok)"
  by (auto simp: violated_def filter_empty_conv)

subsection \<open>Faults\<close>

datatype fault_mode = Latency | HttpError | Timeout | Intermittent | BusinessRejection | ReadinessLoss
datatype fault_phase = BeforeEffect | AfterEffect
datatype fault_replicas = AllReplicas | OneReplica

fun mode_text :: "fault_mode \<Rightarrow> string" where
  "mode_text Latency = ''latency''"
| "mode_text HttpError = ''http-error''"
| "mode_text Timeout = ''timeout''"
| "mode_text Intermittent = ''intermittent''"
| "mode_text BusinessRejection = ''business-rejection''"
| "mode_text ReadinessLoss = ''readiness-loss''"

fun phase_text :: "fault_phase \<Rightarrow> string" where
  "phase_text BeforeEffect = ''before-effect''"
| "phase_text AfterEffect = ''after-effect''"

record fault_spec =
  fault_service :: string
  fault_operation :: string
  fault_mode_of :: fault_mode
  delay_ms :: "int option"
  status_code :: "int option"
  phase :: "fault_phase option"
  fail_attempts :: "int option"
  every_nth :: "int option"
  max_activations :: "int option"
  ttl_seconds :: int
  fault_replicas_of :: fault_replicas
  scoped :: bool

definition fault_field_errors :: "fault_spec \<Rightarrow> schema_error list" where
  "fault_field_errors f = violated
     [(''service'', fault_service f \<in> set DOWNSTREAM_SERVICES),
      (''delayMs'', in_bounds (delay_ms f) 1 (Some 120000)),
      (''statusCode'', in_bounds (status_code f) 400 (Some 599)),
      (''failAttempts'', in_bounds (fail_attempts f) 1 None),
      (''everyNth'', in_bounds (every_nth f) 2 None),
      (''maxActivations'', in_bounds (max_activations f) 1 None),
      (''ttlSeconds'', 10 \<le> ttl_seconds f \<and> ttl_seconds f \<le> MAX_FAULT_TTL_SECONDS)]"

definition operations_of :: "string \<Rightarrow> string list" where
  "operations_of svc = (case dict_get FAULT_OPERATIONS svc of None \<Rightarrow> [] | Some ops \<Rightarrow> ops)"

definition check_parameters :: "fault_spec \<Rightarrow> schema_error + fault_spec" where
  "check_parameters f =
     (if fault_operation f \<notin> set (operations_of (fault_service f))
        then Inl (UnknownOperation (fault_service f) (fault_operation f))
      else if (fault_mode_of f = ReadinessLoss) \<noteq> (fault_operation f = ''readiness'')
        then Inl ReadinessOperation
      else if fault_mode_of f = ReadinessLoss \<and> scoped f then Inl ReadinessScoped
      else if fault_mode_of f = Latency \<and> delay_ms f = None then Inl LatencyNeedsDelay
      else if fault_mode_of f \<in> {HttpError, Intermittent} \<and> status_code f = None
        then Inl (NeedsStatusCode (mode_text (fault_mode_of f)))
      else if fault_mode_of f = Intermittent \<and> (fail_attempts f = None) = (every_nth f = None)
        then Inl IntermittentNeedsOne
      else if phase f = Some AfterEffect \<and> fault_mode_of f \<noteq> Latency then Inl AfterEffectNeedsLatency
      else Inr f)"

definition validate_fault :: "fault_spec \<Rightarrow> schema_error list + fault_spec" where
  "validate_fault f =
     (if fault_field_errors f \<noteq> [] then Inl (fault_field_errors f)
      else map_sum (\<lambda>e. [e]) id (check_parameters f))"

text \<open>\<open>to_rule\<close>: the JSON body of the rule, without the fields that are \<open>None\<close>.\<close>

definition to_rule :: "fault_spec \<Rightarrow> string \<Rightarrow> (string, pyval) dict" where
  "to_rule f scenario_run_id =
     map (\<lambda>(k, v). (k, the v)) (filter (\<lambda>(_, v). v \<noteq> None)
       [(''operation'', Some (PStr (fault_operation f))),
        (''mode'', Some (PStr (mode_text (fault_mode_of f)))),
        (''ttlSeconds'', Some (PInt (ttl_seconds f))),
        (''delayMs'', map_option PInt (delay_ms f)),
        (''statusCode'', map_option PInt (status_code f)),
        (''phase'', map_option (PStr \<circ> phase_text) (phase f)),
        (''failAttempts'', map_option PInt (fail_attempts f)),
        (''everyNth'', map_option PInt (every_nth f)),
        (''maxActivations'', map_option PInt (max_activations f)),
        (''scenarioRunId'', if scoped f then Some (PStr scenario_run_id) else None)])"

subsection \<open>Kubernetes actions\<close>

datatype k8s_action_kind = DeletePod | RolloutRestart | Scale

record k8s_action =
  action_kind :: k8s_action_kind
  action_workload :: string
  at_seconds :: real
  action_replicas :: "int option"
  restore_after_seconds :: "real option"

definition action_field_errors :: "k8s_action \<Rightarrow> schema_error list" where
  "action_field_errors a =
     violated [(''atSeconds'', 0 \<le> at_seconds a \<and> at_seconds a \<le> 600),
       (''replicas'', in_bounds (action_replicas a) 0 (Some 5)),
       (''restoreAfterSeconds'', in_bounds (restore_after_seconds a) 1 (Some 600))]
     @ (if action_workload a \<in> set (dict_keys WORKLOADS) then []
        else [UnknownWorkload (action_workload a)])"

definition check_replicas :: "k8s_action \<Rightarrow> schema_error + k8s_action" where
  "check_replicas a =
     (if (action_kind a = Scale) \<noteq> (action_replicas a \<noteq> None) then Inl ReplicasOnlyForScale
      else if restore_after_seconds a \<noteq> None \<and> action_kind a \<noteq> Scale then Inl RestoreOnlyForScale
      else Inr a)"

definition validate_action :: "k8s_action \<Rightarrow> schema_error list + k8s_action" where
  "validate_action a =
     (if action_field_errors a \<noteq> [] then Inl (action_field_errors a)
      else map_sum (\<lambda>e. [e]) id (check_replicas a))"

subsection \<open>Workload steps\<close>

datatype profile = Single | Concurrent | Burst | Steady | Spike
datatype order_template = Normal | HighRisk | Declined | RestrictedZone | OutOfStock | Oversized | Malformed
datatype identity_kind = ScenarioRunner | OrderReader | NoIdentity | Tampered

record workload_step =
  profile_of :: profile
  requests :: nat
  concurrency :: nat
  rate_per_second :: "real option"
  duration_seconds :: "real option"
  spike_rate_per_second :: "real option"
  spike_seconds :: "real option"
  order :: order_template
  identity :: identity_kind
  debug :: bool
  delay_seconds :: real
  label :: string

definition step_field_errors :: "workload_step \<Rightarrow> schema_error list" where
  "step_field_errors s = violated
     [(''requests'', 1 \<le> requests s \<and> requests s \<le> 5000),
      (''concurrency'', 1 \<le> concurrency s \<and> concurrency s \<le> 200),
      (''ratePerSecond'', in_bounds_gt (rate_per_second s) 0 200),
      (''durationSeconds'', in_bounds_gt (duration_seconds s) 0 600),
      (''spikeRatePerSecond'', in_bounds_gt (spike_rate_per_second s) 0 200),
      (''spikeSeconds'', in_bounds_gt (spike_seconds s) 0 120),
      (''delaySeconds'', 0 \<le> delay_seconds s \<and> delay_seconds s \<le> 300)]"

definition check_profile :: "workload_step \<Rightarrow> schema_error + workload_step" where
  "check_profile s =
     (if profile_of s \<in> {Steady, Spike} \<and> (rate_per_second s = None \<or> duration_seconds s = None)
        then Inl ProfileNeedsRate
      else if profile_of s = Spike \<and> (spike_rate_per_second s = None \<or> spike_seconds s = None)
        then Inl SpikeNeedsRate
      else if profile_of s = Spike \<and> the (spike_seconds s) \<ge> the (duration_seconds s)
        then Inl SpikeTooLong
      else if debug s \<and> identity s \<noteq> ScenarioRunner then Inl DebugNeedsRunner
      else Inr s)"

definition validate_step :: "workload_step \<Rightarrow> schema_error list + workload_step" where
  "validate_step s =
     (if step_field_errors s \<noteq> [] then Inl (step_field_errors s)
      else map_sum (\<lambda>e. [e]) id (check_profile s))"

subsection \<open>Expectations and scenarios\<close>

record count_rule =
  exactly :: "int option"
  min_count :: "int option"
  max_count :: "int option"
  all_of :: bool

definition count_field_errors :: "count_rule \<Rightarrow> schema_error list" where
  "count_field_errors r = violated
     [(''exactly'', in_bounds (exactly r) 0 None), (''min'', in_bounds (min_count r) 0 None),
      (''max'', in_bounds (max_count r) 0 None)]"

definition one_kind :: "count_rule \<Rightarrow> schema_error + count_rule" where
  "one_kind r =
     (if all_of r \<and> (\<exists>v \<in> set [exactly r, min_count r, max_count r]. v \<noteq> None) then Inl AllCombined
      else if \<not> all_of r \<and> (\<forall>v \<in> set [exactly r, min_count r, max_count r]. v = None) then Inl NoCountRule
      else Inr r)"

definition validate_count :: "count_rule \<Rightarrow> schema_error list + count_rule" where
  "validate_count r =
     (if count_field_errors r \<noteq> [] then Inl (count_field_errors r)
      else map_sum (\<lambda>e. [e]) id (one_kind r))"

record application_expectations =
  statuses :: "(int, count_rule) dict"
  states :: "(string, count_rule) dict"
  compensation :: "string list option"
  authorizations_per_order :: "int option"

record telemetry_expectations =
  contract :: string
  parameters :: "(string, pyval) dict"

record expectations =
  application :: application_expectations
  telemetry :: "telemetry_expectations option"

datatype category = ApplicationFault | KubernetesFault | Edge | Security | Workload

record scenario =
  scenario_id :: string
  title :: string
  description :: string
  category_of :: category
  faults :: "fault_spec list"
  kubernetes :: "k8s_action list"
  workload :: "workload_step list"
  expect :: expectations

text \<open>The pattern \<open>^[a-z][a-z0-9-]{2,40}$\<close> of a scenario id.\<close>

definition id_pattern :: "string \<Rightarrow> bool" where
  "id_pattern s \<longleftrightarrow> 3 \<le> length s \<and> length s \<le> 41 \<and>
     (case s of [] \<Rightarrow> False | c # cs \<Rightarrow>
        (CHR ''a'' \<le> c \<and> c \<le> CHR ''z'') \<and>
        (\<forall>d \<in> set cs. (CHR ''a'' \<le> d \<and> d \<le> CHR ''z'') \<or> is_digit d \<or> d = CHR ''-''))"

definition scenario_valid :: "scenario \<Rightarrow> bool" where
  "scenario_valid sc \<longleftrightarrow>
     id_pattern (scenario_id sc) \<and>
     (\<forall>f \<in> set (faults sc). validate_fault f = Inr f) \<and>
     (\<forall>a \<in> set (kubernetes sc). validate_action a = Inr a) \<and>
     workload sc \<noteq> [] \<and> (\<forall>s \<in> set (workload sc). validate_step s = Inr s) \<and>
     (\<forall>(_, r) \<in> set (statuses (application (expect sc))). validate_count r = Inr r) \<and>
     (\<forall>(_, r) \<in> set (states (application (expect sc))). validate_count r = Inr r) \<and>
     in_bounds (authorizations_per_order (application (expect sc))) 0 (Some 5)"

end
