(* ===== verification/Orders.thy ===== *)
theory Orders
  imports Values
begin

section \<open>Placing orders through the gateway (orders.py)\<close>

text \<open>
  An HTTP response as the sources look at it: its status, its headers (the client looks names up
  without regard to case, so they are kept in lower case), what \<open>response.json()\<close> gives, \<open>None\<close> when
  it raises because the body is not JSON, and the JSON documents its text is a sequence of. The client
  and the token provider are arguments.
\<close>

record http_response =
  resp_status :: int
  resp_headers :: "(string, string) dict"
  resp_json :: "pyval option"
  resp_documents :: "pyval list option"

definition header :: "http_response \<Rightarrow> string \<Rightarrow> string" where
  "header r nm = (case dict_get (resp_headers r) nm of None \<Rightarrow> [] | Some v \<Rightarrow> v)"

text \<open>\<open>response.raise_for_status()\<close> and \<open>response.json()\<close>.\<close>

definition raise_for_status :: "http_response \<Rightarrow> http_response result" where
  "raise_for_status r = (if 200 \<le> resp_status r \<and> resp_status r < 300 then Inr r else Inl HTTPError)"

definition json_of :: "http_response \<Rightarrow> pyval result" where
  "json_of r = (case resp_json r of None \<Rightarrow> Inl ValueError | Some v \<Rightarrow> Inr v)"

definition order_items :: "string \<Rightarrow> int \<Rightarrow> pyval" where
  "order_items sku quantity = PList [PDict [(''sku'', PStr sku), (''quantity'', PInt quantity)]]"

definition NORMAL_ORDER :: "(string, pyval) dict" where
  "NORMAL_ORDER =
     [(''items'', order_items ''SKU-1001'' 1), (''paymentToken'', PStr ''tok_test_approved''),
      (''shippingZone'', PStr ''domestic'')]"

text \<open>The trace id of a W3C \<open>traceresponse\<close> header: \<open>00-<trace id>-<span id>-<flags>\<close>.\<close>

definition trace_id_of :: "http_response \<Rightarrow> string" where
  "trace_id_of response =
     (let parts = split_on CHR ''-'' (header response ''traceresponse'') in
      if length parts = 4 then parts ! 1 else [])"

definition place ::
  "(string \<Rightarrow> string result) \<Rightarrow> (pyval \<Rightarrow> (string, string) dict \<Rightarrow> http_response result) \<Rightarrow>
   pyval option \<Rightarrow> string option \<Rightarrow> (string, string) dict \<Rightarrow> bool \<Rightarrow> http_response result" where
  "place token post ord client_id headers dbg =
     bindE (case client_id of
              Some c \<Rightarrow> if c = [] then Inr headers
                        else bindE (token c) (\<lambda>t. Inr (dict_put ''Authorization'' (''Bearer '' @ t) headers))
            | None \<Rightarrow> Inr headers)
       (\<lambda>h. let h' = (if dbg then dict_put ''X-Debug-Trace'' ''true'' h else h) in
            post (case ord of Some b \<Rightarrow> b | None \<Rightarrow> PDict NORMAL_ORDER) h')"

lemma trace_id_of_header:
  assumes "header r ''traceresponse'' = ''00-'' @ tid @ CHR ''-'' # sid @ CHR ''-'' # flags"
    and "CHR ''-'' \<notin> set tid" "CHR ''-'' \<notin> set sid" "CHR ''-'' \<notin> set flags"
  shows "trace_id_of r = tid"
  using assms by (simp add: trace_id_of_def split_on_append split_on_no_sep)

end
