(* ===== verification/Workload.thy ===== *)
theory Workload
  imports Schema Orders Base64
begin

section \<open>Traffic generation (scenarios/workload.py)\<close>

text \<open>
  The schedule of a workload step, the tampered token, the headers and body of a request and the
  record kept of it. Offsets are computed in exact real arithmetic where the source uses floats.
  The network is an argument: what \<open>client.post\<close> did for the n-th request of a step (a response, or
  the text of the \<open>httpx.HTTPError\<close> it raised) and when it began and ended; so the requests of a step
  may overlap in any way. The sleeps that realise the planned offsets and the semaphore that bounds
  the number of requests in flight are timing and not part of the model.
\<close>

subsection \<open>Schedules\<close>

text \<open>\<open>int(x)\<close> of a float truncates; \<open>range\<close> of a negative number is empty.\<close>

definition trunc :: "real \<Rightarrow> int" where
  "trunc x = (if x < 0 then \<lceil>x\<rceil> else \<lfloor>x\<rfloor>)"

definition paced :: "real \<Rightarrow> real \<Rightarrow> real \<Rightarrow> real list" where
  "paced from_time rate len = map (\<lambda>i. from_time + real i / rate) [0..<nat (trunc (rate * len))]"

definition or_zero :: "real option \<Rightarrow> real" where
  "or_zero v = (case v of None \<Rightarrow> 0 | Some x \<Rightarrow> x)"

definition schedule :: "workload_step \<Rightarrow> real list" where
  "schedule s =
     (case profile_of s of
        Single \<Rightarrow> [0]
      | Burst \<Rightarrow> replicate (requests s) 0
      | Concurrent \<Rightarrow> replicate (requests s) 0
      | Steady \<Rightarrow> paced 0 (or_zero (rate_per_second s)) (or_zero (duration_seconds s))
      | Spike \<Rightarrow>
          (let rate = or_zero (rate_per_second s); duration = or_zero (duration_seconds s);
               spike = or_zero (spike_seconds s);
               spike_start = (duration - spike) / 2;
               spike_rate = (if or_zero (spike_rate_per_second s) = 0 then rate
                             else or_zero (spike_rate_per_second s));
               tail_start = spike_start + spike
           in paced 0 rate spike_start @ paced spike_start spike_rate spike
              @ paced tail_start rate (duration - tail_start)))"

lemma length_paced: "length (paced a r d) = nat (trunc (r * d))"
  by (simp add: paced_def)

lemma paced_bounds:
  assumes "0 < r" "x \<in> set (paced a r d)"
  shows "a \<le> x \<and> x < a + d"
proof -
  from assms(2) have "\<exists>i. x = a + real i / r \<and> i < nat (trunc (r * d))"
    unfolding paced_def by auto
  then obtain i where x: "x = a + real i / r" and i: "i < nat (trunc (r * d))" by blast
  have "0 \<le> r * d" using i by (auto simp: trunc_def split: if_splits)
  then have "real i < r * d" using i by (simp add: trunc_def) linarith
  then have "real i / r < d" using assms(1) by (simp add: divide_less_eq mult.commute)
  then show ?thesis using x assms(1) by simp
qed

lemma sorted_paced: "0 < r \<Longrightarrow> sorted (paced a r d)"
  by (simp add: paced_def sorted_iff_nth_mono divide_right_mono)

text \<open>What the checks on a profile give the schedule.\<close>

lemma steady_fields:
  assumes "validate_step s = Inr s" "profile_of s \<in> {Steady, Spike}"
  obtains r d where "rate_per_second s = Some r" "0 < r" "r \<le> 200"
    "duration_seconds s = Some d" "0 < d" "d \<le> 600"
  using assms
  by (auto simp: validate_step_def step_field_errors_def check_profile_def in_bounds_gt_def
      split: if_splits option.splits)

lemma spike_fields:
  assumes "validate_step s = Inr s" "profile_of s = Spike"
  obtains q p d where "spike_rate_per_second s = Some q" "0 < q" "q \<le> 200"
    "spike_seconds s = Some p" "0 < p" "p \<le> 120" "duration_seconds s = Some d" "p < d"
  using assms
  by (auto simp: validate_step_def step_field_errors_def check_profile_def in_bounds_gt_def
      split: if_splits option.splits)

lemma request_count:
  "validate_step s = Inr s \<Longrightarrow> 1 \<le> requests s \<and> requests s \<le> 5000"
  by (auto simp: validate_step_def step_field_errors_def split: if_splits)

lemma sorted_three:
  fixes xs ys zs :: "real list"
  assumes "sorted xs" "sorted ys" "sorted zs"
    and "\<And>x. x \<in> set xs \<Longrightarrow> x < a" "\<And>y. y \<in> set ys \<Longrightarrow> a \<le> y \<and> y < b" "\<And>z. z \<in> set zs \<Longrightarrow> b \<le> z" "a \<le> b"
  shows "sorted (xs @ ys @ zs)"
  using assms by (fastforce simp: sorted_append)

lemma schedule_Spike:
  assumes "validate_step s = Inr s" "profile_of s = Spike"
    "rate_per_second s = Some r" "duration_seconds s = Some d" "spike_rate_per_second s = Some q" "spike_seconds s = Some p"
  shows "schedule s = paced 0 r ((d - p) / 2) @ paced ((d - p) / 2) q p @ paced ((d - p) / 2 + p) r ((d - p) / 2)"
proof -
  have "0 < q" using assms by (elim spike_fields) simp_all
  then have "schedule s = paced 0 r ((d - p) / 2) @ paced ((d - p) / 2) q p
      @ paced ((d - p) / 2 + p) r (d - ((d - p) / 2 + p))"
    using assms by (simp add: schedule_def or_zero_def Let_def)
  also have "d - ((d - p) / 2 + p) = (d - p) / 2" by argo
  finally show ?thesis .
qed

lemma schedule_sorted_within:
  assumes "validate_step s = Inr s"
  shows "sorted (schedule s) \<and> (\<forall>x \<in> set (schedule s). 0 \<le> x \<and> x < 600)"
proof (cases "profile_of s")
  case Steady
  then obtain r d where "rate_per_second s = Some r" "0 < r" "duration_seconds s = Some d" "d \<le> 600"
    using steady_fields [OF assms] by (metis insertCI)
  then show ?thesis
    using Steady paced_bounds [of r _ 0 d] sorted_paced [of r 0 d]
    by (fastforce simp: schedule_def or_zero_def)
next
  case Spike
  then obtain r d where r: "rate_per_second s = Some r" "0 < r" "duration_seconds s = Some d" "0 < d" "d \<le> 600"
    using steady_fields [OF assms] by (metis insertCI)
  obtain q p where q: "spike_rate_per_second s = Some q" "0 < q" "spike_seconds s = Some p" "0 < p" "p < d"
    using spike_fields [OF assms Spike] r(3) by (metis option.inject)
  note eq = schedule_Spike [OF assms Spike r(1,3) q(1,3)]
  let ?a = "(d - p) / 2"
  have a: "0 < ?a" "?a + p + ?a = d" using q by auto
  have l: "0 \<le> x \<and> x < ?a" if "x \<in> set (paced 0 r ?a)" for x
    using paced_bounds [OF r(2) that] by simp
  have m: "?a \<le> x \<and> x < ?a + p" if "x \<in> set (paced ?a q p)" for x
    using paced_bounds [OF q(2) that] by simp
  have h: "?a + p \<le> x \<and> x < d" if "x \<in> set (paced (?a + p) r ?a)" for x
    using paced_bounds [OF r(2) that] a by simp
  have "sorted (schedule s)"
    unfolding eq by (rule sorted_three [of _ _ _ ?a "?a + p"]) (use l m h q r sorted_paced in auto)
  moreover have "0 \<le> x \<and> x < 600" if "x \<in> set (schedule s)" for x
  proof -
    from that have "x \<in> set (paced 0 r ?a) \<or> x \<in> set (paced ?a q p) \<or> x \<in> set (paced (?a + p) r ?a)"
      unfolding eq set_append Un_iff .
    then consider "x \<in> set (paced 0 r ?a)" | "x \<in> set (paced ?a q p)" | "x \<in> set (paced (?a + p) r ?a)"
      by blast
    then show ?thesis
    proof cases
      case 1
      show ?thesis using l [OF 1] a q(4) r(5) by linarith
    next
      case 2
      show ?thesis using m [OF 2] a q(4) r(5) by linarith
    next
      case 3
      show ?thesis using h [OF 3] a q(4) r(5) by linarith
    qed
  qed
  ultimately show ?thesis by blast
qed (auto simp: schedule_def sorted_replicate)

subsection \<open>A token whose signature is wrong\<close>

definition tamper :: "string \<Rightarrow> string result" where
  "tamper token =
     (case rpartition CHR ''.'' token of (head, signature) \<Rightarrow>
        bindE (last_item signature) (\<lambda>c.
          Inr (head @ CHR ''.'' # butlast signature @ [if c \<noteq> CHR ''A'' then CHR ''A'' else CHR ''B''])))"

subsection \<open>Requests\<close>

record request_record =
  req_step :: nat
  req_sequence :: nat
  req_label :: string
  planned_offset :: real
  req_started_at :: real
  req_duration_ms :: real
  req_status :: int
  correlation_id :: string
  kong_request_id :: string
  req_trace_id :: string
  order_id :: string
  req_state :: string
  req_error :: string

fun template :: "order_template \<Rightarrow> pyval" where
  "template Normal = PDict NORMAL_ORDER"
| "template HighRisk = PDict [(''items'', order_items ''SKU-2001'' 6),
     (''paymentToken'', PStr ''tok_test_approved''), (''shippingZone'', PStr ''domestic'')]"
| "template Declined = PDict [(''items'', order_items ''SKU-1001'' 1),
     (''paymentToken'', PStr ''tok_test_declined''), (''shippingZone'', PStr ''domestic'')]"
| "template RestrictedZone = PDict [(''items'', order_items ''SKU-1001'' 1),
     (''paymentToken'', PStr ''tok_test_approved''), (''shippingZone'', PStr ''restricted'')]"
| "template OutOfStock = PDict [(''items'', order_items ''SKU-9000'' 1),
     (''paymentToken'', PStr ''tok_test_approved''), (''shippingZone'', PStr ''domestic'')]"
| "template Oversized = PDict (NORMAL_ORDER @ [(''padding'', PStr (replicate 32000 CHR ''x''))])"
| "template Malformed = PDict [(''items'', PStr ''not-a-list''), (''paymentToken'', PInt 42)]"

text \<open>\<open>_ORDER_ID.search\<close>: the leftmost \<open>/orders/\<close> that 36 hexadecimal digits or dashes follow.\<close>

definition order_id_char :: "char \<Rightarrow> bool" where
  "order_id_char c \<longleftrightarrow> is_digit c \<or> (CHR ''a'' \<le> c \<and> c \<le> CHR ''f'')
     \<or> (CHR ''A'' \<le> c \<and> c \<le> CHR ''F'') \<or> c = CHR ''-''"

fun order_id_search :: "string \<Rightarrow> string option" where
  "order_id_search s =
     (let t = take 36 (drop 8 s) in
      if prefix ''/orders/'' s \<and> length t = 36 \<and> (\<forall>c \<in> set t. order_id_char c) then Some t
      else (case s of [] \<Rightarrow> None | _ # s' \<Rightarrow> order_id_search s'))"

declare order_id_search.simps [simp del]

definition text_field :: "pyval \<Rightarrow> string \<Rightarrow> string" where
  "text_field body k = (case body of
     PDict d \<Rightarrow> py_str (case dict_get d k of None \<Rightarrow> PStr [] | Some v \<Rightarrow> v) | _ \<Rightarrow> [])"

definition order_reference :: "http_response \<Rightarrow> string \<times> string" where
  "order_reference response =
     (let body = (case resp_json response of None \<Rightarrow> PDict [] | Some b \<Rightarrow> b);
          direct = text_field body ''orderId'';
          oid = (if direct \<noteq> [] then direct
                 else (case order_id_search (header response ''location'') of None \<Rightarrow> [] | Some i \<Rightarrow> i))
      in (oid, text_field body ''state''))"

definition correlation_of :: "string \<Rightarrow> nat \<Rightarrow> nat \<Rightarrow> string" where
  "correlation_of run_id step_index sequence =
     run_id @ CHR ''-'' # show_nat step_index @ CHR ''-'' # pad_left 5 (show_nat sequence)"

definition canary :: "string \<Rightarrow> string" where
  "canary run_id = ''canary-'' @ run_id"

definition request_headers ::
  "(string \<Rightarrow> string result) \<Rightarrow> workload_step \<Rightarrow> nat \<Rightarrow> nat \<Rightarrow> string \<Rightarrow> string \<Rightarrow> (string, string) dict result" where
  "request_headers token s step_index sequence run_id scen_id =
     (let base = [(''X-Correlation-ID'', correlation_of run_id step_index sequence), (''X-Scenario-Id'', scen_id),
                  (''X-Scenario-Run-Id'', run_id), (''X-Api-Key'', canary run_id)]
      in bindE (case identity s of
            ScenarioRunner \<Rightarrow> bindE (token ''scenario-runner'') (\<lambda>t. Inr (dict_put ''Authorization'' (''Bearer '' @ t) base))
          | OrderReader \<Rightarrow> bindE (token ''order-reader'') (\<lambda>t. Inr (dict_put ''Authorization'' (''Bearer '' @ t) base))
          | Tampered \<Rightarrow> bindE (token ''scenario-runner'') (\<lambda>t. bindE (tamper t) (\<lambda>u.
              Inr (dict_put ''Authorization'' (''Bearer '' @ u) base)))
          | NoIdentity \<Rightarrow> Inr base)
        (\<lambda>h. Inr (if debug s then dict_put ''X-Debug-Trace'' ''true'' h else h)))"

text \<open>
  What the network did with a request: the \<open>HTTPError\<close> text or the response, and the instants (in
  seconds) at which \<open>post\<close> was called and returned.
\<close>

type_synonym network = "nat \<Rightarrow> nat \<Rightarrow> pyval \<Rightarrow> (string, string) dict \<Rightarrow> (string + http_response) \<times> real \<times> real"

definition send ::
  "network \<Rightarrow> (string \<Rightarrow> string result) \<Rightarrow> nat \<Rightarrow> workload_step \<Rightarrow> nat \<Rightarrow> real \<Rightarrow> string \<Rightarrow> string \<Rightarrow>
   request_record result" where
  "send net token step_index s sequence offset run_id scen_id =
     bindE (request_headers token s step_index sequence run_id scen_id) (\<lambda>headers.
       case net step_index sequence (template (order s)) headers of
         (Inl error, began, finished) \<Rightarrow>
           Inr \<lparr>req_step = step_index, req_sequence = sequence, req_label = label s, planned_offset = offset,
             req_started_at = began, req_duration_ms = (finished - began) * 1000, req_status = 0,
             correlation_id = correlation_of run_id step_index sequence, kong_request_id = [],
             req_trace_id = [], order_id = [], req_state = [], req_error = error\<rparr>
       | (Inr response, began, finished) \<Rightarrow>
           Inr \<lparr>req_step = step_index, req_sequence = sequence, req_label = label s, planned_offset = offset,
             req_started_at = began, req_duration_ms = (finished - began) * 1000, req_status = resp_status response,
             correlation_id = header response ''x-correlation-id'',
             kong_request_id = header response ''x-kong-request-id'',
             req_trace_id = trace_id_of response, order_id = fst (order_reference response),
             req_state = snd (order_reference response), req_error = []\<rparr>)"

text \<open>
  One step after the other; the requests of a step are gathered in the order of the schedule. When
  the token provider raises for several requests of a step, the exception of the first one is kept.
\<close>

definition run_steps ::
  "network \<Rightarrow> (string \<Rightarrow> string result) \<Rightarrow> workload_step list \<Rightarrow> string \<Rightarrow> string \<Rightarrow> request_record list result" where
  "run_steps net token wsteps run_id scen_id =
     bindE (mapE (\<lambda>(index, s).
         mapE (\<lambda>(sequence, offset). send net token index s sequence offset run_id scen_id)
           (enumerate 0 (schedule s))) (enumerate 0 wsteps))
       (\<lambda>records. Inr (concat records))"

subsection \<open>The schedule of an accepted step\<close>



subsection \<open>Tampering\<close>

lemma tamper_append:
  assumes "CHR ''.'' \<notin> set sig"
  shows "tamper (h @ CHR ''.'' # sig @ [c]) =
    (if c = CHR ''.'' then Inl IndexError
     else Inr (h @ CHR ''.'' # sig @ [if c \<noteq> CHR ''A'' then CHR ''A'' else CHR ''B'']))"
proof (cases "c = CHR ''.''")
  case True
  have "rpartition CHR ''.'' ((h @ CHR ''.'' # sig) @ CHR ''.'' # []) = (h @ CHR ''.'' # sig, [])"
    by (rule rpartition_append) simp
  with True show ?thesis by (simp add: tamper_def)
next
  case False
  then have "rpartition CHR ''.'' (h @ CHR ''.'' # (sig @ [c])) = (h, sig @ [c])"
    using assms by (intro rpartition_append) simp
  with False show ?thesis by (simp add: tamper_def)
qed

text \<open>
  Tampering changes the text of every token: it keeps everything up to the last character
  of the signature and replaces that character by another one.
\<close>

theorem tamper_changes_token:
  assumes "token = h @ CHR ''.'' # sig @ [c]" and "CHR ''.'' \<notin> set (sig @ [c])"
  shows "\<exists>d. tamper token = Inr (h @ CHR ''.'' # sig @ [d]) \<and> d \<noteq> c"
  using assms by (auto simp: tamper_append)

theorem tamper_changes_token_witness:
  "\<exists>d. tamper ''h.p.xyA'' = Inr (''h.p'' @ CHR ''.'' # ''xy'' @ [d]) \<and> d \<noteq> CHR ''A''"
  by (rule tamper_changes_token) simp_all

text \<open>
  Changed text is not always a changed signature: when the signature encodes a whole
  number of bytes plus one (as the 256 bytes of RS256 do) and its last character is \<open>A\<close>, the token
  after \<open>tamper\<close> decodes to the same signature bytes, because the replacement \<open>B\<close> differs only in bits
  the encoding does not use.
\<close>

theorem tamper_keeps_signature:
  assumes "token = h @ CHR ''.'' # sig @ ''A''" and "CHR ''.'' \<notin> set sig"
    and "b64_text sig" and "length sig mod 4 = 1"
  shows "\<exists>sig'. tamper token = Inr (h @ CHR ''.'' # sig') \<and>
    b64decode (sig' @ ''=='') = b64decode (sig @ ''A=='')"
proof -
  have "a2b_loop 0 0 0 (sig @ CHR ''B'' # ''=='') = a2b_loop 0 0 0 (sig @ CHR ''A'' # ''=='')"
    by (rule a2b_loop_last_bits [where v = 1 and w = 0])
      (use assms(3,4) in \<open>simp_all add: b64_value_def\<close>)
  moreover have "tamper token = Inr (h @ CHR ''.'' # sig @ ''B'')"
    using assms(1,2) by (simp add: tamper_append)
  ultimately show ?thesis
    by (intro exI [of _ "sig @ ''B''"]) (auto simp: b64decode_def)
qed

theorem tamper_keeps_signature_witness:
  "\<exists>sig'. tamper ''h.p.AQQQQA'' = Inr (''h.p'' @ CHR ''.'' # sig') \<and>
    b64decode (sig' @ ''=='') = b64decode ''AQQQQA==''"
proof -
  have "b64_text ''AQQQQ''" by (simp add: b64_text_def b64_value_def)
  then have "\<exists>sig'. tamper (''h.p'' @ CHR ''.'' # ''AQQQQ'' @ ''A'') = Inr (''h.p'' @ CHR ''.'' # sig') \<and>
      b64decode (sig' @ ''=='') = b64decode (''AQQQQ'' @ ''A=='')"
    by (intro tamper_keeps_signature) simp_all
  then show ?thesis by simp
qed

subsection \<open>Requests of a run\<close>

lemma dash_not_in_show_nat: "CHR ''-'' \<notin> set (show_nat n)"
  by (rule not_digit_not_in_show_nat) (simp add: is_digit_def less_eq_char_def)

text \<open>
  No two requests of a run send the same correlation id: the id determines the step and
  the sequence number, also for sequence numbers of more than five digits.
\<close>

theorem correlation_of_inj:
  "correlation_of run_id i m = correlation_of run_id j n \<longleftrightarrow> i = j \<and> m = n"
proof
  assume "correlation_of run_id i m = correlation_of run_id j n"
  then have "show_nat i @ CHR ''-'' # pad_left 5 (show_nat m) = show_nat j @ CHR ''-'' # pad_left 5 (show_nat n)"
    by (simp add: correlation_of_def)
  from arg_cong [OF this, of "split_on CHR ''-''"] have "show_nat i = show_nat j"
    by (simp add: split_on_append dash_not_in_show_nat)
  moreover from this have "pad_left 5 (show_nat m) = pad_left 5 (show_nat n)"
    using \<open>show_nat i @ _ = _\<close> by simp
  ultimately show "i = j \<and> m = n"
    by (metis digits_value_pad digits_value_show_nat of_nat_eq_iff option.inject)
qed simp

lemma send_fields:
  "send net token i s n x run_id scen_id = Inr r \<Longrightarrow>
   req_step r = i \<and> req_sequence r = n \<and> planned_offset r = x \<and> req_label r = label s"
proof -
  assume sent: "send net token i s n x run_id scen_id = Inr r"
  then obtain h where h: "request_headers token s i n run_id scen_id = Inr h"
    by (auto simp: send_def bindE_Inr_iff)
  obtain out began finished where "net i n (template (order s)) h = (out, began, finished)"
    by (metis prod_cases3)
  with sent h show ?thesis by (cases out) (auto simp: send_def)
qed

lemma send_all_fields:
  assumes "mapE (\<lambda>(n, x). send net token i s n x run_id scen_id) (enumerate k xs) = Inr rs"
  shows "map (\<lambda>r. (req_step r, req_sequence r, planned_offset r)) rs = map (\<lambda>(n, x). (i, n, x)) (enumerate k xs)"
  using assms by (induction xs arbitrary: k rs) (auto simp: bindE_Inr_iff dest: send_fields)

text \<open>
  A run that returns has a record for every planned request and for nothing else, step
  after step, in the order of the schedule and with the planned offset, whatever the network did.
\<close>

theorem run_steps_records:
  assumes "run_steps net token wsteps run_id scen_id = Inr rs"
  shows "map (\<lambda>r. (req_step r, req_sequence r, planned_offset r)) rs =
    concat (map (\<lambda>(i, s). map (\<lambda>(n, x). (i, n, x)) (enumerate 0 (schedule s))) (enumerate 0 wsteps))"
proof -
  have "mapE (\<lambda>(i, s). mapE (\<lambda>(n, x). send net token i s n x run_id scen_id) (enumerate 0 (schedule s)))
          (enumerate k ws) = Inr rss \<Longrightarrow>
        map (\<lambda>r. (req_step r, req_sequence r, planned_offset r)) (concat rss) =
        concat (map (\<lambda>(i, s). map (\<lambda>(n, x). (i, n, x)) (enumerate 0 (schedule s))) (enumerate k ws))" for k ws rss
    by (induction ws arbitrary: k rss) (auto simp: bindE_Inr_iff dest!: send_all_fields)
  then show ?thesis using assms by (auto simp: run_steps_def bindE_Inr_iff)
qed

theorem run_steps_records_witness:
  "\<exists>rs. run_steps (\<lambda>_ _ _ _. (Inl ''ReadTimeout: '', 0, 30)) (\<lambda>_. Inr ''a.b.c'')
     [\<lparr>profile_of = Burst, requests = 2, concurrency = 10, rate_per_second = None, duration_seconds = None,
       spike_rate_per_second = None, spike_seconds = None, order = Normal, identity = Tampered,
       debug = True, delay_seconds = 0, label = []\<rparr>] ''r'' ''s'' = Inr rs \<and>
   map (\<lambda>r. (req_step r, req_sequence r, planned_offset r)) rs = [(0, 0, 0), (0, 1, 0)]"
    (is "\<exists>rs. run_steps ?net ?tok [?s] _ _ = _ \<and> _")
proof -
  have "\<exists>rs. run_steps ?net ?tok [?s] ''r'' ''s'' = Inr rs"
    by (simp add: run_steps_def send_def request_headers_def schedule_def tamper_def rpartition_def
      last_item_def numeral_2_eq_2)
  then obtain rs where rs: "run_steps ?net ?tok [?s] ''r'' ''s'' = Inr rs" ..
  from run_steps_records [OF rs] rs show ?thesis
    by (intro exI [of _ rs]) (simp add: schedule_def numeral_2_eq_2)
qed

end
