(* ===== verification/Tracechecks.thy ===== *)
theory Tracechecks
  imports Traces Workload
begin

section \<open>Trace checks (scenarios/tracechecks.py)\<close>

text \<open>
  The pure checks that decide whether a trace describes what happened. A reported problem is a value
  of \<open>problem\<close>, one constructor per message of the source with the values the message shows; the
  wording itself is not modelled. A check that can raise returns a \<open>result\<close>. What the checks promise
  is in the theory \<open>TraceLaws\<close>.
\<close>

subsection \<open>Vocabulary\<close>

definition EDGE_SERVICE :: string where "EDGE_SERVICE = ''kong-gateway''"
definition ORDER_SERVICE :: string where "ORDER_SERVICE = ''order-service''"

definition DOWNSTREAM :: "string list" where
  "DOWNSTREAM = [''inventory-service'', ''fraud-service'', ''payment-service'', ''shipping-service'']"

definition ALLOWED_EDGES :: "(string \<times> string) set" where
  "ALLOWED_EDGES = insert (EDGE_SERVICE, ORDER_SERVICE) ((\<lambda>svc. (ORDER_SERVICE, svc)) ` set DOWNSTREAM)"

definition DOTNET_SERVICES :: "string list" where
  "DOTNET_SERVICES = ORDER_SERVICE # DOWNSTREAM"

definition K8S_KEYS :: "string list" where
  "K8S_KEYS = [''k8s.namespace.name'', ''k8s.pod.name'', ''k8s.node.name'', ''k8s.deployment.name'']"

text \<open>
  The alternatives of \<open>SENSITIVE_KEY_PATTERN\<close>, with the optional separators of \<open>api[._-]?key\<close> and
  \<open>card[._-]?number\<close> written out. The pattern ignores case.
\<close>

definition sensitive_words :: "string list" where
  "sensitive_words =
     [''authorization'', ''cookie'', ''password'', ''passwd'', ''secret'', ''token'',
      ''apikey'', ''api.key'', ''api_key'', ''api-key'',
      ''cardnumber'', ''card.number'', ''card_number'', ''card-number'']"

definition sensitive_key :: "string \<Rightarrow> bool" where
  "sensitive_key key \<longleftrightarrow> (\<exists>w \<in> set sensitive_words. sublist w (lower key))"

definition STAGES :: "string list" where
  "STAGES = [''inventory.reserve'', ''fraud.evaluate'', ''payment.authorize'', ''shipping.create'']"

definition COMPENSATION_STAGES :: "string list" where
  "COMPENSATION_STAGES = [''compensation.payment.void'', ''compensation.inventory.release'']"

datatype problem =
    MissingParents "string list"
  | RootCount nat
  | RootService string
  | MissingServices "string list"
  | ForbiddenServices "string list"
  | UnexpectedEdges "(string \<times> string) list"
  | StageMissing string
  | StageForbidden string
  | FanOutNotOnce
  | FanOutNoOverlap
  | PaymentTooEarly
  | ShippingTooEarly
  | CompensationTooEarly string
  | TransactionMissing
  | StatePath "pyval list" "string list"
  | FinalState pyval string
  | NotMarkedError
  | MarkedError
  | AttemptNumbers string "pyval list" int
  | RetryEvents nat string int
  | RetryCount pyval int
  | ReplayAttempts nat
  | RecordedTimes nat
  | NotAReplay
  | DominanceMissing string
  | ShareTooSmall string real real
  | LongestStep string string
  | TraceTooShort real real
  | LacksMetadata string string "string list"
  | KongLacksNamespace
  | OrderServerMissing
  | AttributeIs string pyval string
  | DownstreamRunIds "pyval list" string
  | SensitiveAttribute string string string
  | CanaryFound string
  | TraceNotStored
  | ContractProblem string "pyval list"

type_synonym check = "problem list result"

definition require :: "bool \<Rightarrow> problem \<Rightarrow> problem list" where
  "require ok p = (if ok then [] else [p])"

lemma require_Nil [simp]: "require ok p = [] \<longleftrightarrow> ok"
  by (simp add: require_def)

definition single :: "trace \<Rightarrow> string \<Rightarrow> span option" where
  "single t nm = (case named t nm of [s] \<Rightarrow> Some s | _ \<Rightarrow> None)"

definition transaction :: "trace \<Rightarrow> span option" where
  "transaction t = single t ''order.transaction''"

lemma single_iff: "single t nm = Some s \<longleftrightarrow> named t nm = [s]"
  by (auto simp: single_def split: list.splits)

lemma single_None_iff: "single t nm = None \<longleftrightarrow> (\<forall>s. named t nm \<noteq> [s])"
  by (auto simp: single_def split: list.splits)

subsection \<open>Integrity\<close>

definition gateway_span_gaps :: "trace \<Rightarrow> span list result" where
  "gateway_span_gaps t =
     (let balancers = filter (\<lambda>s. span_name s = ''kong.balancer'') (by_service t EDGE_SERVICE (Some ''CLIENT''));
          kong_roots = filter is_root (by_service t EDGE_SERVICE (Some ''SERVER''))
      in case (balancers, kong_roots) of
           ([balancer], [kong_root]) \<Rightarrow>
             bindE (if span_status balancer = ''ERROR''
                    then (let v = attr (span_attrs balancer) ''http.response.status_code''
                          in bindE (py_int (if truthy v then v else PInt 0)) (\<lambda>code. Inr (500 \<le> code)))
                    else Inr False)
               (\<lambda>failed_upstream. Inr
                 (if \<not> failed_upstream then []
                  else filter (\<lambda>s. parent_span_id s \<notin> known_ids t \<and>
                         py_eq (attr (span_attrs s) ''kong.request.id'') (attr (span_attrs kong_root) ''kong.request.id'') \<and>
                         start_unix_nano kong_root \<le> start_unix_nano s)
                       (by_service t ORDER_SERVICE (Some ''SERVER''))))
         | _ \<Rightarrow> Inr [])"

definition integrity :: "trace \<Rightarrow> check" where
  "integrity t =
     bindE (gateway_span_gaps t) (\<lambda>gaps.
       let explained = span_id ` set gaps;
           orphans = filter (\<lambda>s. parent_span_id s \<noteq> [] \<and> parent_span_id s \<notin> known_ids t
             \<and> span_id s \<notin> explained) (spans t);
           rs = filter (\<lambda>s. parent_span_id s = []) (spans t)
       in Inr ((if orphans \<noteq> [] then [MissingParents (map span_name orphans)] else []) @
               (case rs of
                  [r] \<Rightarrow> if service r \<noteq> EDGE_SERVICE then [RootService (service r)] else []
                | _ \<Rightarrow> [RootCount (length rs)])))"

subsection \<open>Topology and stages\<close>

definition service_edges :: "trace \<Rightarrow> (string \<times> string) list" where
  "service_edges t = concat (map (\<lambda>s.
     case parent_of t s of
       None \<Rightarrow> []
     | Some p \<Rightarrow> if service p \<noteq> service s then [(service p, service s)] else []) (spans t))"

definition services_of :: "trace \<Rightarrow> string list" where
  "services_of t = map service (spans t)"

definition topology :: "trace \<Rightarrow> string list \<Rightarrow> string list \<Rightarrow> problem list" where
  "topology t required forbidden =
     (let missing = filter (\<lambda>x. x \<notin> services t) required;
          present = filter (\<lambda>x. x \<in> services t) forbidden;
          unexpected = filter (\<lambda>e. e \<notin> ALLOWED_EDGES) (service_edges t)
      in (if missing \<noteq> [] then [MissingServices (sorted_set missing)] else [])
       @ (if present \<noteq> [] then [ForbiddenServices (sorted_set present)] else [])
       @ (if unexpected \<noteq> [] then [UnexpectedEdges (sorted_set unexpected)] else []))"

definition stages_present :: "trace \<Rightarrow> string list \<Rightarrow> string list \<Rightarrow> problem list" where
  "stages_present t required forbidden =
     map StageMissing (filter (\<lambda>nm. named t nm = []) required)
     @ map StageForbidden (filter (\<lambda>nm. named t nm \<noteq> []) forbidden)"

definition stage_order :: "trace \<Rightarrow> problem list" where
  "stage_order t =
     (case (single t ''inventory.reserve'', single t ''fraud.evaluate'') of
        (Some inventory, Some fraud) \<Rightarrow>
          (let payment = single t ''payment.authorize'';
               shipping = single t ''shipping.create'';
               fan_out_end = max (end_unix_nano inventory) (end_unix_nano fraud);
               last_business_end = max_default 0
                 (concat (map (\<lambda>nm. map end_unix_nano (named t nm)) STAGES))
           in require (overlaps inventory fraud) FanOutNoOverlap
            @ (case payment of None \<Rightarrow> []
               | Some p \<Rightarrow> if start_unix_nano p < fan_out_end then [PaymentTooEarly] else [])
            @ (case (shipping, payment) of
                 (Some sh, Some p) \<Rightarrow> if start_unix_nano sh < end_unix_nano p then [ShippingTooEarly] else []
               | _ \<Rightarrow> [])
            @ concat (map (\<lambda>nm. concat (map (\<lambda>s.
                 if start_unix_nano s < last_business_end then [CompensationTooEarly nm] else [])
                 (named t nm))) COMPENSATION_STAGES))
      | _ \<Rightarrow> [FanOutNotOnce])"

subsection \<open>The transaction span\<close>

definition state_events :: "span \<Rightarrow> pyval list" where
  "state_events tx = map (\<lambda>e. attr (event_attrs e) ''order.state.to'')
     (filter (\<lambda>e. event_name e = ''order.state_changed'') (span_events tx))"

definition state_path :: "trace \<Rightarrow> string list \<Rightarrow> check" where
  "state_path t expected_path =
     (case transaction t of
        None \<Rightarrow> Inr [TransactionMissing]
      | Some tx \<Rightarrow>
          bindE (last_item expected_path) (\<lambda>final. Inr
            (require (py_eqs (state_events tx) (map PStr expected_path)) (StatePath (state_events tx) expected_path)
             @ require (py_eq (attr (span_attrs tx) ''order.state'') (PStr final))
                 (FinalState (attr (span_attrs tx) ''order.state'') final))))"

definition error_marking :: "trace \<Rightarrow> bool \<Rightarrow> problem list" where
  "error_marking t technical_failure =
     (case transaction t of
        None \<Rightarrow> [TransactionMissing]
      | Some tx \<Rightarrow>
          if technical_failure \<and> span_status tx \<noteq> ''ERROR'' then [NotMarkedError]
          else if \<not> technical_failure \<and> span_status tx = ''ERROR'' then [MarkedError]
          else [])"

subsection \<open>Retries and replays\<close>

definition attempts :: "trace \<Rightarrow> string \<Rightarrow> span list" where
  "attempts t stage_name =
     (case single t stage_name of
        None \<Rightarrow> []
      | Some stage \<Rightarrow> sort_key start_unix_nano (filter (\<lambda>c. span_kind c = ''CLIENT'') (children_of t stage)))"

definition retries :: "trace \<Rightarrow> string \<Rightarrow> int \<Rightarrow> problem list" where
  "retries t stage_name expected_attempts =
     (case single t stage_name of
        None \<Rightarrow> [StageMissing stage_name]
      | Some stage \<Rightarrow>
          (let numbers = map (\<lambda>s. attr (span_attrs s) ''retry.attempt'') (attempts t stage_name);
               retry_events = filter (\<lambda>e. event_name e = ''retry'') (span_events stage);
               retry_count = attr (span_attrs stage) ''retry.count''
           in require (py_eqs numbers (map PInt [1..expected_attempts]))
                (AttemptNumbers stage_name numbers expected_attempts)
            @ require (int (length retry_events) = expected_attempts - 1)
                (RetryEvents (length retry_events) stage_name (expected_attempts - 1))
            @ (if expected_attempts > 1 \<and> \<not> py_eq retry_count (PInt (expected_attempts - 1))
               then [RetryCount retry_count (expected_attempts - 1)] else [])))"

definition authorization_servers :: "trace \<Rightarrow> span list" where
  "authorization_servers t = sort_key start_unix_nano
     (filter (\<lambda>s. sublist ''authorizations'' (span_name s)) (by_service t ''payment-service'' (Some ''SERVER'')))"

definition idempotent_replay :: "trace \<Rightarrow> problem list" where
  "idempotent_replay t =
     (let servers = authorization_servers t in
      if length servers < 2 then [ReplayAttempts (length servers)]
      else (let recorded = length (filter (\<lambda>e. event_name e = ''payment.authorization_recorded'')
                             (concat (map span_events servers)))
            in require (recorded = 1) (RecordedTimes recorded)
             @ require (attr (span_attrs (last servers)) ''payment.idempotent_replay'' = PBool True) NotAReplay))"

subsection \<open>Latency\<close>

definition latency_dominance :: "trace \<Rightarrow> string \<Rightarrow> real \<Rightarrow> real \<Rightarrow> check" where
  "latency_dominance t stage_name min_share min_trace_ms =
     (case (transaction t, single t stage_name) of
        (Some tx, Some stage) \<Rightarrow>
          (let share = (if duration_ms tx \<noteq> 0 then duration_ms stage / duration_ms tx else 0);
               rs = filter (\<lambda>s. parent_span_id s = []) (spans t)
           in bindE (max_by duration_ms (children_of t tx)) (\<lambda>longest. Inr
               ((if share < min_share then [ShareTooSmall stage_name share min_share] else [])
                @ require (span_id longest = span_id stage) (LongestStep (span_name longest) stage_name)
                @ (case rs of [] \<Rightarrow> []
                   | r # _ \<Rightarrow> if duration_ms r < min_trace_ms then [TraceTooShort (duration_ms r) min_trace_ms] else []))))
      | _ \<Rightarrow> Inr [DominanceMissing stage_name])"

subsection \<open>Metadata, correlation and secrets\<close>

definition span_metadata :: "span \<Rightarrow> problem list" where
  "span_metadata s =
     (if service s \<in> set DOTNET_SERVICES
      then (let missing = filter (\<lambda>key. \<not> truthy (attr (span_resource s) key)) K8S_KEYS
            in if missing \<noteq> [] then [LacksMetadata (service s) (span_name s) missing] else [])
      else if service s = EDGE_SERVICE \<and> \<not> truthy (attr (span_resource s) ''k8s.namespace.name'')
      then [KongLacksNamespace] else [])"

definition kubernetes_metadata :: "trace \<Rightarrow> problem list" where
  "kubernetes_metadata t = take 5 (concat (map span_metadata (spans t)))"

text \<open>Values that a Python set accepts.\<close>

fun hashable :: "pyval \<Rightarrow> bool" where
  "hashable (PList _) = False"
| "hashable (PDict _) = False"
| "hashable _ = True"

definition correlation :: "trace \<Rightarrow> request_record \<Rightarrow> string \<Rightarrow> check" where
  "correlation t request run_id =
     (case by_service t ORDER_SERVICE (Some ''SERVER'') of
        [] \<Rightarrow> Inr [OrderServerMissing]
      | server # _ \<Rightarrow>
          (let expected = [(''correlation.id'', correlation_id request), (''scenario.run_id'', run_id),
                 (''kong.request.id'', kong_request_id request)];
               wrong = (\<lambda>a (key, v). if v \<noteq> [] \<and> \<not> py_eq (attr a key) (PStr v) then [AttributeIs key (attr a key) v] else []);
               downstream = map (\<lambda>s. attr (span_attrs s) ''scenario.run_id'')
                 (filter (\<lambda>s. service s \<in> set DOWNSTREAM \<and> span_kind s = ''SERVER'') (spans t))
           in bindE (if \<forall>v \<in> set downstream. hashable v then Inr () else Inl TypeError) (\<lambda>_. Inr
                (concat (map (wrong (span_attrs server)) expected)
                 @ (case transaction t of None \<Rightarrow> []
                    | Some tx \<Rightarrow> wrong (span_attrs tx) (''order.id'', order_id request))
                 @ (if \<exists>v \<in> set downstream. \<not> py_eq v (PStr run_id) then [DownstreamRunIds downstream run_id] else [])))))"

definition trace_dump :: "trace \<Rightarrow> string" where
  "trace_dump t = json_dumps (PList (map (\<lambda>s. PList
     [PDict (span_attrs s), PList (map (\<lambda>e. PDict (event_attrs e)) (span_events s)), PDict (span_resource s)]) (spans t)))"

definition sensitive_data :: "trace \<Rightarrow> string list \<Rightarrow> problem list" where
  "sensitive_data t canaries =
     concat (map (\<lambda>s. concat (map (\<lambda>key.
       if sensitive_key key then [SensitiveAttribute (service s) (span_name s) key] else [])
       (dict_keys (span_attrs s)))) (spans t))
     @ map (\<lambda>c. CanaryFound (take 12 c)) (filter (\<lambda>c. c \<noteq> [] \<and> sublist c (trace_dump t)) canaries)"

end
