(* ===== verification/TraceLaws.thy ===== *)
theory TraceLaws
  imports Tracechecks
begin

section \<open>What the trace checks promise\<close>

text \<open>
  The contract between a check and the code that runs it: the check reports nothing exactly when its
  property holds. What the callers need follows from it for any number of inputs.
\<close>

locale sound_check =
  fixes chk :: "'a \<Rightarrow> problem list result" and holds :: "'a \<Rightarrow> bool"
  assumes report_iff: "chk x = Inr [] \<longleftrightarrow> holds x"
begin

lemma reported: "chk x = Inr ps \<Longrightarrow> ps \<noteq> [] \<longleftrightarrow> \<not> holds x"
  using report_iff [of x] by auto

lemma all_clear: "bindE (mapE chk xs) (\<lambda>pss. Inr (concat pss)) = Inr [] \<longleftrightarrow> (\<forall>x \<in> set xs. holds x)"
proof (induction xs)
  case (Cons x xs)
  show ?case
    using Cons.IH report_iff [of x] by (cases "chk x") (auto simp: bindE_Inr_iff)
qed simp

end

lemma concat_map_Nil_iff: "concat (map f xs) = [] \<longleftrightarrow> (\<forall>x \<in> set xs. f x = [])"
  by simp

lemma if_single_Nil_iff: "(if b then [x] else []) = [] \<longleftrightarrow> \<not> b"
  by simp

declare py_eq.simps [simp del]

subsection \<open>Integrity\<close>

definition explained_ids :: "trace \<Rightarrow> string set" where
  "explained_ids t = (case gateway_span_gaps t of Inl _ \<Rightarrow> {} | Inr gaps \<Rightarrow> span_id ` set gaps)"

definition intact :: "trace \<Rightarrow> bool" where
  "intact t \<longleftrightarrow> (\<exists>gaps. gateway_span_gaps t = Inr gaps) \<and>
     (\<forall>s \<in> set (spans t). parent_span_id s = [] \<or> parent_span_id s \<in> known_ids t \<or> span_id s \<in> explained_ids t) \<and>
     (\<exists>r. filter (\<lambda>s. parent_span_id s = []) (spans t) = [r] \<and> service r = EDGE_SERVICE)"

lemma integrity_iff [check_iff]: "integrity t = Inr [] \<longleftrightarrow> intact t"
proof -
  have roots: "(case rs of [r] \<Rightarrow> if service r \<noteq> EDGE_SERVICE then [RootService (service r)] else []
      | _ \<Rightarrow> [RootCount (length rs)]) = [] \<longleftrightarrow> (\<exists>r. rs = [r] \<and> service r = EDGE_SERVICE)" for rs
    by (cases rs) (auto split: list.splits)
  show ?thesis
  proof (cases "gateway_span_gaps t")
    case (Inr gaps)
    have orphans: "filter (\<lambda>s. parent_span_id s \<noteq> [] \<and> parent_span_id s \<notin> known_ids t \<and> span_id s \<notin> span_id ` set gaps) (spans t) = []
      \<longleftrightarrow> (\<forall>s \<in> set (spans t). parent_span_id s = [] \<or> parent_span_id s \<in> known_ids t \<or> span_id s \<in> explained_ids t)"
      by (auto simp: filter_empty_conv explained_ids_def Inr)
    show ?thesis
      unfolding integrity_def intact_def Inr bindE_simps Let_def sum.inject append_is_Nil_conv roots orphans [symmetric]
      by simp
  qed (simp add: integrity_def intact_def)
qed

text \<open>A child span and its parent span.\<close>

definition parent_edge :: "trace \<Rightarrow> (span \<times> span) set" where
  "parent_edge t = {(s, p). s \<in> set (spans t) \<and> p \<in> set (spans t) \<and> parent_span_id s \<noteq> [] \<and> span_id p = parent_span_id s}"

lemma finite_parent_edge: "finite (parent_edge t)"
  by (rule finite_subset [of _ "set (spans t) \<times> set (spans t)"]) (auto simp: parent_edge_def)


subsection \<open>Topology\<close>

definition topology_ok :: "trace \<Rightarrow> string list \<Rightarrow> string list \<Rightarrow> bool" where
  "topology_ok t required forbidden \<longleftrightarrow>
     set required \<subseteq> services t \<and> set forbidden \<inter> services t = {} \<and>
     (\<forall>s \<in> set (spans t). \<forall>p. parent_of t s = Some p \<longrightarrow> service p \<noteq> service s \<longrightarrow>
        (service p, service s) \<in> ALLOWED_EDGES)"

lemma service_edges_iff: "(a, b) \<in> set (service_edges t) \<longleftrightarrow>
  (\<exists>s \<in> set (spans t). \<exists>p. parent_of t s = Some p \<and> service p \<noteq> service s \<and> a = service p \<and> b = service s)"
  by (auto simp: service_edges_def split: option.splits if_splits; metis)

lemma topology_iff [check_iff]: "topology t required forbidden = [] \<longleftrightarrow> topology_ok t required forbidden"
proof -
  have "(\<forall>e \<in> set (service_edges t). e \<in> ALLOWED_EDGES) \<longleftrightarrow>
      (\<forall>s \<in> set (spans t). \<forall>p. parent_of t s = Some p \<longrightarrow> service p \<noteq> service s \<longrightarrow>
        (service p, service s) \<in> ALLOWED_EDGES)"
    by (force simp: service_edges_iff)
  then show ?thesis
    by (auto simp: topology_def topology_ok_def filter_empty_conv Let_def)
qed

text \<open>
  A trace has no topology problem exactly if every required service appears in it, no
  forbidden one does, and every call from one service to another goes from Kong to OrderService or
  from OrderService to one of the four downstream services.
\<close>

theorem topology_reports_nothing_iff:
  "topology t required forbidden = [] \<longleftrightarrow>
     (\<forall>svc \<in> set required. \<exists>s \<in> set (spans t). service s = svc) \<and>
     (\<forall>s \<in> set (spans t). service s \<notin> set forbidden) \<and>
     (\<forall>s \<in> set (spans t). \<forall>p. parent_of t s = Some p \<longrightarrow> service p \<noteq> service s \<longrightarrow>
        service p = ''kong-gateway'' \<and> service s = ''order-service'' \<or>
        service p = ''order-service'' \<and> service s \<in> {''inventory-service'', ''fraud-service'', ''payment-service'', ''shipping-service''})"
proof -
  have "(a, b) \<in> ALLOWED_EDGES \<longleftrightarrow> a = ''kong-gateway'' \<and> b = ''order-service'' \<or>
      a = ''order-service'' \<and> b \<in> {''inventory-service'', ''fraud-service'', ''payment-service'', ''shipping-service''}" for a b
    by (auto simp: ALLOWED_EDGES_def EDGE_SERVICE_def ORDER_SERVICE_def DOWNSTREAM_def)
  moreover have "set required \<subseteq> services t \<longleftrightarrow> (\<forall>svc \<in> set required. \<exists>s \<in> set (spans t). service s = svc)"
    by (auto simp: services_def)
  moreover have "set forbidden \<inter> services t = {} \<longleftrightarrow> (\<forall>s \<in> set (spans t). service s \<notin> set forbidden)"
    by (auto simp: services_def)
  ultimately show ?thesis
    by (simp only: topology_iff topology_ok_def)
qed

theorem topology_reports_nothing_witness:
  "topology \<lparr>trace_id = ''t'', spans = []\<rparr> [] [''shipping-service''] = []"
  by (subst topology_reports_nothing_iff) simp

subsection \<open>Stages\<close>

lemma stages_present_iff [check_iff]:
  "stages_present t required forbidden = [] \<longleftrightarrow>
     (\<forall>nm \<in> set required. named t nm \<noteq> []) \<and> (\<forall>nm \<in> set forbidden. named t nm = [])"
  by (auto simp: stages_present_def filter_empty_conv)

definition ordered_stages :: "trace \<Rightarrow> bool" where
  "ordered_stages t \<longleftrightarrow> (\<exists>i f. named t ''inventory.reserve'' = [i] \<and> named t ''fraud.evaluate'' = [f] \<and>
     overlaps i f \<and>
     (\<forall>p. named t ''payment.authorize'' = [p] \<longrightarrow>
        end_unix_nano i \<le> start_unix_nano p \<and> end_unix_nano f \<le> start_unix_nano p) \<and>
     (\<forall>p q. named t ''payment.authorize'' = [p] \<longrightarrow> named t ''shipping.create'' = [q] \<longrightarrow>
        end_unix_nano p \<le> start_unix_nano q) \<and>
     (\<forall>nm \<in> set COMPENSATION_STAGES. \<forall>c \<in> set (named t nm). \<forall>st \<in> set STAGES. \<forall>b \<in> set (named t st).
        end_unix_nano b \<le> start_unix_nano c))"

lemma last_end_iff:
  assumes "named t ''inventory.reserve'' \<noteq> []"
  shows "max_default 0 (concat (map (\<lambda>nm. map end_unix_nano (named t nm)) STAGES)) \<le> x \<longleftrightarrow>
    (\<forall>st \<in> set STAGES. \<forall>b \<in> set (named t st). end_unix_nano b \<le> x)"
proof -
  have "concat (map (\<lambda>nm. map end_unix_nano (named t nm)) STAGES) \<noteq> []"
    using assms by (simp add: STAGES_def)
  from max_default_le_iff [OF this] show ?thesis by auto
qed

lemma stage_order_iff [check_iff]: "stage_order t = [] \<longleftrightarrow> ordered_stages t"
proof (cases "\<exists>i f. named t ''inventory.reserve'' = [i] \<and> named t ''fraud.evaluate'' = [f]")
  case False
  then show ?thesis
    by (auto simp: stage_order_def ordered_stages_def single_iff split: option.splits)
next
  case True
  then obtain i f where i: "named t ''inventory.reserve'' = [i]" and f: "named t ''fraud.evaluate'' = [f]" by blast
  let ?b = "max_default 0 (concat (map (\<lambda>nm. map end_unix_nano (named t nm)) STAGES))"
  have comp: "concat (map (\<lambda>nm. concat (map (\<lambda>s. if start_unix_nano s < ?b then [CompensationTooEarly nm] else [])
      (named t nm))) COMPENSATION_STAGES) = [] \<longleftrightarrow>
    (\<forall>nm \<in> set COMPENSATION_STAGES. \<forall>c \<in> set (named t nm). \<forall>st \<in> set STAGES. \<forall>b \<in> set (named t st).
        end_unix_nano b \<le> start_unix_nano c)"
    unfolding concat_map_Nil_iff if_single_Nil_iff not_less using last_end_iff [of t] i by simp
  have pay: "(case single t ''payment.authorize'' of None \<Rightarrow> []
      | Some p \<Rightarrow> if start_unix_nano p < max (end_unix_nano i) (end_unix_nano f) then [PaymentTooEarly] else []) = []
    \<longleftrightarrow> (\<forall>p. named t ''payment.authorize'' = [p] \<longrightarrow>
        end_unix_nano i \<le> start_unix_nano p \<and> end_unix_nano f \<le> start_unix_nano p)"
    by (auto simp: single_iff single_None_iff split: option.splits)
  have ship: "(case single t ''shipping.create'' of None \<Rightarrow> [] | Some sh \<Rightarrow>
      (case single t ''payment.authorize'' of None \<Rightarrow> []
       | Some p \<Rightarrow> if start_unix_nano sh < end_unix_nano p then [ShippingTooEarly] else [])) = []
    \<longleftrightarrow> (\<forall>p q. named t ''payment.authorize'' = [p] \<longrightarrow> named t ''shipping.create'' = [q] \<longrightarrow>
        end_unix_nano p \<le> start_unix_nano q)"
    by (auto simp: single_iff single_None_iff split: option.splits)
  have s: "single t ''inventory.reserve'' = Some i" "single t ''fraud.evaluate'' = Some f"
    using i f by (simp_all add: single_iff)
  show ?thesis
    unfolding stage_order_def ordered_stages_def s prod.case option.case Let_def append_is_Nil_conv
      require_Nil comp pay ship i f
    by auto
qed

text \<open>
  The stage order check passes exactly on the traces in which inventory and fraud ran
  once each and overlapped, payment started after both, shipping after payment, and no compensation
  before the end of every business stage that ran.
\<close>

theorem stage_order_reports_nothing_iff:
  "stage_order t = [] \<longleftrightarrow>
   (\<exists>i f. named t ''inventory.reserve'' = [i] \<and> named t ''fraud.evaluate'' = [f] \<and>
     start_unix_nano i < end_unix_nano f \<and> start_unix_nano f < end_unix_nano i \<and>
     (\<forall>p. named t ''payment.authorize'' = [p] \<longrightarrow>
        end_unix_nano i \<le> start_unix_nano p \<and> end_unix_nano f \<le> start_unix_nano p) \<and>
     (\<forall>p q. named t ''payment.authorize'' = [p] \<longrightarrow> named t ''shipping.create'' = [q] \<longrightarrow>
        end_unix_nano p \<le> start_unix_nano q) \<and>
     (\<forall>c b. c \<in> set (spans t) \<and> b \<in> set (spans t) \<longrightarrow>
        span_name c \<in> {''compensation.payment.void'', ''compensation.inventory.release''} \<longrightarrow>
        span_name b \<in> {''inventory.reserve'', ''fraud.evaluate'', ''payment.authorize'', ''shipping.create''} \<longrightarrow>
        end_unix_nano b \<le> start_unix_nano c))"
proof -
  have "(\<forall>nm \<in> set COMPENSATION_STAGES. \<forall>c \<in> set (named t nm). \<forall>st \<in> set STAGES. \<forall>b \<in> set (named t st).
        end_unix_nano b \<le> start_unix_nano c) \<longleftrightarrow>
     (\<forall>c b. c \<in> set (spans t) \<and> b \<in> set (spans t) \<longrightarrow>
        span_name c \<in> set COMPENSATION_STAGES \<longrightarrow> span_name b \<in> set STAGES \<longrightarrow> end_unix_nano b \<le> start_unix_nano c)"
    by (auto simp: named_def)
  then show ?thesis
    unfolding stage_order_iff ordered_stages_def overlaps_def
    by (simp add: COMPENSATION_STAGES_def STAGES_def conj_assoc)
qed

subsection \<open>The transaction span\<close>

lemma state_path_iff [check_iff]:
  "state_path t expected_path = Inr [] \<longleftrightarrow>
   (\<exists>tx. transaction t = Some tx \<and> expected_path \<noteq> [] \<and> state_events tx = map PStr expected_path \<and>
      attr (span_attrs tx) ''order.state'' = PStr (last expected_path))"
  by (cases "expected_path = []") (auto simp: state_path_def py_eqs_strs split: option.splits)

lemma error_marking_iff [check_iff]:
  "error_marking t technical = [] \<longleftrightarrow>
   (\<exists>tx. transaction t = Some tx \<and> (span_status tx = ''ERROR'' \<longleftrightarrow> technical))"
  by (auto simp: error_marking_def split: option.splits)

subsection \<open>Retries, replays and latency\<close>

lemma retries_iff [check_iff]:
  "retries t stage_name n = [] \<longleftrightarrow>
   (\<exists>stage. named t stage_name = [stage] \<and>
      py_eqs (map (\<lambda>s. attr (span_attrs s) ''retry.attempt'') (attempts t stage_name)) (map PInt [1..n]) \<and>
      int (length (filter (\<lambda>e. event_name e = ''retry'') (span_events stage))) = n - 1 \<and>
      (1 < n \<longrightarrow> py_eq (attr (span_attrs stage) ''retry.count'') (PInt (n - 1))))"
  by (cases "single t stage_name") (simp_all add: retries_def single_iff [symmetric] Let_def)

lemma py_eqs_length: "py_eqs vs ws \<Longrightarrow> length vs = length ws"
  by (induction vs arbitrary: ws) (case_tac ws; simp)+

lemma py_eqs_nth: "py_eqs vs ws \<Longrightarrow> i < length ws \<Longrightarrow> py_eq (vs ! i) (ws ! i)"
proof (induction vs arbitrary: ws i)
  case (Cons v vs)
  then show ?case by (cases ws; cases i) auto
qed (case_tac ws; simp)

lemma attempts_props:
  "named t stage_name = [stage] \<Longrightarrow>
   sorted (map start_unix_nano (attempts t stage_name)) \<and>
   set (attempts t stage_name) = {c \<in> set (spans t). parent_span_id c = span_id stage \<and> span_kind c = ''CLIENT''}"
  by (auto simp: attempts_def single_def children_of_def)

text \<open>
  When the retry check passes for \<open>n\<close> attempts, the stage ran once and has exactly \<open>n\<close>
  client calls, which in the order of their start times carry the attempt numbers 1 to \<open>n\<close>, and one
  retry event for each attempt after the first.
\<close>

theorem retries_show_attempts:
  assumes "retries t stage_name (int n) = []"
  shows "\<exists>stage calls. named t stage_name = [stage] \<and>
    set calls = {c \<in> set (spans t). parent_span_id c = span_id stage \<and> span_kind c = ''CLIENT''} \<and>
    sorted (map start_unix_nano calls) \<and> length calls = n \<and>
    (\<forall>i < n. num_of (attr (span_attrs (calls ! i)) ''retry.attempt'') = Some (real (Suc i))) \<and>
    length (filter (\<lambda>e. event_name e = ''retry'') (span_events stage)) = n - 1 \<and> 1 \<le> n"
proof -
  obtain stage where stage: "named t stage_name = [stage]"
    and numbers: "py_eqs (map (\<lambda>s. attr (span_attrs s) ''retry.attempt'') (attempts t stage_name)) (map PInt [1..int n])"
    and events: "int (length (filter (\<lambda>e. event_name e = ''retry'') (span_events stage))) = int n - 1"
    using assms by (auto simp: check_iff)
  from py_eqs_length [OF numbers] have len: "length (attempts t stage_name) = n" by simp
  have "num_of (attr (span_attrs (attempts t stage_name ! i)) ''retry.attempt'') = Some (real (Suc i))"
    if "i < n" for i
    using py_eqs_nth [OF numbers, of i] that len by (simp add: py_eq_int)
  then show ?thesis
    using stage attempts_props [OF stage] len events by (intro exI [of _ stage] exI [of _ "attempts t stage_name"]) auto
qed

lemma idempotent_replay_iff [check_iff]:
  "idempotent_replay t = [] \<longleftrightarrow>
     2 \<le> length (authorization_servers t) \<and>
     length (filter (\<lambda>e. event_name e = ''payment.authorization_recorded'')
       (concat (map span_events (authorization_servers t)))) = 1 \<and>
     attr (span_attrs (last (authorization_servers t))) ''payment.idempotent_replay'' = PBool True"
  by (simp add: idempotent_replay_def Let_def)

definition dominates :: "trace \<Rightarrow> string \<Rightarrow> real \<Rightarrow> real \<Rightarrow> bool" where
  "dominates t stage_name min_share min_trace_ms \<longleftrightarrow>
     (\<exists>tx stage longest. transaction t = Some tx \<and> single t stage_name = Some stage \<and>
        max_by duration_ms (children_of t tx) = Inr longest \<and> span_id longest = span_id stage \<and>
        min_share \<le> (if duration_ms tx \<noteq> 0 then duration_ms stage / duration_ms tx else 0) \<and>
        (case filter (\<lambda>s. parent_span_id s = []) (spans t) of [] \<Rightarrow> True | r # _ \<Rightarrow> min_trace_ms \<le> duration_ms r))"

lemma latency_dominance_iff [check_iff]:
  "latency_dominance t stage_name share ms = Inr [] \<longleftrightarrow> dominates t stage_name share ms"
proof -
  have roots: "(case rs of [] \<Rightarrow> [] | r # _ \<Rightarrow> if duration_ms r < ms then [TraceTooShort (duration_ms r) ms] else []) = []
      \<longleftrightarrow> (case rs of [] \<Rightarrow> True | r # _ \<Rightarrow> ms \<le> duration_ms r)" for rs
    by (cases rs) auto
  show ?thesis
  proof (cases "transaction t")
    case (Some tx)
    show ?thesis
    proof (cases "single t stage_name")
      case stage: (Some stage)
      show ?thesis
        unfolding latency_dominance_def dominates_def Some stage prod.case option.case Let_def bindE_Inr_iff
          sum.inject append_is_Nil_conv roots require_Nil if_single_Nil_iff
        by (auto simp: not_less)
    qed (simp add: latency_dominance_def dominates_def Some)
  qed (simp add: latency_dominance_def dominates_def)
qed

text \<open>
  When the latency check passes on a trace whose span ids are distinct, the stage is a
  direct step of the transaction, no other step of the transaction lasted longer, and it took at least
  the required share of a transaction of positive length.
\<close>

theorem latency_dominance_longest_step:
  assumes "latency_dominance t stage_name min_share min_trace_ms = Inr []"
    and "distinct (map span_id (spans t))"
  shows "\<exists>tx stage. named t ''order.transaction'' = [tx] \<and> named t stage_name = [stage] \<and>
    stage \<in> set (children_of t tx) \<and> (\<forall>c \<in> set (children_of t tx). duration_ms c \<le> duration_ms stage) \<and>
    (0 < duration_ms tx \<longrightarrow> min_share * duration_ms tx \<le> duration_ms stage)"
proof -
  obtain tx stage longest where tx: "named t ''order.transaction'' = [tx]" and stage: "named t stage_name = [stage]"
    and longest: "max_by duration_ms (children_of t tx) = Inr longest" and same: "span_id longest = span_id stage"
    and share: "min_share \<le> (if duration_ms tx \<noteq> 0 then duration_ms stage / duration_ms tx else 0)"
    using assms(1) by (auto simp: check_iff dominates_def transaction_def single_iff)
  have in_spans: "stage \<in> set (spans t)"
    using arg_cong [OF stage, of set] by (auto simp: named_def)
  have long: "longest \<in> set (children_of t tx)" "\<And>c. c \<in> set (children_of t tx) \<Longrightarrow> duration_ms c \<le> duration_ms longest"
    using max_by_InrD [OF longest] by auto
  then have "longest \<in> set (spans t)" by (simp add: children_of_def)
  with in_spans same assms(2) have "longest = stage" by (simp add: distinct_map inj_on_def)
  with long share tx stage show ?thesis
    by (intro exI [of _ tx] exI [of _ stage]) (auto simp: le_divide_eq)
qed

subsection \<open>Metadata, correlation and secrets\<close>

lemma kubernetes_metadata_iff [check_iff]:
  "kubernetes_metadata t = [] \<longleftrightarrow> (\<forall>s \<in> set (spans t).
     (service s \<in> set DOTNET_SERVICES \<longrightarrow> (\<forall>k \<in> set K8S_KEYS. truthy (attr (span_resource s) k))) \<and>
     (service s = EDGE_SERVICE \<longrightarrow> truthy (attr (span_resource s) ''k8s.namespace.name'')))"
proof -
  have "EDGE_SERVICE \<notin> set DOTNET_SERVICES"
    by (simp add: EDGE_SERVICE_def DOTNET_SERVICES_def ORDER_SERVICE_def DOWNSTREAM_def)
  then have "span_metadata s = [] \<longleftrightarrow>
     (service s \<in> set DOTNET_SERVICES \<longrightarrow> (\<forall>k \<in> set K8S_KEYS. truthy (attr (span_resource s) k))) \<and>
     (service s = EDGE_SERVICE \<longrightarrow> truthy (attr (span_resource s) ''k8s.namespace.name''))" for s
    by (auto simp: span_metadata_def filter_empty_conv)
  then show ?thesis by (simp add: kubernetes_metadata_def)
qed

definition carries :: "attrs \<Rightarrow> string \<Rightarrow> string \<Rightarrow> bool" where
  "carries a key v \<longleftrightarrow> v = [] \<or> attr a key = PStr v"

definition correlated :: "trace \<Rightarrow> request_record \<Rightarrow> string \<Rightarrow> bool" where
  "correlated t request run_id \<longleftrightarrow>
     (\<exists>server rest. by_service t ORDER_SERVICE (Some ''SERVER'') = server # rest \<and>
        carries (span_attrs server) ''correlation.id'' (correlation_id request) \<and>
        carries (span_attrs server) ''scenario.run_id'' run_id \<and>
        carries (span_attrs server) ''kong.request.id'' (kong_request_id request)) \<and>
     (\<forall>tx. transaction t = Some tx \<longrightarrow> carries (span_attrs tx) ''order.id'' (order_id request)) \<and>
     (\<forall>s \<in> set (spans t). service s \<in> set DOWNSTREAM \<and> span_kind s = ''SERVER'' \<longrightarrow>
        attr (span_attrs s) ''scenario.run_id'' = PStr run_id)"

lemma correlation_iff [check_iff]:
  "correlation t request run_id = Inr [] \<longleftrightarrow> correlated t request run_id"
proof (cases "by_service t ORDER_SERVICE (Some ''SERVER'')")
  case (Cons server rest)
  define down where "down = map (\<lambda>s. attr (span_attrs s) ''scenario.run_id'')
    (filter (\<lambda>s. service s \<in> set DOWNSTREAM \<and> span_kind s = ''SERVER'') (spans t))"
  have downs: "(\<forall>v \<in> set down. v = PStr run_id) \<longleftrightarrow>
      (\<forall>s \<in> set (spans t). service s \<in> set DOWNSTREAM \<and> span_kind s = ''SERVER'' \<longrightarrow>
        attr (span_attrs s) ''scenario.run_id'' = PStr run_id)"
    by (auto simp: down_def)
  have "(if v \<noteq> [] \<and> \<not> py_eq (attr a key) (PStr v) then [AttributeIs key (attr a key) v] else []) = []
      \<longleftrightarrow> carries a key v" for a key v
    by (simp add: carries_def)
  then have "correlation t request run_id = Inr [] \<longleftrightarrow> (\<forall>v \<in> set down. hashable v) \<and>
      (carries (span_attrs server) ''correlation.id'' (correlation_id request) \<and>
       carries (span_attrs server) ''scenario.run_id'' run_id \<and>
       carries (span_attrs server) ''kong.request.id'' (kong_request_id request)) \<and>
      (\<forall>tx. transaction t = Some tx \<longrightarrow> carries (span_attrs tx) ''order.id'' (order_id request)) \<and>
      (\<forall>v \<in> set down. v = PStr run_id)"
    unfolding correlation_def Cons Let_def list.case down_def [symmetric]
    by (cases "transaction t") auto
  moreover have "\<forall>v \<in> set down. v = PStr run_id \<Longrightarrow> \<forall>v \<in> set down. hashable v"
    by auto
  ultimately show ?thesis
    unfolding correlated_def Cons downs [symmetric] by blast
qed (simp add: correlation_def correlated_def)

text \<open>Where a text occurs in a value: in a string, a key, or nested inside.\<close>

fun mentions :: "string \<Rightarrow> pyval \<Rightarrow> bool" where
  "mentions c (PStr s) = sublist c s"
| "mentions c (PList xs) = (\<exists>v \<in> set xs. mentions c v)"
| "mentions c (PDict d) = (\<exists>(k, v) \<in> set d. sublist c k \<or> mentions c v)"
| "mentions c _ = False"

lemma mentions_dump: "mentions c v \<Longrightarrow> (\<forall>x \<in> set c. json_plain x) \<Longrightarrow> sublist c (json_dumps v)"
proof (induction c v rule: mentions.induct)
  case (1 c s)
  then show ?case by (simp add: sublist_json_text)
next
  case (2 c xs)
  then show ?case by (auto simp del: json_dumps.simps intro: sublist_dumps_list)
next
  case (3 c d)
  from 3(2) obtain k v where kv: "(k, v) \<in> set d" and "sublist c k \<or> mentions c v" by auto
  then consider "sublist c k" | "mentions c v" by blast
  then show ?case
  proof cases
    case 1
    with 3(3) have "sublist c (json_text k)" by (simp add: sublist_json_text)
    with kv show ?thesis by (rule sublist_dumps_key)
  next
    case 2
    with 3 kv have "sublist c (json_dumps v)" by auto
    with kv show ?thesis by (rule sublist_dumps_value)
  qed
qed simp_all

lemma dump_mentions:
  assumes "s \<in> set (spans t)" and "\<forall>x \<in> set c. json_plain x"
    and "mentions c (PDict (span_attrs s)) \<or> mentions c (PDict (span_resource s)) \<or>
      (\<exists>e \<in> set (span_events s). mentions c (PDict (event_attrs e)))"
  shows "sublist c (trace_dump t)"
  unfolding trace_dump_def using assms
  by (intro mentions_dump) (auto simp del: mentions.simps(3) intro!: bexI [of _ s])

text \<open>
  Property C38. When the check for sensitive data passes, no span has an attribute whose name looks
  like a credential or a card number in any mix of cases, and no canary occurs in any value or key,
  however deeply nested, of a span's attributes, its events' attributes or its resource.
\<close>

theorem sensitive_data_finds_canaries:
  assumes "sensitive_data t canaries = []"
    and "secret \<in> set canaries" and "secret \<noteq> []" and "\<forall>x \<in> set secret. json_plain x"
    and "s \<in> set (spans t)"
  shows "(\<forall>(k, v) \<in> set (span_attrs s). \<forall>w \<in> set sensitive_words. \<not> sublist w (lower k)) \<and>
    \<not> mentions secret (PDict (span_attrs s)) \<and> \<not> mentions secret (PDict (span_resource s)) \<and>
    (\<forall>e \<in> set (span_events s). \<not> mentions secret (PDict (event_attrs e)))"
proof -
  have "\<not> sublist secret (trace_dump t)"
    using assms(1-3) by (auto simp: sensitive_data_def filter_empty_conv)
  moreover have "\<not> sensitive_key k" if "(k, v) \<in> set (span_attrs s)" for k v
    using assms(1,5) that unfolding sensitive_data_def append_is_Nil_conv concat_map_Nil_iff if_single_Nil_iff
    by (force simp: dict_keys_def)
  ultimately show ?thesis
    using dump_mentions [OF assms(5,4)] by (auto simp: sensitive_key_def simp del: mentions.simps(3))
qed

subsection \<open>The checks satisfy the contract\<close>

interpretation integrity: sound_check integrity intact
  by unfold_locales (rule integrity_iff)

interpretation topology: sound_check "\<lambda>(t, required, forbidden). Inr (topology t required forbidden)"
    "\<lambda>(t, required, forbidden). topology_ok t required forbidden"
  by unfold_locales (simp add: topology_iff split: prod.splits)

interpretation stage_order: sound_check "\<lambda>t. Inr (stage_order t)" ordered_stages
  by unfold_locales (simp add: stage_order_iff)

interpretation dominance: sound_check "\<lambda>(t, nm, share, ms). latency_dominance t nm share ms"
    "\<lambda>(t, nm, share, ms). dominates t nm share ms"
  by unfold_locales (simp add: latency_dominance_iff split: prod.splits)

interpretation correlation: sound_check "\<lambda>(t, request, run_id). correlation t request run_id"
    "\<lambda>(t, request, run_id). correlated t request run_id"
  by unfold_locales (simp add: correlation_iff split: prod.splits)

subsection \<open>A trace that passes\<close>

text \<open>A complete order with one payment retry, on which the witnesses evaluate the checks.\<close>

definition example_span ::
  "string \<Rightarrow> string \<Rightarrow> string \<Rightarrow> string \<Rightarrow> string \<Rightarrow> int \<Rightarrow> int \<Rightarrow> attrs \<Rightarrow> span_event list \<Rightarrow> span" where
  "example_span svc sid pid nm knd st en a evs =
     \<lparr>span_trace_id = ''t'', span_id = sid, parent_span_id = pid, span_name = nm, span_kind = knd,
      start_unix_nano = st, end_unix_nano = en, span_status = ''UNSET'', span_attrs = a, span_events = evs,
      span_resource = [(''service.name'', PStr svc)]\<rparr>"

definition example_trace :: trace where
  "example_trace = \<lparr>trace_id = ''t'', spans =
     [example_span ''kong-gateway'' ''k'' [] ''kong'' ''SERVER'' 0 100 [] [],
      example_span ''order-service'' ''o'' ''k'' ''POST /orders'' ''SERVER'' 5 95 [(''correlation.id'', PStr ''r-0-00000'')] [],
      example_span ''order-service'' ''x'' ''o'' ''order.transaction'' ''INTERNAL'' 10 90 [] [],
      example_span ''order-service'' ''i'' ''x'' ''inventory.reserve'' ''INTERNAL'' 11 20 [] [],
      example_span ''order-service'' ''f'' ''x'' ''fraud.evaluate'' ''INTERNAL'' 12 22 [] [],
      example_span ''order-service'' ''p'' ''x'' ''payment.authorize'' ''INTERNAL'' 30 80 [(''retry.count'', PInt 1)]
        [\<lparr>event_name = ''retry'', time_unix_nano = 52, event_attrs = []\<rparr>],
      example_span ''order-service'' ''p1'' ''p'' ''POST'' ''CLIENT'' 31 50 [(''retry.attempt'', PInt 1)] [],
      example_span ''order-service'' ''p2'' ''p'' ''POST'' ''CLIENT'' 55 79 [(''retry.attempt'', PInt 2)] [],
      example_span ''order-service'' ''s'' ''x'' ''shipping.create'' ''INTERNAL'' 81 89 [] []]\<rparr>"

lemma service_example [simp]: "service (example_span svc sid pid nm knd st en a evs) = svc"
  by (simp add: service_def example_span_def dict_get_def)

lemma example_fields [simp]:
  "span_id (example_span svc sid pid nm knd st en a evs) = sid"
  "parent_span_id (example_span svc sid pid nm knd st en a evs) = pid"
  "span_name (example_span svc sid pid nm knd st en a evs) = nm"
  "span_kind (example_span svc sid pid nm knd st en a evs) = knd"
  "start_unix_nano (example_span svc sid pid nm knd st en a evs) = st"
  "end_unix_nano (example_span svc sid pid nm knd st en a evs) = en"
  "span_attrs (example_span svc sid pid nm knd st en a evs) = a"
  "span_events (example_span svc sid pid nm knd st en a evs) = evs"
  "duration_ms (example_span svc sid pid nm knd st en a evs) = of_int (en - st) / 1000000"
  "is_root (example_span svc sid pid nm knd st en a evs) \<longleftrightarrow> pid = []"
  by (simp_all add: example_span_def duration_ms_def is_root_def)

lemma example_integrity: "integrity example_trace = Inr []"
  by (simp add: integrity_def gateway_span_gaps_def by_service_def example_trace_def EDGE_SERVICE_def
    known_ids_def)

lemma example_acyclic: "acyclic (parent_edge example_trace)"
proof -
  have "parent_edge example_trace \<subseteq> (measure (\<lambda>s. nat (start_unix_nano s)))\<inverse>"
    by (auto simp: parent_edge_def example_trace_def)
  moreover have "acyclic ((measure (\<lambda>s. nat (start_unix_nano s)))\<inverse>)"
    by (simp add: wf_acyclic)
  ultimately show ?thesis by (rule acyclic_subset [rotated])
qed


theorem stage_order_reports_nothing_witness: "stage_order example_trace = []"
proof -
  have no_compensation: "\<forall>c \<in> set (spans example_trace).
      span_name c \<notin> {''compensation.payment.void'', ''compensation.inventory.release''}"
    by (simp add: example_trace_def)
  have named: "named example_trace ''inventory.reserve'' = [spans example_trace ! 3]"
    "named example_trace ''fraud.evaluate'' = [spans example_trace ! 4]"
    "named example_trace ''payment.authorize'' = [spans example_trace ! 5]"
    "named example_trace ''shipping.create'' = [spans example_trace ! 8]"
    by (simp_all add: named_def example_trace_def)
  show ?thesis
  proof (subst stage_order_reports_nothing_iff, intro exI conjI)
    show "\<forall>c b. c \<in> set (spans example_trace) \<and> b \<in> set (spans example_trace) \<longrightarrow>
        span_name c \<in> {''compensation.payment.void'', ''compensation.inventory.release''} \<longrightarrow>
        span_name b \<in> {''inventory.reserve'', ''fraud.evaluate'', ''payment.authorize'', ''shipping.create''} \<longrightarrow>
        end_unix_nano b \<le> start_unix_nano c"
      using no_compensation by blast
  next
    show "start_unix_nano (spans example_trace ! 3) < end_unix_nano (spans example_trace ! 4)"
      "start_unix_nano (spans example_trace ! 4) < end_unix_nano (spans example_trace ! 3)"
      by (simp_all add: example_trace_def)
    show "\<forall>p. named example_trace ''payment.authorize'' = [p] \<longrightarrow>
        end_unix_nano (spans example_trace ! 3) \<le> start_unix_nano p \<and>
        end_unix_nano (spans example_trace ! 4) \<le> start_unix_nano p"
      "\<forall>p q. named example_trace ''payment.authorize'' = [p] \<longrightarrow>
        named example_trace ''shipping.create'' = [q] \<longrightarrow> end_unix_nano p \<le> start_unix_nano q"
      by (simp_all add: named, simp_all add: example_trace_def)
  qed (rule named)+
qed

theorem retries_show_attempts_witness:
  "\<exists>stage (calls :: span list). named example_trace ''payment.authorize'' = [stage] \<and> length calls = 2 \<and>
    (\<forall>i < 2. num_of (attr (span_attrs (calls ! i)) ''retry.attempt'') = Some (real (Suc i)))"
proof -
  have "retries example_trace ''payment.authorize'' (int 2) = []"
    by (simp add: retries_def attempts_def single_def named_def children_of_def example_trace_def
      require_def upto.simps attr_def dict_get_def py_eq.simps py_eqs.simps)
  from retries_show_attempts [OF this] show ?thesis by blast
qed

theorem latency_dominance_longest_step_witness:
  "\<exists>tx stage. named example_trace ''order.transaction'' = [tx] \<and> named example_trace ''payment.authorize'' = [stage] \<and>
    stage \<in> set (children_of example_trace tx)"
proof -
  have "latency_dominance example_trace ''payment.authorize'' (1 / 2) 0 = Inr []"
    by (simp add: latency_dominance_def transaction_def single_def named_def children_of_def example_trace_def
      require_def)
  moreover have "distinct (map span_id (spans example_trace))" by (simp add: example_trace_def)
  ultimately show ?thesis using latency_dominance_longest_step by blast
qed

theorem sensitive_data_finds_canaries_witness:
  "\<not> mentions ''canary-r'' (PDict [(''note'', PStr ''ok'')])"
proof -
  let ?s = "example_span ''order-service'' ''o'' [] ''n'' ''SERVER'' 0 1 [(''note'', PStr ''ok'')] []"
  have dump: "sensitive_data \<lparr>trace_id = ''t'', spans = [?s]\<rparr> [''canary-r''] = []"
    by (simp add: sensitive_data_def trace_dump_def dict_keys_def sensitive_key_def sensitive_words_def lower_def
      lower_char_def json_text_def json_char_def json_plain_def example_span_def sublist_code less_eq_char_def)
  have "\<forall>x \<in> set ''canary-r''. json_plain x" by (simp add: json_plain_def)
  from sensitive_data_finds_canaries [OF dump _ _ this] show ?thesis by simp
qed

end
