(* ===== verification/Records.thy ===== *)
theory Records
  imports Workload
begin

section \<open>The record of a run (scenarios/records.py)\<close>

text \<open>
  What a run writes about itself under \<open>.runs/<run id>/\<close>. The detail text of a check is for the report
  only and not part of the model. The functions that read and write the files are in \<open>World\<close>.
\<close>

datatype run_status = Running | Passed | Failed | Interrupted | ErrorStatus

datatype layer = ApplicationLayer | TelemetryLayer

record check_entry =
  check_layer :: layer
  check_name :: string
  check_passed :: bool

record k8s_event =
  ev_action :: k8s_action_kind
  ev_workload :: string
  ev_at :: real
  ev_pod :: "string option"
  ev_pods_before :: "string list option"
  ev_original :: "int option"
  ev_restored_at :: "real option"

record applied_fault =
  af_service :: string
  af_operation :: string
  af_mode :: fault_mode
  af_pods :: "string list"

text \<open>What makes a run meaningless before it starts, and the error a record ends with.\<close>

datatype preflight_problem =
    DeploymentUnavailable string string
  | DeploymentError string string exn
  | StatefulSetNotReady string string
  | GatewayAnswered int
  | GatewayUnusable exn
  | FaultsLeft "(string \<times> nat) list"

datatype run_error = NoError | PreflightFailed "preflight_problem list" | Raised exn

record run_record =
  run_ident :: string
  run_scenario :: string
  run_status :: run_status
  started_at :: string
  finished_at :: string
  workload_started_at :: real
  workload_finished_at :: real
  run_requests :: "request_record list"
  run_orders :: "(string, pyval) dict"
  kubernetes_events :: "k8s_event list"
  run_faults :: "applied_fault list"
  checks :: "check_entry list"
  metrics_before :: "(string, real) dict"
  restored :: bool
  run_error :: run_error

definition new_record :: "string \<Rightarrow> string \<Rightarrow> string \<Rightarrow> run_record" where
  "new_record rid scen started =
     \<lparr>run_ident = rid, run_scenario = scen, run_status = Running, started_at = started, finished_at = [],
      workload_started_at = 0, workload_finished_at = 0, run_requests = [], run_orders = [],
      kubernetes_events = [], run_faults = [], checks = [], metrics_before = [], restored = False,
      run_error = NoError\<rparr>"

text \<open>\<open>new_run_id\<close>: the UTC time stamp, the scenario and four hexadecimal digits.\<close>

definition new_run_id :: "string \<Rightarrow> bytes \<Rightarrow> string \<Rightarrow> string" where
  "new_run_id stamp random scen = stamp @ CHR ''-'' # scen @ CHR ''-'' # hex random"

definition add_check :: "string \<Rightarrow> bool \<Rightarrow> layer \<Rightarrow> run_record \<Rightarrow> run_record" where
  "add_check nm ok lay r =
     r\<lparr>checks := checks r @ [\<lparr>check_layer = lay, check_name = nm, check_passed = ok\<rparr>]\<rparr>"

definition passed :: "run_record \<Rightarrow> bool" where
  "passed r \<longleftrightarrow> checks r \<noteq> [] \<and> (\<forall>c \<in> set (checks r). check_passed c)"

text \<open>\<open>latest_run_id\<close> on the names of the run directories that hold a record.\<close>

definition latest_run_id :: "string list \<Rightarrow> string option \<Rightarrow> string option" where
  "latest_run_id names scen =
     (let candidates = sort (filter (\<lambda>nm. case scen of None \<Rightarrow> True
            | Some s \<Rightarrow> sublist (CHR ''-'' # s @ ''-'') nm) names)
      in if candidates = [] then None else Some (last candidates))"

lemma sorted_le_last: "sorted xs \<Longrightarrow> x \<in> set xs \<Longrightarrow> x \<le> last xs"
  by (induction xs) auto

lemma passed_add_check: "passed (add_check nm ok lay r) \<longleftrightarrow> ok \<and> (checks r = [] \<or> passed r)"
  by (auto simp: passed_def add_check_def)

lemma latest_run_id_props:
  "latest_run_id names scen = Some nm \<Longrightarrow>
     nm \<in> set names \<and> (\<forall>s. scen = Some s \<longrightarrow> sublist (CHR ''-'' # s @ ''-'') nm) \<and>
     (\<forall>m \<in> set names. (\<forall>s. scen = Some s \<longrightarrow> sublist (CHR ''-'' # s @ ''-'') m) \<longrightarrow> m \<le> nm)"
proof -
  let ?p = "\<lambda>nm. case scen of None \<Rightarrow> True | Some s \<Rightarrow> sublist (CHR ''-'' # s @ ''-'') nm"
  assume "latest_run_id names scen = Some nm"
  then have ne: "sort (filter ?p names) \<noteq> []" and nm: "nm = last (sort (filter ?p names))"
    by (auto simp: latest_run_id_def Let_def split: if_splits)
  then have "nm \<in> set (filter ?p names)" by (metis last_in_set set_sort)
  moreover have "m \<le> nm" if "m \<in> set (filter ?p names)" for m
    unfolding nm by (rule sorted_le_last) (use that in simp_all)
  ultimately show ?thesis by (auto split: option.splits)
qed

text \<open>Ids whose stamps have the same length are ordered by their stamps.\<close>

lemma run_id_order:
  assumes "length s = length t" "new_run_id s a x \<le> new_run_id t b y"
  shows "s \<le> t"
proof -
  have "s @ u \<le> t @ v \<Longrightarrow> length s = length t \<Longrightarrow> s \<le> t" for s t u v :: string
  proof (induction s arbitrary: t)
    case (Cons c s)
    then show ?case by (cases t) auto
  qed simp
  with assms show ?thesis by (simp add: new_run_id_def)
qed

end
