(* ===== verification/Journal.thy ===== *)
theory Journal
  imports Schema
begin

section \<open>The write-ahead journal and its restore plan (scenarios/journal.py)\<close>

text \<open>
  A journal is the list of the JSON objects that were appended to its file, one per line; writing an
  object and reading it back is the identity on the objects used here. \<open>restore_plan\<close> reads the
  objects as dictionaries of unknown content, so it can raise. The four calls of \<open>Journal.record\<close> in
  the program are the constructors of \<open>entry\<close>.
\<close>

datatype restore_kind = ScaleStep | ClearFaults | WaitAvailable

record restore_step =
  step_kind :: restore_kind
  step_target :: pyval
  step_replicas :: "int option"

subsection \<open>Entries\<close>

definition journal_object :: "string \<Rightarrow> attrs \<Rightarrow> attrs" where
  "journal_object knd details = (''kind'', PStr knd) # details"

datatype entry =
    FaultEntry string string string fault_mode
  | ScaleEntry string int int
  | RestartEntry string
  | DeleteEntry string string string

fun entry_object :: "entry \<Rightarrow> attrs" where
  "entry_object (FaultEntry svc pod op m) = journal_object ''fault''
     [(''service'', PStr svc), (''pod'', PStr pod), (''operation'', PStr op), (''mode'', PStr (mode_text m))]"
| "entry_object (ScaleEntry wl original n) = journal_object ''scale''
     [(''workload'', PStr wl), (''originalReplicas'', PInt original), (''replicas'', PInt n)]"
| "entry_object (RestartEntry wl) = journal_object ''rollout-restart'' [(''workload'', PStr wl)]"
| "entry_object (DeleteEntry wl pod uid) = journal_object ''delete-pod''
     [(''workload'', PStr wl), (''pod'', PStr pod), (''uid'', PStr uid)]"

subsection \<open>The plan\<close>

text \<open>The state of the loop: services with faults, first recorded replica counts, touched workloads.\<close>

record plan_state =
  fault_services :: "pyval list"
  original_replicas :: "(pyval, int) dict"
  touched :: "pyval list"

definition member :: "pyval \<Rightarrow> pyval list \<Rightarrow> bool" where
  "member v vs \<longleftrightarrow> (\<exists>w \<in> set vs. py_eq v w)"

definition plan_entry :: "plan_state \<Rightarrow> attrs \<Rightarrow> plan_state result" where
  "plan_entry st e =
     bindE (py_item (PDict e) ''kind'') (\<lambda>knd.
       let workload = (if knd = PStr ''fault'' then attr e ''service'' else attr e ''workload'') in
       bindE (if knd = PStr ''fault'' \<and> \<not> member workload (fault_services st)
              then Inr (st\<lparr>fault_services := fault_services st @ [workload]\<rparr>)
              else if knd = PStr ''scale''
              then bindE (bindE (py_item (PDict e) ''originalReplicas'') py_int) (\<lambda>n.
                     Inr (st\<lparr>original_replicas := dict_default workload n (original_replicas st)\<rparr>))
              else Inr st)
         (\<lambda>st'. Inr
           (if knd \<in> PStr ` {''fault'', ''scale'', ''rollout-restart'', ''delete-pod''} \<and> \<not> member workload (touched st')
            then st'\<lparr>touched := touched st' @ [workload]\<rparr> else st')))"

definition plan_steps :: "plan_state \<Rightarrow> restore_step list" where
  "plan_steps st =
     map (\<lambda>svc. \<lparr>step_kind = ClearFaults, step_target = svc, step_replicas = None\<rparr>) (fault_services st)
     @ map (\<lambda>(wl, n). \<lparr>step_kind = ScaleStep, step_target = wl, step_replicas = Some n\<rparr>) (original_replicas st)
     @ map (\<lambda>wl. \<lparr>step_kind = WaitAvailable, step_target = wl, step_replicas = None\<rparr>) (touched st)"

definition restore_plan :: "attrs list \<Rightarrow> restore_step list result" where
  "restore_plan es =
     bindE (foldE plan_entry \<lparr>fault_services = [], original_replicas = [], touched = []\<rparr> es)
       (\<lambda>st. Inr (plan_steps st))"

subsection \<open>The plan of the entries the program writes\<close>

fun entry_service :: "entry \<Rightarrow> string option" where
  "entry_service (FaultEntry svc _ _ _) = Some svc"
| "entry_service _ = None"

fun entry_scale :: "entry \<Rightarrow> (string \<times> int) option" where
  "entry_scale (ScaleEntry wl n _) = Some (wl, n)"
| "entry_scale _ = None"

fun entry_touches :: "entry \<Rightarrow> string" where
  "entry_touches (FaultEntry svc _ _ _) = svc"
| "entry_touches (ScaleEntry wl _ _) = wl"
| "entry_touches (RestartEntry wl) = wl"
| "entry_touches (DeleteEntry wl _ _) = wl"

definition faulted :: "entry list \<Rightarrow> string list" where
  "faulted es = uniq (List.map_filter entry_service es)"

definition scaled :: "entry list \<Rightarrow> (string \<times> int) list" where
  "scaled es = List.map_filter entry_scale es"

definition first_counts :: "entry list \<Rightarrow> (string, int) dict" where
  "first_counts es = foldl (\<lambda>d (wl, n). dict_default wl n d) [] (scaled es)"

definition changed :: "entry list \<Rightarrow> string list" where
  "changed es = uniq (map entry_touches es)"

definition clear_step :: "string \<Rightarrow> restore_step" where
  "clear_step svc = \<lparr>step_kind = ClearFaults, step_target = PStr svc, step_replicas = None\<rparr>"

definition scale_step :: "string \<Rightarrow> int \<Rightarrow> restore_step" where
  "scale_step wl n = \<lparr>step_kind = ScaleStep, step_target = PStr wl, step_replicas = Some n\<rparr>"

definition wait_step :: "string \<Rightarrow> restore_step" where
  "wait_step wl = \<lparr>step_kind = WaitAvailable, step_target = PStr wl, step_replicas = None\<rparr>"

definition plan_of :: "entry list \<Rightarrow> restore_step list" where
  "plan_of es = map clear_step (faulted es) @ map (\<lambda>(wl, n). scale_step wl n) (first_counts es)
     @ map wait_step (changed es)"

definition state_of :: "entry list \<Rightarrow> plan_state" where
  "state_of es = \<lparr>fault_services = map PStr (faulted es),
     original_replicas = map (\<lambda>(wl, n). (PStr wl, n)) (first_counts es), touched = map PStr (changed es)\<rparr>"

lemma map_filter_snoc: "List.map_filter f (xs @ [x]) = List.map_filter f xs @ (case f x of None \<Rightarrow> [] | Some y \<Rightarrow> [y])"
  by (induction xs) (auto simp: List.map_filter_def split: option.splits)

lemma member_strs [simp]: "member (PStr s) (map PStr ss) \<longleftrightarrow> s \<in> set ss"
  by (auto simp: member_def)

lemma dict_get_inj: "inj g \<Longrightarrow> dict_get (map (\<lambda>(k, v). (g k, v)) d) (g k) = dict_get d k"
  by (induction d) (auto simp: dict_get_def inj_eq)

lemma dict_put_inj: "inj g \<Longrightarrow> dict_put (g k) v (map (\<lambda>(k, v). (g k, v)) d) = map (\<lambda>(k, v). (g k, v)) (dict_put k v d)"
  by (induction d) (auto simp: dict_put_def inj_eq)

lemma dict_default_strs:
  "dict_default (PStr wl) n (map (\<lambda>(wl, n). (PStr wl, n)) d) = map (\<lambda>(wl, n). (PStr wl, n)) (dict_default wl n d)"
proof -
  have "inj PStr" by (simp add: inj_def)
  then show ?thesis by (simp add: dict_default_def dict_get_inj dict_put_inj)
qed

lemma plan_entry_object: "plan_entry (state_of es) (entry_object e) = Inr (state_of (es @ [e]))"
  by (cases e)
    (auto simp: plan_entry_def state_of_def journal_object_def py_item_def dict_get_def attr_def faulted_def
      changed_def first_counts_def scaled_def map_filter_snoc uniq_snoc dict_default_strs Let_def)

lemma plan_objects: "foldE plan_entry (state_of es) (map entry_object ds) = Inr (state_of (es @ ds))"
  by (induction ds arbitrary: es) (simp_all add: plan_entry_object)

lemma state_of_Nil: "state_of [] = \<lparr>fault_services = [], original_replicas = [], touched = []\<rparr>"
  by (simp add: state_of_def faulted_def changed_def first_counts_def scaled_def List.map_filter_def uniq_def)

lemma plan_steps_state_of: "plan_steps (state_of es) = plan_of es"
  by (simp add: plan_steps_def state_of_def plan_of_def comp_def case_prod_beta clear_step_def scale_step_def
    wait_step_def)

lemma restore_plan_objects: "restore_plan (map entry_object es) = Inr (plan_of es)"
  using plan_objects [of "[]" es] by (simp add: restore_plan_def state_of_Nil plan_steps_state_of)

lemma first_counts_get: "dict_get (first_counts es) wl = map_of (scaled es) wl"
proof (induction es rule: rev_induct)
  case (snoc e es)
  then show ?case
    by (cases "entry_scale e")
      (auto simp: first_counts_def scaled_def map_filter_snoc dict_default_def dict_get_put map_add_def
        split: option.splits)
qed (simp add: first_counts_def scaled_def List.map_filter_def)

lemma distinct_first_counts: "distinct (map fst (first_counts es))"
proof (induction es rule: rev_induct)
  case (snoc e es)
  then show ?case
    by (cases "entry_scale e")
      (auto simp: first_counts_def scaled_def map_filter_snoc dict_default_def dict_put_def distinct_update
        split: prod.splits)
qed (simp add: first_counts_def scaled_def List.map_filter_def)

lemma first_counts_member: "(wl, n) \<in> set (first_counts es) \<longleftrightarrow> map_of (scaled es) wl = Some n"
  using distinct_first_counts [of es] first_counts_get [of es wl]
  unfolding dict_get_def by (metis map_of_eq_Some_iff)

lemma set_faulted: "svc \<in> set (faulted es) \<longleftrightarrow> (\<exists>e \<in> set es. entry_service e = Some svc)"
  by (force simp: faulted_def List.map_filter_def)

lemma set_changed: "wl \<in> set (changed es) \<longleftrightarrow> (\<exists>e \<in> set es. entry_touches e = wl)"
  by (auto simp: changed_def)

lemma scaled_append: "scaled (es @ ds) = scaled es @ scaled ds"
  by (simp add: scaled_def List.map_filter_def)

lemma plan_step_eqs [simp]:
  "clear_step a = clear_step b \<longleftrightarrow> a = b" "wait_step a = wait_step b \<longleftrightarrow> a = b"
  "scale_step a m = scale_step b n \<longleftrightarrow> a = b \<and> m = n"
  "clear_step a \<noteq> scale_step b n" "scale_step b n \<noteq> clear_step a"
  "clear_step a \<noteq> wait_step b" "wait_step b \<noteq> clear_step a"
  "scale_step a n \<noteq> wait_step b" "wait_step b \<noteq> scale_step a n"
  by (auto simp: clear_step_def scale_step_def wait_step_def)

lemma clear_in_plan: "clear_step svc \<in> set (plan_of es) \<longleftrightarrow> (\<exists>e \<in> set es. entry_service e = Some svc)"
  by (auto simp: plan_of_def set_faulted [symmetric])

lemma wait_in_plan: "wait_step wl \<in> set (plan_of es) \<longleftrightarrow> (\<exists>e \<in> set es. entry_touches e = wl)"
  by (auto simp: plan_of_def set_changed [symmetric])

lemma scale_in_plan: "scale_step wl n \<in> set (plan_of es) \<longleftrightarrow> map_of (scaled es) wl = Some n"
  unfolding first_counts_member [symmetric] by (auto simp: plan_of_def)

lemma plan_step_cases:
  assumes "x \<in> set (plan_of es)"
  obtains (clear) svc where "x = clear_step svc" | (scale) wl n where "x = scale_step wl n"
    | (wait) wl where "x = wait_step wl"
  using assms by (auto simp: plan_of_def)

lemma entry_service_iff: "entry_service e = Some svc \<longleftrightarrow> (\<exists>pod op m. e = FaultEntry svc pod op m)"
  by (cases e) auto

lemma first_scale_iff:
  "map_of (scaled es) wl = Some n \<longleftrightarrow>
   (\<exists>pre post m. es = pre @ ScaleEntry wl n m # post \<and> (\<forall>k l. ScaleEntry wl k l \<notin> set pre))"
proof (induction es)
  case (Cons e es)
  show ?case
  proof (cases "\<exists>k m. e = ScaleEntry wl k m")
    case True
    then obtain k m where e: "e = ScaleEntry wl k m" by blast
    then have "map_of (scaled (e # es)) wl = Some k" by (simp add: scaled_def List.map_filter_def)
    moreover have "(\<exists>pre post m. e # es = pre @ ScaleEntry wl n m # post \<and> (\<forall>k l. ScaleEntry wl k l \<notin> set pre))
        \<longleftrightarrow> k = n"
    proof
      assume "\<exists>pre post m. e # es = pre @ ScaleEntry wl n m # post \<and> (\<forall>k l. ScaleEntry wl k l \<notin> set pre)"
      then obtain pre post m' where "e # es = pre @ ScaleEntry wl n m' # post" "\<forall>k l. ScaleEntry wl k l \<notin> set pre"
        by blast
      with e show "k = n" by (cases pre) auto
    next
      assume "k = n"
      with e show "\<exists>pre post m. e # es = pre @ ScaleEntry wl n m # post \<and> (\<forall>k l. ScaleEntry wl k l \<notin> set pre)"
        by (intro exI [of _ "[]"] exI [of _ es] exI [of _ m]) auto
    qed
    ultimately show ?thesis by simp
  next
    case False
    then have "map_of (scaled (e # es)) wl = map_of (scaled es) wl"
      by (cases e) (auto simp: scaled_def List.map_filter_def)
    moreover have "(\<exists>pre post m. e # es = pre @ ScaleEntry wl n m # post \<and> (\<forall>k l. ScaleEntry wl k l \<notin> set pre)) \<longleftrightarrow>
        (\<exists>pre post m. es = pre @ ScaleEntry wl n m # post \<and> (\<forall>k l. ScaleEntry wl k l \<notin> set pre))" (is "?l \<longleftrightarrow> ?r")
    proof
      assume ?l
      then obtain pre post m where p: "e # es = pre @ ScaleEntry wl n m # post" "\<forall>k l. ScaleEntry wl k l \<notin> set pre"
        by blast
      with False obtain pre' where "pre = e # pre'" by (cases pre) auto
      with p show ?r by (intro exI [of _ pre'] exI [of _ post] exI [of _ m]) auto
    next
      assume ?r
      then obtain pre post m where "es = pre @ ScaleEntry wl n m # post" "\<forall>k l. ScaleEntry wl k l \<notin> set pre"
        by blast
      with False show ?l by (intro exI [of _ "e # pre"] exI [of _ post] exI [of _ m]) auto
    qed
    ultimately show ?thesis using Cons.IH by simp
  qed
qed (simp add: scaled_def List.map_filter_def)

text \<open>
  Property C6. The plan of a journal the program wrote exists, whatever was written, and first clears
  the faults of every service that has a fault entry, then sets every scaled workload to the count of
  its first scale entry, then waits for every workload any entry names, each once.
\<close>

theorem restore_plan_undoes_journal:
  "\<exists>clears scales waits. restore_plan (map entry_object es) = Inr (clears @ scales @ waits) \<and>
     distinct (clears @ scales @ waits) \<and>
     set clears = {clear_step svc | svc. \<exists>pod op m. FaultEntry svc pod op m \<in> set es} \<and>
     set scales = {scale_step wl n | wl n. \<exists>pre post m. es = pre @ ScaleEntry wl n m # post \<and>
        (\<forall>k l. ScaleEntry wl k l \<notin> set pre)} \<and>
     set waits = {wait_step wl | wl. \<exists>e \<in> set es. entry_touches e = wl}"
proof -
  let ?clears = "map clear_step (faulted es)" and ?waits = "map wait_step (changed es)"
  let ?scales = "map (\<lambda>(wl, n). scale_step wl n) (first_counts es)"
  have "set ?clears = {clear_step svc | svc. \<exists>pod op m. FaultEntry svc pod op m \<in> set es}"
    by (force simp: set_faulted entry_service_iff)
  moreover have "set ?scales = {scale_step wl n | wl n. \<exists>pre post m. es = pre @ ScaleEntry wl n m # post \<and>
        (\<forall>k l. ScaleEntry wl k l \<notin> set pre)}"
    unfolding first_scale_iff [symmetric] first_counts_member [symmetric] by auto
  moreover have "set ?waits = {wait_step wl | wl. \<exists>e \<in> set es. entry_touches e = wl}"
    using set_changed [of _ es] by (auto intro: imageI)
  moreover have "distinct (?clears @ ?scales @ ?waits)"
    using distinct_map [of fst "first_counts es"] distinct_first_counts [of es]
    by (auto simp: distinct_map inj_on_def faulted_def changed_def)
  ultimately show ?thesis
    using restore_plan_objects [of es] unfolding plan_of_def by blast
qed

text \<open>
  What the plan undoes is never lost by writing more: every step of the plan of a
  journal is a step of the plan of any longer journal, with the same replica count.
\<close>

theorem restore_plan_monotone:
  "\<exists>short long. restore_plan (map entry_object es) = Inr short \<and>
     restore_plan (map entry_object (es @ ds)) = Inr long \<and> set short \<subseteq> set long"
proof -
  have "x \<in> set (plan_of (es @ ds))" if "x \<in> set (plan_of es)" for x
    using that
  proof (cases rule: plan_step_cases)
    case (clear svc)
    with that show ?thesis by (auto simp: clear_in_plan)
  next
    case (scale wl n)
    with that show ?thesis by (simp add: scale_in_plan scaled_append map_add_Some_iff)
  next
    case (wait wl)
    with that show ?thesis by (auto simp: wait_in_plan)
  qed
  then show ?thesis using restore_plan_objects by blast
qed

end
