(* ===== verification/World.thy ===== *)
theory World
  imports Records Journal
begin

section \<open>The world the automation acts on\<close>

text \<open>
  Everything outside the process is an argument: the record \<open>api\<close> has one action per call of the
  Kubernetes client, of HTTP through a port-forward, of the identity provider and of the clock, on a
  cluster state of any type \<open>'k\<close>; any of them may raise. The \<open>world\<close> adds to that state the files under
  \<open>.runs\<close> and the record object of the run in progress. \<open>trail\<close> is the history of the programs started and of the calls that change
  something, in the order they are issued; no operation reads it, it is what the properties of whole
  runs speak about. File writes succeed.
\<close>

datatype endpoint = PodPort string | OrderServicePort | JaegerPort | PrometheusPort | GatewayUrl

record workload_view =
  spec_replicas :: "int option"
  generation :: int
  observed_generation :: "int option"
  updated_replicas :: "int option"
  available_replicas :: "int option"
  status_replicas :: "int option"
  ready_replicas :: "int option"
  current_replicas_view :: "int option"
  match_labels :: "(string, string) dict"

record pod_view =
  pod_name :: string
  being_deleted :: bool
  pod_phase :: string
  pod_conditions :: "(string \<times> string) list"

record lease =
  lease_holder :: "string option"
  lease_purpose :: "string option"
  acquire_time :: "real option"
  renew_time :: "real option"
  lease_seconds :: "int option"
  resource_version :: "nat option"

record 'k api =
  read_workload :: "workload_kind \<Rightarrow> string \<Rightarrow> string \<Rightarrow> ('k, workload_view) act"
  list_pods :: "string \<Rightarrow> string \<Rightarrow> ('k, pod_view list) act"
  read_pod_uid :: "string \<Rightarrow> string \<Rightarrow> ('k, string) act"
  delete_pod_call :: "string \<Rightarrow> string \<Rightarrow> ('k, unit) act"
  patch_restart :: "workload_kind \<Rightarrow> string \<Rightarrow> string \<Rightarrow> string \<Rightarrow> ('k, unit) act"
  patch_scale :: "workload_kind \<Rightarrow> string \<Rightarrow> string \<Rightarrow> int \<Rightarrow> ('k, unit) act"
  http :: "endpoint \<Rightarrow> string \<Rightarrow> string \<Rightarrow> (string, string) dict \<Rightarrow> pyval option \<Rightarrow> ('k, http_response) act"
  fetch_token :: "string \<Rightarrow> ('k, string) act"
  traffic_network :: "('k, network \<times> (string \<Rightarrow> string result)) act"
  read_lease :: "('k, lease) act"
  create_lease :: "lease \<Rightarrow> ('k, unit) act"
  replace_lease :: "lease \<Rightarrow> ('k, unit) act"
  delete_lease :: "('k, unit) act"
  own_identity :: string
  wall_clock :: "('k, real) act"
  monotonic_clock :: "('k, real) act"
  time_stamp :: "('k, string) act"
  utc_text :: "real \<Rightarrow> string"
  random_bytes :: "('k, bytes) act"
  sleep_for :: "real \<Rightarrow> ('k, unit) act"

datatype event =
    Journaled string entry
  | FaultSet string string string
  | PodDeleted string string string
  | WorkloadRestarted string string
  | WorkloadScaled string string int
  | FaultsCleared string
  | ReplicasRestored string int
  | BreakersReset string
  | RecordSaved run_record
  | TrafficSent string
  | LeaseWritten string
  | LeaseDeleted
  | ToolStarted string "string list"
  | SecretWritten string string
  | ProbeCreated string string
  | ProbeDeleted string string
  | FileWritten string
  | FileRemoved string
  | ResourceCreated string string string
  | ResourceDeleted string string string
  | DeploymentScaled string int
  | SpansSent "string list"

record 'k world =
  ext :: 'k
  journal_files :: "(string, attrs list) dict"
  record_files :: "(string, run_record) dict"
  active :: run_record
  trail :: "event list"

subsection \<open>Calls\<close>

text \<open>A call that only looks at the outside world, and one that is issued to change it.\<close>

definition call :: "('k, 'a) act \<Rightarrow> ('k world, 'a) act" where
  "call m = (\<lambda>w. case m (ext w) of (r, k) \<Rightarrow> (r, w\<lparr>ext := k\<rparr>))"

definition effect :: "event \<Rightarrow> ('k, 'a) act \<Rightarrow> ('k world, 'a) act" where
  "effect ev m = (\<lambda>w. call m (w\<lparr>trail := trail w @ [ev]\<rparr>))"

lemma call_keeps:
  "journal_files (snd (call m w)) = journal_files w" "record_files (snd (call m w)) = record_files w"
  "active (snd (call m w)) = active w" "trail (snd (call m w)) = trail w"
  by (simp_all add: call_def split: prod.splits)

lemma effect_keeps:
  "journal_files (snd (effect ev m w)) = journal_files w" "record_files (snd (effect ev m w)) = record_files w"
  "active (snd (effect ev m w)) = active w" "trail (snd (effect ev m w)) = trail w @ [ev]"
  by (simp_all add: effect_def call_keeps)

subsection \<open>Files\<close>

text \<open>\<open>Journal.record\<close> appends one object to the journal of the run and flushes it.\<close>

definition journal_record :: "string \<Rightarrow> entry \<Rightarrow> ('k world, unit) act" where
  "journal_record rid e = modW (\<lambda>w. w\<lparr>
     journal_files := dict_append rid (entry_object e) (journal_files w),
     trail := trail w @ [Journaled rid e]\<rparr>)"

text \<open>\<open>Journal.entries\<close>: an absent file has no entries.\<close>

definition journal_entries :: "string \<Rightarrow> 'k world \<Rightarrow> attrs list" where
  "journal_entries rid w = (case dict_get (journal_files w) rid of None \<Rightarrow> [] | Some es \<Rightarrow> es)"

definition save_record :: "run_record \<Rightarrow> ('k world, unit) act" where
  "save_record r = modW (\<lambda>w. w\<lparr>record_files := dict_put (run_ident r) r (record_files w),
     trail := trail w @ [RecordSaved r]\<rparr>)"

definition load :: "string \<Rightarrow> ('k world, run_record) act" where
  "load rid = (\<lambda>w. (case dict_get (record_files w) rid of None \<Rightarrow> Inl (KeyError rid) | Some r \<Rightarrow> Inr r, w))"

text \<open>The records on disk whose changes were not undone, in the order of their directory names.\<close>

definition unrestored_runs :: "'k world \<Rightarrow> run_record list" where
  "unrestored_runs w =
     filter (\<lambda>r. \<not> restored r)
       (map (\<lambda>rid. the (dict_get (record_files w) rid)) (sort (dict_keys (record_files w))))"

definition update_active :: "(run_record \<Rightarrow> run_record) \<Rightarrow> ('k world, unit) act" where
  "update_active f = modW (\<lambda>w. w\<lparr>active := f (active w)\<rparr>)"

lemma journal_record_trail: "trail (snd (journal_record rid e w)) = trail w @ [Journaled rid e]"
  by (simp add: journal_record_def)

lemma journal_entries_record:
  "journal_entries rid (snd (journal_record rid' e w)) =
     journal_entries rid w @ (if rid = rid' then [entry_object e] else [])"
  by (auto simp: journal_entries_def journal_record_def dict_append_def dict_get_put split: option.splits)

lemma unrestored_iff:
  "r \<in> set (unrestored_runs w) \<longleftrightarrow> \<not> restored r \<and> (\<exists>rid. dict_get (record_files w) rid = Some r)"
proof -
  have "(\<exists>rid \<in> set (dict_keys (record_files w)). r = the (dict_get (record_files w) rid)) \<longleftrightarrow>
      (\<exists>rid. dict_get (record_files w) rid = Some r)"
    by (metis dict_get_None_iff option.exhaust_sel option.sel option.distinct(1))
  then show ?thesis by (auto simp: unrestored_runs_def)
qed

subsection \<open>Write-ahead order\<close>

text \<open>
  Which journal entry announces a change made on behalf of a run. Calls that undo changes or belong to
  the lock or the record need none.
\<close>

fun announces :: "entry \<Rightarrow> event \<Rightarrow> bool" where
  "announces (FaultEntry svc pod _ _) (FaultSet _ svc' pod') \<longleftrightarrow> svc = svc' \<and> pod = pod'"
| "announces (DeleteEntry wl pod _) (PodDeleted _ wl' pod') \<longleftrightarrow> wl = wl' \<and> pod = pod'"
| "announces (RestartEntry wl) (WorkloadRestarted _ wl') \<longleftrightarrow> wl = wl'"
| "announces (ScaleEntry wl _ n) (WorkloadScaled _ wl' n') \<longleftrightarrow> wl = wl' \<and> n = n'"
| "announces _ _ \<longleftrightarrow> False"

fun changed_by :: "event \<Rightarrow> string option" where
  "changed_by (FaultSet rid _ _) = Some rid"
| "changed_by (PodDeleted rid _ _) = Some rid"
| "changed_by (WorkloadRestarted rid _) = Some rid"
| "changed_by (WorkloadScaled rid _ _) = Some rid"
| "changed_by _ = None"

definition announced :: "event list \<Rightarrow> event \<Rightarrow> bool" where
  "announced past ev \<longleftrightarrow> (\<forall>rid. changed_by ev = Some rid \<longrightarrow> (\<exists>e. Journaled rid e \<in> set past \<and> announces e ev))"

definition write_ahead :: "event list \<Rightarrow> bool" where
  "write_ahead evs \<longleftrightarrow> (\<forall>past ev future. evs = past @ ev # future \<longrightarrow> announced past ev)"

lemma write_ahead_Nil [simp]: "write_ahead []"
  by (simp add: write_ahead_def)

lemma announced_mono: "announced past ev \<Longrightarrow> set past \<subseteq> set past' \<Longrightarrow> announced past' ev"
  by (fastforce simp: announced_def)

lemma write_ahead_snoc: "write_ahead (evs @ [ev]) \<longleftrightarrow> write_ahead evs \<and> announced evs ev"
proof
  assume all: "write_ahead (evs @ [ev])"
  then have "announced evs ev" by (simp add: write_ahead_def)
  moreover have "announced past e" if "evs = past @ e # future" for past e future
    using all that by (auto simp: write_ahead_def)
  ultimately show "write_ahead evs \<and> announced evs ev" by (simp add: write_ahead_def)
next
  assume both: "write_ahead evs \<and> announced evs ev"
  show "write_ahead (evs @ [ev])"
    unfolding write_ahead_def
  proof (intro allI impI)
    fix past e future assume split: "evs @ [ev] = past @ e # future"
    show "announced past e"
    proof (cases future rule: rev_cases)
      case Nil
      with split both show ?thesis by simp
    next
      case (snoc fs f)
      with split have "evs = past @ e # fs" by simp
      with both show ?thesis by (simp add: write_ahead_def)
    qed
  qed
qed

lemma write_ahead_prefix: "write_ahead (evs @ later) \<Longrightarrow> write_ahead evs"
  by (induction later rule: rev_induct) (simp_all add: write_ahead_snoc flip: append_assoc)

text \<open>The entries a run has journaled, as its trail shows them.\<close>

definition journaled :: "string \<Rightarrow> event list \<Rightarrow> entry list" where
  "journaled rid evs = List.map_filter (\<lambda>ev. case ev of Journaled r e \<Rightarrow> if r = rid then Some e else None | _ \<Rightarrow> None) evs"

lemma journaled_append: "journaled rid (xs @ ys) = journaled rid xs @ journaled rid ys"
  by (simp add: journaled_def List.map_filter_def)

lemma journaled_single [simp]:
  "journaled rid [ev] = (case ev of Journaled r e \<Rightarrow> if r = rid then [e] else [] | _ \<Rightarrow> [])"
  by (simp add: journaled_def List.map_filter_def split: event.splits)

lemma journaled_Nil [simp]: "journaled rid [] = []"
  by (simp add: journaled_def List.map_filter_def)

lemma set_journaled: "e \<in> set (journaled rid evs) \<longleftrightarrow> Journaled rid e \<in> set evs"
proof (induction evs)
  case (Cons ev evs)
  then show ?case using journaled_append [of rid "[ev]" evs] by (cases ev) auto
qed simp

end
