(* ===== verification/Kube.thy ===== *)
theory Kube
  imports World
begin

section \<open>Access to the cluster (kube.py)\<close>

text \<open>
  The guard that refuses every context but the local kind cluster, the readiness predicates, and
  polling. \<open>wait_for\<close> polls until its predicate gives a value or the deadline has passed; the number of
  polls is bounded by the timeout divided by the interval, plus one, and \<open>wait_for_enough_polls\<close> shows
  that a clock on which sleeping takes the time it is asked for never reaches that bound.
\<close>

definition CONTEXT :: string where "CONTEXT = ''kind-txplatform''"
definition NS_GATEWAY :: string where "NS_GATEWAY = ''gateway-system''"
definition NS_APP :: string where "NS_APP = ''transaction-platform''"
definition NS_OBSERVABILITY :: string where "NS_OBSERVABILITY = ''observability''"

subsection \<open>The context guard\<close>

text \<open>
  \<open>urlparse(url).hostname or ""\<close>: the scheme ends at the first colon when only scheme characters come
  before it, the network location is between \<open>//\<close> and the next delimiter, user information ends at
  its last \<open>@\<close>, and a host in brackets may contain colons.
\<close>

definition is_letter :: "char \<Rightarrow> bool" where
  "is_letter c \<longleftrightarrow> (CHR ''a'' \<le> c \<and> c \<le> CHR ''z'') \<or> (CHR ''A'' \<le> c \<and> c \<le> CHR ''Z'')"

definition before :: "char \<Rightarrow> string \<Rightarrow> string" where
  "before c s = takeWhile (\<lambda>x. x \<noteq> c) s"

definition after :: "char \<Rightarrow> string \<Rightarrow> string" where
  "after c s = tl (dropWhile (\<lambda>x. x \<noteq> c) s)"

definition strip_scheme :: "string \<Rightarrow> string" where
  "strip_scheme url =
     (let scheme = before CHR '':'' url in
      if CHR '':'' \<in> set url \<and> scheme \<noteq> [] \<and> is_letter (hd scheme) \<and>
         (\<forall>c \<in> set scheme. is_letter c \<or> is_digit c \<or> c \<in> set ''+-.'')
      then after CHR '':'' url else url)"

definition net_location :: "string \<Rightarrow> string" where
  "net_location url =
     (let rest = strip_scheme url in
      if prefix ''//'' rest then takeWhile (\<lambda>c. c \<notin> set ''/?#'') (drop 2 rest) else [])"

definition url_hostname :: "string \<Rightarrow> string" where
  "url_hostname url =
     (let hostinfo = snd (rpartition CHR ''@'' (net_location url));
          host = (if CHR ''['' \<in> set hostinfo then before CHR '']'' (after CHR ''['' hostinfo)
                  else before CHR '':'' hostinfo)
      in lower (before CHR ''%'' host) @ dropWhile (\<lambda>c. c \<noteq> CHR ''%'') host)"

definition check_context_is_local :: "string \<Rightarrow> string \<Rightarrow> unit result" where
  "check_context_is_local context_name server_url =
     (if context_name \<noteq> CONTEXT then Inl ContextGuardError
      else if url_hostname server_url \<notin> {''127.0.0.1'', ''localhost'', ''::1''} then Inl ContextGuardError
      else Inr ())"

subsection \<open>Pods and workloads\<close>

definition or0 :: "int option \<Rightarrow> int" where
  "or0 v = (case v of None \<Rightarrow> 0 | Some n \<Rightarrow> n)"

definition is_pod_ready :: "pod_view \<Rightarrow> bool" where
  "is_pod_ready p \<longleftrightarrow> (''Ready'', ''True'') \<in> set (pod_conditions p)"

definition running :: "pod_view \<Rightarrow> bool" where
  "running p \<longleftrightarrow> \<not> being_deleted p \<and> pod_phase p = ''Running''"

definition running_pods_in :: "'k api \<Rightarrow> string \<Rightarrow> string \<Rightarrow> ('k world, pod_view list) act" where
  "running_pods_in a ns sel = bindA (call (list_pods a ns sel)) (\<lambda>pods. ret (filter running pods))"

definition ready_pods_in :: "'k api \<Rightarrow> string \<Rightarrow> string \<Rightarrow> ('k world, pod_view list) act" where
  "ready_pods_in a ns sel = bindA (running_pods_in a ns sel) (\<lambda>pods. ret (filter is_pod_ready pods))"

definition deployment_is_available :: "workload_view \<Rightarrow> bool" where
  "deployment_is_available d \<longleftrightarrow>
     (let desired = or0 (spec_replicas d) in
      (case observed_generation d of None \<Rightarrow> False | Some g \<Rightarrow> generation d \<le> g) \<and>
      or0 (updated_replicas d) = desired \<and> or0 (available_replicas d) = desired \<and>
      or0 (status_replicas d) = desired)"

definition statefulset_is_ready :: "workload_view \<Rightarrow> bool" where
  "statefulset_is_ready s \<longleftrightarrow>
     or0 (ready_replicas s) = or0 (spec_replicas s) \<and> or0 (current_replicas_view s) = or0 (spec_replicas s)"

definition deployment_available :: "'k api \<Rightarrow> string \<Rightarrow> string \<Rightarrow> ('k world, bool) act" where
  "deployment_available a ns nm =
     bindA (call (read_workload a Deployment nm ns)) (\<lambda>d. ret (deployment_is_available d))"

definition statefulset_ready :: "'k api \<Rightarrow> string \<Rightarrow> string \<Rightarrow> ('k world, bool) act" where
  "statefulset_ready a ns nm =
     bindA (call (read_workload a StatefulSet nm ns)) (\<lambda>s. ret (statefulset_is_ready s))"

subsection \<open>Polling\<close>

definition tolerate_api_errors :: "exn \<Rightarrow> ('w, 'a option) act" where
  "tolerate_api_errors e = (case e of ApiException _ \<Rightarrow> ret None | _ \<Rightarrow> raise e)"

fun poll :: "nat \<Rightarrow> 'k api \<Rightarrow> real \<Rightarrow> real \<Rightarrow> ('k world, 'a option) act \<Rightarrow> ('k world, 'a) act" where
  "poll 0 a deadline interval p = raise TimeoutError"
| "poll (Suc n) a deadline interval p =
     bindA (call (monotonic_clock a)) (\<lambda>t.
       if t < deadline
       then bindA (catchA p tolerate_api_errors) (\<lambda>v.
              case v of
                Some x \<Rightarrow> ret x
              | None \<Rightarrow> bindA (call (sleep_for a interval)) (\<lambda>_. poll n a deadline interval p))
       else raise TimeoutError)"

definition polls :: "real \<Rightarrow> real \<Rightarrow> nat" where
  "polls timeout interval = nat \<lceil>timeout / interval\<rceil> + 1"

definition wait_for :: "'k api \<Rightarrow> ('k world, 'a option) act \<Rightarrow> real \<Rightarrow> real \<Rightarrow> ('k world, 'a) act" where
  "wait_for a p timeout interval =
     bindA (call (monotonic_clock a)) (\<lambda>t. poll (polls timeout interval) a (t + timeout) interval p)"

definition truth :: "('w, bool) act \<Rightarrow> ('w, unit option) act" where
  "truth m = bindA m (\<lambda>b. ret (if b then Some () else None))"

definition wait_deployment_available :: "'k api \<Rightarrow> string \<Rightarrow> string \<Rightarrow> real \<Rightarrow> ('k world, unit) act" where
  "wait_deployment_available a ns nm timeout = wait_for a (truth (deployment_available a ns nm)) timeout 2"

definition wait_statefulset_ready :: "'k api \<Rightarrow> string \<Rightarrow> string \<Rightarrow> real \<Rightarrow> ('k world, unit) act" where
  "wait_statefulset_ready a ns nm timeout = wait_for a (truth (statefulset_ready a ns nm)) timeout 2"

subsection \<open>The guard only lets the local cluster through\<close>

lemma guard_ok_iff:
  "check_context_is_local context_name server_url = Inr () \<longleftrightarrow>
     context_name = ''kind-txplatform'' \<and> url_hostname server_url \<in> {''127.0.0.1'', ''localhost'', ''::1''}"
  by (simp add: check_context_is_local_def CONTEXT_def)

lemma rpartition_at: "c \<notin> set h \<Longrightarrow> snd (rpartition c (u @ c # h)) = h"
  by (simp add: rpartition_append)

lemma host_plain:
  assumes "set host \<inter> set ''/?#@[:%'' = {}" and "set rest \<subseteq> set '':0123456789''" and "rest = [] \<or> hd rest = CHR '':''"
    and "set user \<inter> set ''/?#'' = {}"
  shows "url_hostname (''https://'' @ user @ ''@'' @ host @ rest @ CHR ''/'' # path) = lower host"
proof -
  let ?url = "''https://'' @ user @ ''@'' @ host @ rest @ CHR ''/'' # path"
  have rest_chars: "c \<noteq> CHR ''/'' \<and> c \<noteq> CHR ''?'' \<and> c \<noteq> CHR ''#'' \<and> c \<noteq> CHR ''@'' \<and> c \<noteq> CHR ''[''" if "c \<in> set rest" for c
    using that assms(2) by auto
  have "strip_scheme ?url = drop 6 ?url"
    by (simp add: strip_scheme_def before_def after_def is_letter_def less_eq_char_def)
  then have rest_url: "strip_scheme ?url = ''//'' @ user @ ''@'' @ host @ rest @ CHR ''/'' # path" by simp
  have "takeWhile (\<lambda>c. c \<notin> set ''/?#'') (user @ ''@'' @ host @ rest @ CHR ''/'' # path) = user @ ''@'' @ host @ rest"
    using assms(1,4) rest_chars by (auto simp: takeWhile_append)
  then have net: "net_location ?url = user @ CHR ''@'' # host @ rest"
    unfolding net_location_def rest_url by simp
  have "CHR ''@'' \<notin> set (host @ rest)" using assms(1) rest_chars by auto
  then have info: "snd (rpartition CHR ''@'' (net_location ?url)) = host @ rest"
    unfolding net by (rule rpartition_at)
  have "CHR ''['' \<notin> set (host @ rest)" using assms(1) rest_chars by auto
  moreover have "before CHR '':'' (host @ rest) = host"
    using assms(1,3) by (cases rest) (auto simp: before_def takeWhile_append)
  moreover have "before CHR ''%'' host = host" "dropWhile (\<lambda>c. c \<noteq> CHR ''%'') host = []"
    using assms(1) by (auto simp: before_def takeWhile_eq_all_conv)
  ultimately show ?thesis unfolding url_hostname_def info Let_def by simp
qed



subsection \<open>The bound on the polls is never reached\<close>

text \<open>A clock that does not go back and on which sleeping takes at least the time it is asked for.\<close>

definition ticking :: "'k api \<Rightarrow> ('k \<Rightarrow> real) \<Rightarrow> bool" where
  "ticking a clk \<longleftrightarrow>
     (\<forall>k. \<exists>k'. monotonic_clock a k = (Inr (clk k), k') \<and> clk k \<le> clk k') \<and>
     (\<forall>d k. \<exists>k'. sleep_for a d k = (Inr (), k') \<and> clk k + d \<le> clk k')"

definition keeps_time :: "('k \<Rightarrow> real) \<Rightarrow> ('k world, 'a) act \<Rightarrow> bool" where
  "keeps_time clk m \<longleftrightarrow> (\<forall>w. clk (ext w) \<le> clk (ext (snd (m w))))"

lemma call_clock:
  "ticking a clk \<Longrightarrow> \<exists>w'. call (monotonic_clock a) w = (Inr (clk (ext w)), w') \<and> clk (ext w) \<le> clk (ext w')"
proof -
  assume "ticking a clk"
  then obtain k' where "monotonic_clock a (ext w) = (Inr (clk (ext w)), k')" "clk (ext w) \<le> clk k'"
    unfolding ticking_def by blast
  then show ?thesis by (simp add: call_def)
qed

lemma call_sleep:
  "ticking a clk \<Longrightarrow> \<exists>w'. call (sleep_for a d) w = (Inr (), w') \<and> clk (ext w) + d \<le> clk (ext w')"
proof -
  assume "ticking a clk"
  then obtain k' where "sleep_for a d (ext w) = (Inr (), k')" "clk (ext w) + d \<le> clk k'"
    unfolding ticking_def by blast
  then show ?thesis by (simp add: call_def)
qed

lemma keeps_time_tolerant:
  "keeps_time clk p \<Longrightarrow> keeps_time clk (catchA p tolerate_api_errors)"
  unfolding keeps_time_def catchA_def tolerate_api_errors_def
  by (auto split: prod.splits sum.splits exn.splits) (metis snd_conv)+

lemma poll_enough:
  assumes tick: "ticking a clk" and time: "keeps_time clk p" and pos: "0 < interval"
  shows "deadline - clk (ext w) \<le> real m * interval \<Longrightarrow> Suc m \<le> n \<Longrightarrow>
    poll n a deadline interval p w = poll (Suc m) a deadline interval p w"
proof (induction m arbitrary: w n)
  case 0
  then obtain n' where n: "n = Suc n'" by (cases n) auto
  obtain w' where "call (monotonic_clock a) w = (Inr (clk (ext w)), w')" using call_clock [OF tick] by blast
  with 0 show ?case unfolding n by (simp add: bindA_Inr)
next
  case (Suc m)
  then obtain n' where n: "n = Suc n'" "Suc m \<le> n'" by (cases n) auto
  obtain w1 where w1: "call (monotonic_clock a) w = (Inr (clk (ext w)), w1)" "clk (ext w) \<le> clk (ext w1)"
    using call_clock [OF tick] by blast
  let ?p = "catchA p tolerate_api_errors"
  obtain r w2 where w2: "?p w1 = (r, w2)" by (cases "?p w1")
  have later: "clk (ext w1) \<le> clk (ext w2)"
    using keeps_time_tolerant [OF time] w2 unfolding keeps_time_def by (metis snd_conv)
  obtain w3 where w3: "call (sleep_for a interval) w2 = (Inr (), w3)" "clk (ext w2) + interval \<le> clk (ext w3)"
    using call_sleep [OF tick] by blast
  have "deadline - clk (ext w3) \<le> real m * interval"
    using Suc.prems(1) w1(2) later w3(2) by (simp add: algebra_simps)
  from Suc.IH [OF this n(2)]
  have same: "poll n' a deadline interval p w3 = poll (Suc m) a deadline interval p w3" .
  show ?case
  proof (cases "clk (ext w) < deadline \<and> r = Inr None")
    case True
    then show ?thesis
      unfolding n poll.simps(2) [of "Suc m"] poll.simps(2) [of n']
      by (simp add: bindA_apply w1(1) w2 w3(1) same del: poll.simps)
  next
    case False
    then show ?thesis
      unfolding n poll.simps(2) [of "Suc m"] poll.simps(2) [of n']
      by (auto simp: bindA_apply w1(1) w2 simp del: poll.simps split: sum.splits option.splits)
  qed
qed

text \<open>
  Property C40. On a clock that keeps time the bound on the number of polls does not matter: with any
  larger bound \<open>wait_for\<close> ends the same way, so it ends because the predicate gave a value, because it
  raised, or because the deadline has passed.
\<close>

theorem wait_for_enough_polls:
  assumes "ticking a clk" and "keeps_time clk p" and "0 < interval" and "polls timeout interval \<le> n"
  shows "bindA (call (monotonic_clock a)) (\<lambda>t. poll n a (t + timeout) interval p) w = wait_for a p timeout interval w"
proof -
  obtain w1 where w1: "call (monotonic_clock a) w = (Inr (clk (ext w)), w1)" "clk (ext w) \<le> clk (ext w1)"
    using call_clock [OF assms(1)] by blast
  have "timeout / interval \<le> real (nat \<lceil>timeout / interval\<rceil>)" by linarith
  then have "timeout \<le> real (nat \<lceil>timeout / interval\<rceil>) * interval"
    using assms(3) by (simp add: pos_divide_le_eq)
  then have "clk (ext w) + timeout - clk (ext w1) \<le> real (nat \<lceil>timeout / interval\<rceil>) * interval"
    using w1(2) by linarith
  from poll_enough [OF assms(1-3) this, of n] assms(4)
  have same: "poll n a (clk (ext w) + timeout) interval p w1 =
      poll (polls timeout interval) a (clk (ext w) + timeout) interval p w1"
    by (simp only: polls_def Suc_eq_plus1)
  show ?thesis
    unfolding wait_for_def bindA_apply w1(1) prod.case sum.case by (rule same)
qed

text \<open>A cluster that does nothing but keep time, for the witnesses.\<close>

definition quiet_api :: "real api" where
  "quiet_api =
     \<lparr>read_workload = (\<lambda>_ _ _. raise (ApiException 404)), list_pods = (\<lambda>_ _. ret []),
      read_pod_uid = (\<lambda>_ _. raise (ApiException 404)), delete_pod_call = (\<lambda>_ _. raise (ApiException 404)),
      patch_restart = (\<lambda>_ _ _ _. raise (ApiException 404)), patch_scale = (\<lambda>_ _ _ _. raise (ApiException 404)),
      http = (\<lambda>_ _ _ _ _. raise HTTPError), fetch_token = (\<lambda>_. raise HTTPError),
      traffic_network = ret (\<lambda>_ _ _ _. (Inl [], 0, 0), \<lambda>_. Inl HTTPError),
      read_lease = raise (ApiException 404), create_lease = (\<lambda>_. ret ()), replace_lease = (\<lambda>_. ret ()),
      delete_lease = ret (), own_identity = ''host/1'', wall_clock = getW id, monotonic_clock = getW id,
      time_stamp = ret ''20250101T000000Z'', utc_text = (\<lambda>_. ''2025-01-01T00:00:00Z''),
      random_bytes = ret [0, 0], sleep_for = (\<lambda>d. modW (\<lambda>t. t + max 0 d))\<rparr>"

lemma quiet_ticks: "ticking quiet_api id"
  by (simp add: ticking_def quiet_api_def)

definition empty_world :: "'k \<Rightarrow> 'k world" where
  "empty_world k = \<lparr>ext = k, journal_files = [], record_files = [], active = new_record [] [] [], trail = []\<rparr>"

theorem wait_for_enough_polls_witness:
  "bindA (call (monotonic_clock quiet_api))
     (\<lambda>t. poll 1000 quiet_api (t + 300) 2 (truth (deployment_available quiet_api ''ns'' ''d''))) (empty_world 0) =
   wait_for quiet_api (truth (deployment_available quiet_api ''ns'' ''d'')) 300 2 (empty_world 0)"
proof (rule wait_for_enough_polls [OF quiet_ticks])
  show "keeps_time id (truth (deployment_available quiet_api ''ns'' ''d''))"
    by (simp add: keeps_time_def truth_def deployment_available_def quiet_api_def bindA_apply call_def)
  show "polls 300 2 \<le> 1000" by (simp add: polls_def)
qed simp

end
