(* ===== verification/Jaeger.thy ===== *)
theory Jaeger
  imports Kube Traces
begin

section \<open>The Jaeger Query API (jaeger.py)\<close>

text \<open>
  The client of the Query API over the world's HTTP calls. \<open>wait_for_trace\<close> polls like \<open>wait_for\<close>, with
  the same bound on the number of polls, but errors end it and the last trace seen is its result when
  the time is up.
\<close>

definition jaeger_get :: "'k api \<Rightarrow> string \<Rightarrow> (string, string) dict \<Rightarrow> ('k world, http_response) act" where
  "jaeger_get a path params = call (http a JaegerPort ''GET'' path params None)"

definition documents :: "http_response \<Rightarrow> pyval result" where
  "documents r = (case resp_documents r of None \<Rightarrow> Inl ValueError | Some ds \<Rightarrow> Inr (PList ds))"

definition traces_in :: "http_response \<Rightarrow> trace list result" where
  "traces_in r =
     bindE (raise_for_status r) (\<lambda>r'. bindE (documents r') (\<lambda>ds. bindE (parse_spans ds) (\<lambda>ss. Inr (group_traces ss))))"

definition get_trace :: "'k api \<Rightarrow> string \<Rightarrow> ('k world, trace option) act" where
  "get_trace a tid =
     bindA (jaeger_get a (''/api/v3/traces/'' @ tid) []) (\<lambda>response.
       if resp_status response = 404 then ret None
       else liftE (bindE (traces_in response) (\<lambda>found. Inr (first_such (\<lambda>t. trace_id t = tid) found))))"

fun trace_poll ::
  "nat \<Rightarrow> 'k api \<Rightarrow> string \<Rightarrow> (trace \<Rightarrow> bool) \<Rightarrow> real \<Rightarrow> real \<Rightarrow> trace option \<Rightarrow> ('k world, trace option) act" where
  "trace_poll 0 a tid until_ok deadline interval latest = ret latest"
| "trace_poll (Suc n) a tid until_ok deadline interval latest =
     bindA (call (monotonic_clock a)) (\<lambda>t.
       if t < deadline
       then bindA (get_trace a tid) (\<lambda>found.
              case found of
                Some tr \<Rightarrow>
                  if until_ok tr then ret (Some tr)
                  else bindA (call (sleep_for a interval)) (\<lambda>_. trace_poll n a tid until_ok deadline interval (Some tr))
              | None \<Rightarrow> bindA (call (sleep_for a interval)) (\<lambda>_. trace_poll n a tid until_ok deadline interval None))
       else ret latest)"

definition wait_for_trace :: "'k api \<Rightarrow> string \<Rightarrow> real \<Rightarrow> (trace \<Rightarrow> bool) \<Rightarrow> ('k world, trace option) act" where
  "wait_for_trace a tid timeout until_ok =
     bindA (call (monotonic_clock a)) (\<lambda>t. trace_poll (polls timeout 2) a tid until_ok (t + timeout) 2 None)"

definition find_params ::
  "'k api \<Rightarrow> string \<Rightarrow> real \<Rightarrow> real \<Rightarrow> (string, string) dict \<Rightarrow> string \<Rightarrow> nat \<Rightarrow> (string, string) dict" where
  "find_params a svc from_time until_time wanted operation limit =
     [(''query.serviceName'', svc), (''query.startTimeMin'', utc_text a from_time),
      (''query.startTimeMax'', utc_text a until_time), (''query.searchDepth'', show_nat limit)]
     @ (if operation \<noteq> [] then [(''query.operationName'', operation)] else [])
     @ (if wanted \<noteq> [] then [(''query.attributes'', json_dumps (PDict (map (\<lambda>(k, v). (k, PStr v)) wanted)))] else [])"

definition find_traces ::
  "'k api \<Rightarrow> string \<Rightarrow> real \<Rightarrow> real \<Rightarrow> (string, string) dict \<Rightarrow> string \<Rightarrow> nat \<Rightarrow> ('k world, trace list) act" where
  "find_traces a svc from_time until_time wanted operation limit =
     bindA (jaeger_get a ''/api/v3/traces'' (find_params a svc from_time until_time wanted operation limit)) (\<lambda>response.
       if resp_status response = 404 then ret [] else liftE (traces_in response))"

definition known_services :: "'k api \<Rightarrow> ('k world, pyval list) act" where
  "known_services a =
     bindA (jaeger_get a ''/api/v3/services'' []) (\<lambda>response.
     liftE (bindE (raise_for_status response) (\<lambda>r. bindE (json_of r) (\<lambda>v.
       bindE (py_get v ''services'' (PList [])) py_iter))))"

definition operations :: "'k api \<Rightarrow> string \<Rightarrow> ('k world, pyval list) act" where
  "operations a svc =
     bindA (jaeger_get a ''/api/v3/operations'' [(''service'', svc)]) (\<lambda>response.
     liftE (bindE (raise_for_status response) (\<lambda>r. bindE (json_of r) (\<lambda>v.
       bindE (bindE (py_get v ''operations'' (PList [])) py_iter)
         (mapE (\<lambda>op. py_get op ''name'' (PStr []))))))) "

lemma get_trace_id:
  "get_trace a tid w = (Inr (Some t), w') \<Longrightarrow> trace_id t = tid"
  by (auto simp: get_trace_def bindA_apply bindE_Inr_iff dest!: first_such_SomeD
    split: prod.splits sum.splits if_splits)

lemma trace_poll_id:
  "trace_poll n a tid until_ok deadline interval latest w = (Inr (Some t), w') \<Longrightarrow>
   (\<And>l. latest = Some l \<Longrightarrow> trace_id l = tid) \<Longrightarrow> trace_id t = tid"
proof (induction n arbitrary: latest w)
  case (Suc n)
  then show ?case
    by (auto simp: bindA_apply dest: get_trace_id split: prod.splits sum.splits if_splits option.splits)
qed simp

text \<open>What polling returns is the trace that was asked for, complete or not.\<close>

lemma wait_for_trace_id: "wait_for_trace a tid timeout until_ok w = (Inr (Some t), w') \<Longrightarrow> trace_id t = tid"
  by (auto simp: wait_for_trace_def bindA_apply dest!: trace_poll_id split: prod.splits sum.splits)

end
