(* ===== verification/Prometheus.thy ===== *)
theory Prometheus
  imports Kube
begin

section \<open>The Prometheus HTTP API (prometheus.py)\<close>

text \<open>
  Selectors that match a metric name with or without the \<open>_total\<close> suffix, the parser of instant
  vectors, and the queries built on it. Sample values are exact reals.
\<close>

record sample =
  sample_labels :: attrs
  sample_value :: real

definition quoted :: "string \<Rightarrow> string" where
  "quoted s = CHR 0x22 # s @ [CHR 0x22]"

definition metric_selector :: "string \<Rightarrow> (string, string) dict \<Rightarrow> string" where
  "metric_selector nm labels =
     ''{'' @ join '','' ((''__name__=~'' @ quoted (removesuffix ''_total'' nm @ ''(_total)?''))
       # map (\<lambda>(k, v). k @ CHR ''='' # quoted v) labels) @ ''}''"

text \<open>\<open>item["value"][1]\<close>.\<close>

definition second_item :: "pyval \<Rightarrow> pyval result" where
  "second_item v = (case v of
     PList (_ # y # _) \<Rightarrow> Inr y
   | PList _ \<Rightarrow> Inl IndexError
   | PStr (_ # c # _) \<Rightarrow> Inr (PStr [c])
   | PStr _ \<Rightarrow> Inl IndexError
   | PDict _ \<Rightarrow> Inl (KeyError ''1'')
   | _ \<Rightarrow> Inl TypeError)"

definition parse_sample :: "pyval \<Rightarrow> sample result" where
  "parse_sample item =
     bindE (py_item item ''metric'') (\<lambda>m.
     bindE (case m of PDict d \<Rightarrow> Inr d | _ \<Rightarrow> Inl TypeError) (\<lambda>labels.
     bindE (bindE (bindE (py_item item ''value'') second_item) py_float) (\<lambda>v.
     Inr \<lparr>sample_labels = labels, sample_value = v\<rparr>)))"

definition parse_vector :: "pyval \<Rightarrow> sample list result" where
  "parse_vector payload =
     bindE (py_get payload ''status'' PNone) (\<lambda>st.
       if st \<noteq> PStr ''success'' then Inl RuntimeError
       else bindE (bindE (bindE (py_item payload ''data'') (\<lambda>d. py_item d ''result'')) py_iter)
              (mapE parse_sample))"

definition prom_query :: "'k api \<Rightarrow> string \<Rightarrow> ('k world, sample list) act" where
  "prom_query a expression =
     bindA (call (http a PrometheusPort ''GET'' ''/api/v1/query'' [(''query'', expression)] None)) (\<lambda>response.
     liftE (bindE (raise_for_status response) (\<lambda>r. bindE (json_of r) parse_vector)))"

definition total :: "'k api \<Rightarrow> string \<Rightarrow> ('k world, real) act" where
  "total a expression = bindA (prom_query a expression) (\<lambda>samples. ret (sum_list (map sample_value samples)))"

definition targets :: "'k api \<Rightarrow> ('k world, pyval) act" where
  "targets a =
     bindA (call (http a PrometheusPort ''GET'' ''/api/v1/targets'' [] None)) (\<lambda>response.
     liftE (bindE (raise_for_status response) (\<lambda>r. bindE (json_of r) (\<lambda>v.
       bindE (py_item v ''data'') (\<lambda>d. py_item d ''activeTargets'')))))"

definition max_over :: "'k api \<Rightarrow> string \<Rightarrow> real \<Rightarrow> ('k world, real) act" where
  "max_over a sel seconds =
     bindA (prom_query a (''max_over_time('' @ sel @ CHR ''['' # show_int (trunc seconds) @ ''s])'')) (\<lambda>samples.
     ret (max_default 0 (map sample_value samples)))"

definition current_label_names :: "'k api \<Rightarrow> string \<Rightarrow> ('k world, string list) act" where
  "current_label_names a sel =
     bindA (prom_query a sel) (\<lambda>samples. ret (sorted_set (concat (map (\<lambda>s. dict_keys (sample_labels s)) samples))))"

lemma metric_selector_suffix:
  "\<not> suffix ''_total'' nm \<Longrightarrow> metric_selector (nm @ ''_total'') labels = metric_selector nm labels"
  using suffixI [of "nm @ ''_total''" nm "''_total''"] by (simp add: metric_selector_def removesuffix_def)

end
