(* ===== verification/Contracts.thy ===== *)
theory Contracts
  imports TraceLaws Jaeger Prometheus
begin

section \<open>Telemetry contracts (scenarios/contracts.py)\<close>

text \<open>
  What the traces and the trace-derived metrics of each scenario must show. \<open>ctx\<close> holds the
  problems, subjects and notes a contract collects by the name of the check; the scenario's record and
  parameters are fixed in \<open>env\<close>. A contract is an action that returns the new context. Times and metric
  values are exact reals. A problem found by a contract itself is a \<open>ContractProblem\<close> with the fixed part
  of its message and the values it shows.
\<close>

definition DECISION_DELAY_SECONDS :: real where "DECISION_DELAY_SECONDS = 35"
definition METRICS_SETTLE_SECONDS :: real where "METRICS_SETTLE_SECONDS = 45"

definition ALL_SERVICES :: "string list" where
  "ALL_SERVICES = EDGE_SERVICE # DOTNET_SERVICES"

definition FULL_PATH :: "string list" where
  "FULL_PATH = [''InventoryReserved'', ''PaymentAuthorized'', ''ShipmentCreated'', ''Completed'']"

definition calls :: "(string, string) dict \<Rightarrow> string" where
  "calls labels = metric_selector ''traces_span_metrics_calls'' labels"

definition METRICS :: "(string, string) dict" where
  "METRICS =
     [(''kong_429'', calls [(''service_name'', ''kong-gateway''), (''span_name'', ''kong''), (''http_response_status_code'', ''429'')]),
      (''kong_413'', calls [(''service_name'', ''kong-gateway''), (''span_name'', ''kong''), (''http_response_status_code'', ''413'')]),
      (''order_posts'', calls [(''service_name'', ''order-service''), (''span_name'', ''POST /orders''), (''span_kind'', ''SPAN_KIND_SERVER'')]),
      (''order_401'', calls [(''service_name'', ''order-service''), (''span_name'', ''POST /orders''), (''span_kind'', ''SPAN_KIND_SERVER''), (''http_response_status_code'', ''401'')]),
      (''order_403'', calls [(''service_name'', ''order-service''), (''span_name'', ''POST /orders''), (''span_kind'', ''SPAN_KIND_SERVER''), (''http_response_status_code'', ''403'')]),
      (''order_errors'', calls [(''service_name'', ''order-service''), (''span_kind'', ''SPAN_KIND_SERVER''), (''status_code'', ''STATUS_CODE_ERROR'')]),
      (''inventory_calls'', calls [(''service_name'', ''inventory-service''), (''span_kind'', ''SPAN_KIND_SERVER'')]),
      (''dropped_too_early'', metric_selector ''otelcol_processor_tail_sampling_sampling_trace_dropped_too_early'' []),
      (''refused_spans'', metric_selector ''otelcol_receiver_refused_spans'' [])]"

definition STORAGE_QUEUE_SIZE :: string where
  "STORAGE_QUEUE_SIZE = metric_selector ''otelcol_exporter_queue_size'' [(''exporter'', ''jaeger_storage_exporter'')]"

definition STORAGE_QUEUE_CAPACITY :: string where
  "STORAGE_QUEUE_CAPACITY = metric_selector ''otelcol_exporter_queue_capacity'' [(''exporter'', ''jaeger_storage_exporter'')]"

subsection \<open>The context\<close>

record ctx =
  ctx_problems :: "(string, (string \<times> problem) list) dict"
  ctx_subjects :: "(string, string list) dict"
  ctx_notes :: "(string, string list) dict"

record env =
  env_record :: run_record
  env_parameters :: attrs

definition check_in :: "string \<Rightarrow> problem list \<Rightarrow> string \<Rightarrow> ctx \<Rightarrow> ctx" where
  "check_in nm ps subj c =
     (let bucket = (case dict_get (ctx_problems c) nm of None \<Rightarrow> [] | Some b \<Rightarrow> b);
          c' = c\<lparr>ctx_problems := dict_put nm (bucket @ map (\<lambda>p. (subj, p)) ps) (ctx_problems c)\<rparr>
      in if subj = [] then c' else c'\<lparr>ctx_subjects := dict_append nm subj (ctx_subjects c')\<rparr>)"

definition note_in :: "string \<Rightarrow> string \<Rightarrow> ctx \<Rightarrow> ctx" where
  "note_in nm subj c = c\<lparr>ctx_notes := dict_append nm subj (ctx_notes c)\<rparr>"

definition requests_with :: "env \<Rightarrow> int option \<Rightarrow> request_record list" where
  "requests_with e st = filter (\<lambda>r. case st of None \<Rightarrow> True | Some s \<Rightarrow> req_status r = s) (run_requests (env_record e))"

definition param_float :: "env \<Rightarrow> string \<Rightarrow> real \<Rightarrow> real result" where
  "param_float e nm dflt = (case dict_get (env_parameters e) nm of None \<Rightarrow> Inr dflt | Some v \<Rightarrow> py_float v)"

definition trace_for :: "'k api \<Rightarrow> request_record \<Rightarrow> string list \<Rightarrow> ('k world, trace option) act" where
  "trace_for a request required =
     (if req_trace_id request = [] then ret None
      else wait_for_trace a (req_trace_id request) 60 (\<lambda>t. set required \<subseteq> services t))"

definition metric_delta :: "'k api \<Rightarrow> env \<Rightarrow> string \<Rightarrow> ('k world, real) act" where
  "metric_delta a e key =
     bindA (liftE (case dict_get METRICS key of None \<Rightarrow> Inl (KeyError key) | Some m \<Rightarrow> Inr m)) (\<lambda>m.
     bindA (total a m) (\<lambda>v.
     ret (v - (case dict_get (metrics_before (env_record e)) key of None \<Rightarrow> 0 | Some b \<Rightarrow> b))))"

fun delta_poll :: "nat \<Rightarrow> 'k api \<Rightarrow> env \<Rightarrow> string \<Rightarrow> real \<Rightarrow> real \<Rightarrow> real \<Rightarrow> ('k world, real) act" where
  "delta_poll 0 a e key expected deadline delta = ret delta"
| "delta_poll (Suc n) a e key expected deadline delta =
     (if delta < expected
      then bindA (call (monotonic_clock a)) (\<lambda>t.
             if t < deadline
             then bindA (call (sleep_for a 5)) (\<lambda>_. bindA (metric_delta a e key) (\<lambda>d.
                    delta_poll n a e key expected deadline d))
             else ret delta)
      else ret delta)"

definition wait_metric_delta :: "'k api \<Rightarrow> env \<Rightarrow> string \<Rightarrow> real \<Rightarrow> real \<Rightarrow> ('k world, real) act" where
  "wait_metric_delta a e key expected timeout =
     bindA (call (monotonic_clock a)) (\<lambda>t. bindA (metric_delta a e key) (\<lambda>d.
       delta_poll (polls timeout 5) a e key expected (t + timeout) d))"

subsection \<open>Shared parts\<close>

definition or_text :: "string \<Rightarrow> string \<Rightarrow> string" where
  "or_text s t = (if s = [] then t else s)"

definition stored_traces ::
  "'k api \<Rightarrow> request_record list \<Rightarrow> string list \<Rightarrow> string \<Rightarrow> ctx \<Rightarrow>
   ('k world, (request_record \<times> trace) list \<times> ctx) act" where
  "stored_traces a rs required nm c0 =
     foldA (\<lambda>(found, c) request.
       bindA (trace_for a request required) (\<lambda>t.
         case t of
           Some tr \<Rightarrow>
             if set required \<subseteq> services tr then ret (found @ [(request, tr)], c)
             else ret (found, check_in nm [TraceNotStored] (or_text (req_trace_id request) (correlation_id request)) c)
         | None \<Rightarrow> ret (found, check_in nm [TraceNotStored] (or_text (req_trace_id request) (correlation_id request)) c)))
       ([], c0) rs"

definition KONG_GAP_NOTE :: string where
  "KONG_GAP_NOTE = ''gateway span gap (known Kong 3.9 limitation)''"

text \<open>One check on a trace, entered in the context under its name; the check may raise.\<close>

definition enter :: "string \<Rightarrow> problem list result \<Rightarrow> trace \<Rightarrow> ctx \<Rightarrow> ctx result" where
  "enter nm r t c = bindE r (\<lambda>ps. Inr (check_in nm ps (trace_id t) c))"

definition common_checks :: "env \<Rightarrow> request_record \<Rightarrow> trace \<Rightarrow> ctx \<Rightarrow> ctx result" where
  "common_checks e request t c =
     (let rid = run_ident (env_record e) in
      bindE (enter ''trace integrity'' (integrity t) t c) (\<lambda>c1.
      bindE (gateway_span_gaps t) (\<lambda>gaps.
      let c2 = (if gaps \<noteq> [] then note_in KONG_GAP_NOTE (trace_id t) c1 else c1) in
      bindE (enter ''kubernetes metadata'' (Inr (kubernetes_metadata t)) t c2) (\<lambda>c3.
      bindE (enter ''correlation'' (correlation t request rid) t c3) (\<lambda>c4.
      enter ''sensitive data'' (Inr (sensitive_data t [canary rid])) t c4)))))"

text \<open>The checks of a contract on every stored trace, one trace after the other.\<close>

definition on_traces ::
  "(request_record \<Rightarrow> trace \<Rightarrow> ctx \<Rightarrow> ctx result) \<Rightarrow> (request_record \<times> trace) list \<Rightarrow> ctx \<Rightarrow> ctx result" where
  "on_traces f found c = foldE (\<lambda>c (request, t). f request t c) c found"

definition per_trace ::
  "'k api \<Rightarrow> (request_record \<Rightarrow> trace \<Rightarrow> ctx \<Rightarrow> ctx result) \<Rightarrow> request_record list \<Rightarrow> string list \<Rightarrow> string \<Rightarrow>
   ctx \<Rightarrow> ('k world, ctx) act" where
  "per_trace a f rs required nm c =
     bindA (stored_traces a rs required nm c) (\<lambda>(found, c'). liftE (on_traces f found c'))"

subsection \<open>Order scenarios\<close>

definition normal_order_checks :: "env \<Rightarrow> request_record \<Rightarrow> trace \<Rightarrow> ctx \<Rightarrow> ctx result" where
  "normal_order_checks e request t c =
     bindE (common_checks e request t c) (\<lambda>c1.
     bindE (enter ''topology'' (Inr (topology t ALL_SERVICES [])) t c1) (\<lambda>c2.
     bindE (enter ''stage order'' (Inr (stage_order t)) t c2) (\<lambda>c3.
     bindE (enter ''state events'' (state_path t FULL_PATH) t c3) (\<lambda>c4.
     enter ''error marking'' (Inr (error_marking t False)) t c4))))"

definition normal_order :: "'k api \<Rightarrow> env \<Rightarrow> ctx \<Rightarrow> ('k world, ctx) act" where
  "normal_order a e c =
     per_trace a (normal_order_checks e) (requests_with e (Some 201)) ALL_SERVICES ''traces kept'' c"

definition slow_payment_checks :: "env \<Rightarrow> request_record \<Rightarrow> trace \<Rightarrow> ctx \<Rightarrow> ctx result" where
  "slow_payment_checks e request t c =
     bindE (common_checks e request t c) (\<lambda>c1.
     bindE (param_float e ''minShare'' (6 / 10)) (\<lambda>share.
     bindE (param_float e ''minTraceMs'' 1000) (\<lambda>ms.
     bindE (enter ''latency attribution'' (latency_dominance t ''payment.authorize'' share ms) t c1) (\<lambda>c2.
     enter ''state events'' (state_path t FULL_PATH) t c2))))"

definition slow_payment :: "'k api \<Rightarrow> env \<Rightarrow> ctx \<Rightarrow> ('k world, ctx) act" where
  "slow_payment a e c =
     per_trace a (slow_payment_checks e) (requests_with e (Some 201)) ALL_SERVICES ''slow traces kept without debug'' c"

definition payment_retry_checks :: "env \<Rightarrow> request_record \<Rightarrow> trace \<Rightarrow> ctx \<Rightarrow> ctx result" where
  "payment_retry_checks e request t c =
     bindE (common_checks e request t c) (\<lambda>c1.
     bindE (enter ''retry attempts'' (Inr (retries t ''payment.authorize'' 2)) t c1) (\<lambda>c2.
     bindE (enter ''idempotent replay'' (Inr (idempotent_replay t)) t c2) (\<lambda>c3.
     bindE (enter ''accumulated latency'' (latency_dominance t ''payment.authorize'' (5 / 10) 1500) t c3) (\<lambda>c4.
     enter ''state events'' (state_path t FULL_PATH) t c4))))"

definition payment_retry :: "'k api \<Rightarrow> env \<Rightarrow> ctx \<Rightarrow> ('k world, ctx) act" where
  "payment_retry a e c =
     per_trace a (payment_retry_checks e) (requests_with e (Some 201)) ALL_SERVICES ''retried traces kept'' c"

record failed_flow =
  ff_status :: int
  ff_path :: "string list"
  ff_required :: "string list"
  ff_forbidden :: "string list"
  ff_stages :: "string list"
  ff_forbidden_stages :: "string list"
  ff_technical :: bool
  ff_retried :: "(string \<times> int) option"

definition failed_flow_checks :: "env \<Rightarrow> failed_flow \<Rightarrow> request_record \<Rightarrow> trace \<Rightarrow> ctx \<Rightarrow> ctx result" where
  "failed_flow_checks e f request t c =
     bindE (common_checks e request t c) (\<lambda>c1.
     bindE (enter ''topology'' (Inr (topology t (ff_required f) (ff_forbidden f))) t c1) (\<lambda>c2.
     bindE (enter ''stages'' (Inr (stages_present t (ff_stages f) (ff_forbidden_stages f))) t c2) (\<lambda>c3.
     bindE (enter ''stage order'' (Inr (stage_order t)) t c3) (\<lambda>c4.
     bindE (enter ''state events'' (state_path t (ff_path f)) t c4) (\<lambda>c5.
     bindE (enter ''error marking'' (Inr (error_marking t (ff_technical f))) t c5) (\<lambda>c6.
     case ff_retried f of
       None \<Rightarrow> Inr c6
     | Some (stage, n) \<Rightarrow> enter ''retry attempts'' (Inr (retries t stage n)) t c6))))))"

definition failed_flow_contract :: "failed_flow \<Rightarrow> 'k api \<Rightarrow> env \<Rightarrow> ctx \<Rightarrow> ('k world, ctx) act" where
  "failed_flow_contract f a e c =
     (let rs = requests_with e (Some (ff_status f));
          c' = (if rs = [] then check_in ''traces kept'' [ContractProblem ''no request ended with status'' [PInt (ff_status f)]] [] c
                else c)
      in per_trace a (failed_flow_checks e f) rs (ff_required f) ''failure traces kept'' c')"

definition payment_timeout :: failed_flow where
  "payment_timeout = \<lparr>ff_status = 504, ff_path = [''InventoryReserved'', ''PaymentFailed''],
     ff_required = [''kong-gateway'', ''order-service'', ''inventory-service'', ''fraud-service'', ''payment-service''],
     ff_forbidden = [''shipping-service''],
     ff_stages = [''payment.authorize'', ''compensation.payment.void'', ''compensation.inventory.release''],
     ff_forbidden_stages = [''shipping.create''], ff_technical = True, ff_retried = Some (''payment.authorize'', 3)\<rparr>"

definition inventory_failure :: failed_flow where
  "inventory_failure = \<lparr>ff_status = 502, ff_path = [''InventoryFailed''],
     ff_required = [''kong-gateway'', ''order-service'', ''inventory-service'', ''fraud-service''],
     ff_forbidden = [''payment-service'', ''shipping-service''],
     ff_stages = [''inventory.reserve'', ''fraud.evaluate''],
     ff_forbidden_stages = [''payment.authorize'', ''shipping.create''], ff_technical = True, ff_retried = None\<rparr>"

definition fraud_rejection :: failed_flow where
  "fraud_rejection = \<lparr>ff_status = 422, ff_path = [''FraudFailed''],
     ff_required = [''kong-gateway'', ''order-service'', ''inventory-service'', ''fraud-service''],
     ff_forbidden = [''payment-service'', ''shipping-service''],
     ff_stages = [''fraud.evaluate'', ''compensation.inventory.release''],
     ff_forbidden_stages = [''payment.authorize'', ''shipping.create''], ff_technical = False, ff_retried = None\<rparr>"

definition shipping_failure :: failed_flow where
  "shipping_failure = \<lparr>ff_status = 502, ff_path = [''InventoryReserved'', ''PaymentAuthorized'', ''ShippingFailed''],
     ff_required = ALL_SERVICES, ff_forbidden = [],
     ff_stages = [''shipping.create'', ''compensation.payment.void'', ''compensation.inventory.release''],
     ff_forbidden_stages = [], ff_technical = True, ff_retried = None\<rparr>"

definition dependency_checks :: "env \<Rightarrow> request_record \<Rightarrow> trace \<Rightarrow> ctx \<Rightarrow> ctx result" where
  "dependency_checks e request t c =
     bindE (common_checks e request t c) (\<lambda>c1.
     let stage = named t ''shipping.create'';
         ps = require (case stage of [] \<Rightarrow> False | s # _ \<Rightarrow> attr (span_attrs s) ''failure.kind'' = PStr ''timeout'')
                (ContractProblem ''shipping.create is not marked as a timeout'' [])
            @ require (by_service t ''shipping-service'' (Some ''SERVER'') = [])
                (ContractProblem ''a ShippingService span exists although no replica was running'' [])
     in bindE (enter ''missing dependency visible'' (Inr ps) t c1) (\<lambda>c2.
     bindE (enter ''retry attempts'' (Inr (retries t ''shipping.create'' 3)) t c2) (\<lambda>c3.
     enter ''stages'' (Inr (stages_present t [''compensation.payment.void'', ''compensation.inventory.release''] [])) t c3)))"

definition dependency_unavailable :: "'k api \<Rightarrow> env \<Rightarrow> ctx \<Rightarrow> ('k world, ctx) act" where
  "dependency_unavailable a e c =
     (let rs = requests_with e (Some 504);
          c' = (if rs = [] then check_in ''missing dependency visible''
                   [ContractProblem ''no order failed with 504 while Shipping had no replica'' []] [] c else c)
      in per_trace a (dependency_checks e) rs [''kong-gateway'', ''order-service'', ''payment-service''] ''failure traces kept'' c')"

subsection \<open>Kubernetes scenarios\<close>

text \<open>Building a set of values raises for values that cannot be members of one.\<close>

definition as_set :: "pyval list \<Rightarrow> pyval list result" where
  "as_set vs = (if \<forall>v \<in> set vs. hashable v then Inr vs else Inl TypeError)"

definition retained_by_window :: "'k api \<Rightarrow> env \<Rightarrow> string \<Rightarrow> ('k world, trace list) act" where
  "retained_by_window a e svc =
     (let r = env_record e in
      bindA (find_traces a svc (workload_started_at r - 5) (workload_finished_at r + 60)
               [(''scenario.run_id'', run_ident r)] [] 1000) (\<lambda>found.
      ret (filter (\<lambda>t. \<exists>s \<in> set (spans t). attr (span_attrs s) ''scenario.run_id'' = PStr (run_ident r)) found)))"

definition server_spans :: "string \<Rightarrow> trace list \<Rightarrow> span list" where
  "server_spans svc ts = concat (map (\<lambda>t. by_service t svc (Some ''SERVER'')) ts)"

definition pod_of :: "span \<Rightarrow> pyval" where
  "pod_of s = attr (span_resource s) ''k8s.pod.name''"

definition opt_text :: "string option \<Rightarrow> pyval" where
  "opt_text v = (case v of None \<Rightarrow> PNone | Some s \<Rightarrow> PStr s)"

definition pod_deletion :: "'k api \<Rightarrow> env \<Rightarrow> ctx \<Rightarrow> ('k world, ctx) act" where
  "pod_deletion a e c =
     (let deleted = opt_text (case first_such (\<lambda>ev. ev_action ev = DeletePod) (kubernetes_events (env_record e)) of
            None \<Rightarrow> None | Some ev \<Rightarrow> ev_pod ev)
      in bindA (retained_by_window a e ''payment-service'') (\<lambda>ts.
         bindA (liftE (as_set (map pod_of (server_spans ''payment-service'' ts)))) (\<lambda>pods.
         let ps = require (\<exists>p \<in> set pods. py_eq deleted p) (ContractProblem ''no kept trace shows the deleted pod'' [deleted])
              @ require (\<exists>p \<in> set pods. \<not> py_eq p deleted) (ContractProblem ''no kept trace shows the replacement pod'' [])
         in per_trace a (common_checks e) (filter (\<lambda>r. req_status r \<in> {503, 504}) (requests_with e None))
              [''order-service''] ''failure traces kept'' (check_in ''workload attribution'' ps [] c))))"

definition no_new_errors :: "'k api \<Rightarrow> env \<Rightarrow> string \<Rightarrow> ctx \<Rightarrow> ('k world, ctx) act" where
  "no_new_errors a e nm c =
     bindA (call (sleep_for a METRICS_SETTLE_SECONDS)) (\<lambda>_.
     bindA (metric_delta a e ''order_errors'') (\<lambda>errors.
     ret (check_in nm (require (errors = 0) (ContractProblem ''OrderService error spans during the run'' [PFloat errors])) [] c)))"

definition rolling_restart :: "'k api \<Rightarrow> env \<Rightarrow> ctx \<Rightarrow> ('k world, ctx) act" where
  "rolling_restart a e c =
     bindA (no_new_errors a e ''no errors during the rollout'' c) (\<lambda>c1.
     let replaced = map PStr (case first_such (\<lambda>ev. ev_action ev = RolloutRestart) (kubernetes_events (env_record e)) of
           None \<Rightarrow> [] | Some ev \<Rightarrow> (case ev_pods_before ev of None \<Rightarrow> [] | Some pods \<Rightarrow> pods))
     in bindA (retained_by_window a e ''fraud-service'') (\<lambda>ts.
        let pods = map pod_of (sort_key start_unix_nano (server_spans ''fraud-service'' ts))
        in bindA (if pods = [] \<or> replaced = []
             then ret [ContractProblem ''cannot compare pods'' [PInt (int (length pods))]]
             else if hashable (hd pods) \<and> hashable (last pods)
             then ret (require (hd pods \<in> set replaced) (ContractProblem ''the first requests were served by another pod'' [hd pods])
                   @ require (last pods \<notin> set replaced) (ContractProblem ''the last requests were still served by the replaced pod'' [last pods]))
             else raise TypeError) (\<lambda>ps.
        ret (check_in ''traffic moved from replaced to new pods'' ps [] c1))))"

definition readiness_loss :: "'k api \<Rightarrow> env \<Rightarrow> ctx \<Rightarrow> ('k world, ctx) act" where
  "readiness_loss a e c =
     bindA (no_new_errors a e ''no errors while a replica was unready'' c) (\<lambda>c1.
     bindA (liftE (case first_such (\<lambda>f. af_mode f = ReadinessLoss) (run_faults (env_record e)) of
              None \<Rightarrow> Inr [] | Some f \<Rightarrow> first_item (af_pods f))) (\<lambda>unready.
     bindA (liftE (param_float e ''connectionLifetimeSeconds'' 35)) (\<lambda>lifetime.
     let cutoff = workload_started_at (env_record e) + lifetime in
     bindA (retained_by_window a e ''fraud-service'') (\<lambda>ts.
     let late = map pod_of (filter (\<lambda>s. of_int (start_unix_nano s) / 1000000000 > cutoff) (server_spans ''fraud-service'' ts));
         ps = (if late = [] then [ContractProblem ''no kept Fraud spans after the connection lifetime'' []]
               else if unready \<noteq> [] \<and> PStr unready \<in> set late
               then [ContractProblem ''the unready pod still received traffic after the connection lifetime'' [PStr unready]]
               else [])
     in ret (check_in ''unready replica removed from traffic'' ps [] c1)))))"

definition replica_degradation :: "'k api \<Rightarrow> env \<Rightarrow> ctx \<Rightarrow> ('k world, ctx) act" where
  "replica_degradation a e c =
     bindA (liftE (param_float e ''slowSpanMs'' 900)) (\<lambda>threshold.
     bindA (liftE (case first_such (\<lambda>f. af_mode f = Latency) (run_faults (env_record e)) of
              None \<Rightarrow> Inr None | Some f \<Rightarrow> bindE (first_item (af_pods f)) (\<lambda>p. Inr (Some p)))) (\<lambda>degraded_pod.
     bindA (retained_by_window a e ''fraud-service'') (\<lambda>ts.
     let ss = server_spans ''fraud-service'' ts; degraded = opt_text degraded_pod in
     bindA (liftE (as_set (map pod_of ss))) (\<lambda>_.
     let slow = map pod_of (filter (\<lambda>s. threshold \<le> duration_ms s) ss);
         fast = map pod_of (filter (\<lambda>s. \<not> threshold \<le> duration_ms s) ss);
         ps = (if slow = [] then [ContractProblem ''no Fraud span was slow, so the degraded pod never served a request'' [degraded]]
               else require (\<forall>p \<in> set slow. py_eq p degraded)
                      (ContractProblem ''slow Fraud spans came from other pods'' slow))
            @ require (\<exists>p \<in> set fast. \<forall>q \<in> set slow. \<not> py_eq p q)
                (ContractProblem ''no fast Fraud spans from a healthy replica'' [])
     in ret (check_in ''latency attributed to one replica'' ps [] c)))))"

subsection \<open>Outages of the telemetry pipeline\<close>

definition labelled :: "env \<Rightarrow> string \<Rightarrow> request_record list" where
  "labelled e lab = filter (\<lambda>r. req_label r = lab) (requests_with e None)"

definition outage_checks :: "env \<Rightarrow> request_record \<Rightarrow> trace \<Rightarrow> ctx \<Rightarrow> ctx result" where
  "outage_checks e request t c =
     bindE (common_checks e request t c) (\<lambda>c1. enter ''state events'' (state_path t FULL_PATH) t c1)"

definition collector_outage :: "'k api \<Rightarrow> env \<Rightarrow> ctx \<Rightarrow> ('k world, ctx) act" where
  "collector_outage a e c =
     bindA (foldA (\<lambda>c lab. per_trace a (outage_checks e) (labelled e lab) ALL_SERVICES (''complete traces '' @ lab) c)
              c [''before-outage'', ''after-recovery'']) (\<lambda>c1.
     let during = labelled e ''during-outage'' in
     bindA (foldA (\<lambda>n request. bindA (get_trace a (req_trace_id request)) (\<lambda>t.
              ret (case t of Some tr \<Rightarrow> if ORDER_SERVICE \<in> services tr then n + 1 else n | None \<Rightarrow> n)))
              (0 :: nat) during) (\<lambda>survived.
     ret (check_in ''spans from the outage window are missing''
       (require (during \<noteq> [] \<and> survived = 0)
          (ContractProblem ''requests from the outage window still have OrderService spans'' [PInt (int survived), PInt (int (length during))]))
       [] c1)))"

definition DELIVERED :: string where
  "DELIVERED = ''traces from the outage delivered later''"

definition storage_request :: "'k api \<Rightarrow> env \<Rightarrow> real \<Rightarrow> request_record \<Rightarrow> ctx \<Rightarrow> ('k world, ctx) act" where
  "storage_request a e deadline request c =
     bindA (call (monotonic_clock a)) (\<lambda>now.
     bindA (wait_for_trace a (req_trace_id request) (max 10 (deadline - now)) (\<lambda>t. set ALL_SERVICES \<subseteq> services t)) (\<lambda>t.
       case t of
         Some tr \<Rightarrow>
           if set ALL_SERVICES \<subseteq> services tr
           then liftE (outage_checks e request tr (check_in DELIVERED [] (trace_id tr) c))
           else ret (check_in DELIVERED [ContractProblem ''trace not complete after the storage came back'' []] (req_trace_id request) c)
       | None \<Rightarrow> ret (check_in DELIVERED [ContractProblem ''trace not complete after the storage came back'' []] (req_trace_id request) c)))"

definition trace_storage_outage :: "'k api \<Rightarrow> env \<Rightarrow> ctx \<Rightarrow> ('k world, ctx) act" where
  "trace_storage_outage a e c =
     (let during = labelled e ''during-outage'';
          c1 = (if during = [] then check_in DELIVERED [ContractProblem ''no requests were sent during the outage'' []] [] c else c)
      in bindA (liftE (param_float e ''deliveryTimeoutSeconds'' 180)) (\<lambda>timeout.
         bindA (call (monotonic_clock a)) (\<lambda>t0.
         bindA (foldA (\<lambda>c request. storage_request a e (t0 + timeout) request c) c1 during) (\<lambda>c2.
         bindA (call (wall_clock a)) (\<lambda>now.
         bindA (max_over a STORAGE_QUEUE_SIZE (now - workload_started_at (env_record e) + 180)) (\<lambda>peak.
         bindA (prom_query a STORAGE_QUEUE_CAPACITY) (\<lambda>samples.
         let capacity = max_default 0 (map sample_value samples);
             ps = (if peak \<le> 0 then [ContractProblem ''the exporter queue never held a batch, so the writes were never blocked'' []]
                   else if capacity \<noteq> 0 \<and> capacity \<le> peak
                   then [ContractProblem ''the queue reached its capacity, so batches were dropped'' [PFloat peak, PFloat capacity]]
                   else []);
             c3 = check_in ''writes waited in a bounded queue while the storage was down'' ps [] c2
         in ret (if ps = [] then note_in ''storage queue peak'' ''batches'' c3 else c3))))))))"

subsection \<open>Edge and load scenarios\<close>

definition counted :: "string \<Rightarrow> real \<Rightarrow> nat \<Rightarrow> problem list" where
  "counted what v n = require (v = real n) (ContractProblem what [PFloat v, PInt (int n)])"

definition edge_rejection :: "int \<Rightarrow> string \<Rightarrow> 'k api \<Rightarrow> env \<Rightarrow> ctx \<Rightarrow> ('k world, ctx) act" where
  "edge_rejection st metric a e c =
     (let rejected = length (requests_with e (Some st));
          accepted_by_kong = length (filter (\<lambda>r. req_status r \<notin> {st, 0}) (requests_with e None))
      in bindA (wait_metric_delta a e metric (real rejected) 120) (\<lambda>seen.
         let c1 = check_in (''span metrics count every '' @ show_int st @ '' at Kong'') (counted ''counted, observed'' seen rejected) [] c in
         bindA (wait_metric_delta a e ''order_posts'' (real accepted_by_kong) 60) (\<lambda>reached.
         let c2 = check_in ''rejected requests never reached OrderService''
                    (counted ''OrderService handled requests that did not pass Kong'' reached accepted_by_kong) [] c1 in
         foldA (\<lambda>c request.
           if req_trace_id request = [] then ret c
           else bindA (get_trace a (req_trace_id request)) (\<lambda>t. ret (case t of
                  None \<Rightarrow> c
                | Some tr \<Rightarrow> check_in ''kept rejection traces end at Kong''
                    (require (services tr = {''kong-gateway''}) (ContractProblem ''services'' (map PStr (sorted_set (services_of tr)))))
                    (trace_id tr) c)))
           c2 (take 20 (requests_with e (Some st))))))"

definition kong_rate_limit :: "'k api \<Rightarrow> env \<Rightarrow> ctx \<Rightarrow> ('k world, ctx) act" where
  "kong_rate_limit = edge_rejection 429 ''kong_429''"

definition oversized_request :: "'k api \<Rightarrow> env \<Rightarrow> ctx \<Rightarrow> ('k world, ctx) act" where
  "oversized_request = edge_rejection 413 ''kong_413''"

definition auth_denied :: "'k api \<Rightarrow> env \<Rightarrow> ctx \<Rightarrow> ('k world, ctx) act" where
  "auth_denied a e c =
     bindA (foldA (\<lambda>c (st, metric).
         let observed = length (requests_with e (Some st)) in
         bindA (wait_metric_delta a e metric (real observed) 120) (\<lambda>v.
         ret (check_in (''span metrics count every '' @ show_int st) (counted ''counted, observed'' v observed) [] c)))
       c [(401, ''order_401''), (403, ''order_403'')]) (\<lambda>c1.
     bindA (metric_delta a e ''inventory_calls'') (\<lambda>downstream.
     ret (check_in ''denied requests reached no dependency''
       (require (downstream = 0) (ContractProblem ''InventoryService calls'' [PFloat downstream])) [] c1)))"

definition metric_points :: "http_response \<Rightarrow> pyval list result" where
  "metric_points response =
     (if resp_status response = 200
      then bindE (json_of response) (\<lambda>v. bindE (bindE (py_get v ''metrics'' (PList [])) py_iter) (\<lambda>series.
           bindE (mapE (\<lambda>s. bindE (py_get s ''metricPoints'' (PList [])) py_iter) series) (\<lambda>pss. Inr (concat pss))))
      else Inr [])"

definition traffic_spike :: "'k api \<Rightarrow> env \<Rightarrow> ctx \<Rightarrow> ('k world, ctx) act" where
  "traffic_spike a e c =
     (let rejected = length (requests_with e (Some 429)) in
      bindA (wait_metric_delta a e ''kong_429'' (real rejected) 120) (\<lambda>v.
      let c1 = check_in ''span metrics count every 429 at Kong'' (counted ''counted, observed'' v rejected) [] c in
      bindA (metric_delta a e ''order_errors'') (\<lambda>errors.
      let c2 = check_in ''no application errors under load''
                 (require (errors = 0) (ContractProblem ''OrderService error spans'' [PFloat errors])) [] c1 in
      bindA (metric_delta a e ''dropped_too_early'') (\<lambda>dropped.
      bindA (metric_delta a e ''refused_spans'') (\<lambda>refused.
      let c3 = check_in ''telemetry pipeline kept up''
                 (require (dropped = 0 \<and> refused = 0) (ContractProblem ''dropped too early, refused'' [PFloat dropped, PFloat refused])) [] c2 in
      bindA (call (wall_clock a)) (\<lambda>now.
      bindA (jaeger_get a ''/api/metrics/calls'' [(''service'', ''kong-gateway''), (''endTs'', show_int (trunc (now * 1000))),
               (''lookback'', ''600000''), (''step'', ''15000''), (''ratePer'', ''60000'')]) (\<lambda>response.
      bindA (liftE (metric_points response)) (\<lambda>points.
      ret (check_in ''Monitor tab shows the spike''
        (require (points \<noteq> []) (ContractProblem ''no call-rate data for kong-gateway'' [PInt (resp_status response)])) [] c3)))))))))"

subsection \<open>The table of contracts\<close>

definition CONTRACTS :: "(string, 'k api \<Rightarrow> env \<Rightarrow> ctx \<Rightarrow> ('k world, ctx) act) dict" where
  "CONTRACTS =
     [(''normal-order'', normal_order), (''slow-payment'', slow_payment), (''payment-retry'', payment_retry),
      (''payment-timeout'', failed_flow_contract payment_timeout),
      (''inventory-failure'', failed_flow_contract inventory_failure),
      (''fraud-rejection'', failed_flow_contract fraud_rejection),
      (''shipping-failure'', failed_flow_contract shipping_failure),
      (''dependency-unavailable'', dependency_unavailable), (''pod-deletion'', pod_deletion),
      (''rolling-restart'', rolling_restart), (''readiness-loss'', readiness_loss),
      (''replica-degradation'', replica_degradation), (''kong-rate-limit'', kong_rate_limit),
      (''oversized-request'', oversized_request), (''auth-denied'', auth_denied),
      (''traffic-spike'', traffic_spike), (''collector-outage'', collector_outage),
      (''trace-storage-outage'', trace_storage_outage)]"

definition METRIC_KEYS :: "(string, string list) dict" where
  "METRIC_KEYS =
     [(''kong-rate-limit'', [''kong_429'', ''order_posts'']), (''oversized-request'', [''kong_413'', ''order_posts'']),
      (''auth-denied'', [''order_401'', ''order_403'', ''inventory_calls'']),
      (''traffic-spike'', [''kong_429'', ''order_errors'', ''dropped_too_early'', ''refused_spans'']),
      (''rolling-restart'', [''order_errors'']), (''readiness-loss'', [''order_errors''])]"

definition snapshot_metrics :: "'k api \<Rightarrow> scenario \<Rightarrow> run_record \<Rightarrow> ('k world, run_record) act" where
  "snapshot_metrics a sc r =
     (case telemetry (expect sc) of
        None \<Rightarrow> ret r
      | Some spec \<Rightarrow>
          (case dict_get METRIC_KEYS (contract spec) of
             None \<Rightarrow> ret r
           | Some keys \<Rightarrow>
               bindA (mapA (\<lambda>key. bindA (liftE (case dict_get METRICS key of None \<Rightarrow> Inl (KeyError key) | Some m \<Rightarrow> Inr m)) (\<lambda>m.
                        bindA (total a m) (\<lambda>v. ret (key, v)))) keys) (\<lambda>kvs.
               ret (r\<lparr>metrics_before := dict_of kvs\<rparr>))))"

definition new_context :: ctx where
  "new_context = \<lparr>ctx_problems = [], ctx_subjects = [], ctx_notes = []\<rparr>"

definition report_context :: "ctx \<Rightarrow> run_record \<Rightarrow> run_record" where
  "report_context c r =
     (let r1 = foldl (\<lambda>r (nm, ps). add_check nm (ps = []) TelemetryLayer r) r (ctx_problems c);
          r2 = foldl (\<lambda>r (nm, _). add_check nm True TelemetryLayer r) r1 (ctx_notes c)
      in if ctx_problems c = [] then add_check ''telemetry contract'' False TelemetryLayer r2 else r2)"

definition verify :: "'k api \<Rightarrow> scenario \<Rightarrow> run_record \<Rightarrow> ('k world, run_record) act" where
  "verify a sc r =
     (case telemetry (expect sc) of
        None \<Rightarrow> ret r
      | Some spec \<Rightarrow>
          (case dict_get CONTRACTS (contract spec) of
             None \<Rightarrow> ret (add_check ''telemetry contract'' False TelemetryLayer r)
           | Some run_contract \<Rightarrow>
               bindA (call (wall_clock a)) (\<lambda>now.
               let remaining = workload_finished_at r + DECISION_DELAY_SECONDS - now in
               bindA (if remaining > 0 then call (sleep_for a remaining) else ret ()) (\<lambda>_.
               bindA (run_contract a \<lparr>env_record = r, env_parameters = parameters spec\<rparr> new_context) (\<lambda>c.
               ret (report_context c r))))))"

end
