(* ===== verification/ContractLaws.thy ===== *)
theory ContractLaws
  imports Contracts
begin

section \<open>What the telemetry contracts promise\<close>

text \<open>
  A context without problems certifies the traces a contract looked at. The locale \<open>trace_contract\<close> is
  the interface between the checks a contract runs on each trace and the loop that finds the traces and
  runs them: the checks must leave the context clean exactly if the trace has their property. Every
  contract that goes through its requests interprets it.
\<close>

definition clean :: "ctx \<Rightarrow> bool" where
  "clean c \<longleftrightarrow> (\<forall>(nm, ps) \<in> set (ctx_problems c). ps = [])"

lemma clean_update:
  "(\<forall>(k, ps) \<in> set (AList.update nm ((case map_of d nm of None \<Rightarrow> [] | Some b \<Rightarrow> b) @ xs) d). ps = []) \<longleftrightarrow>
     xs = [] \<and> (\<forall>(k, ps) \<in> set d. ps = [])"
  by (induction d) auto

lemma clean_check_in [simp]: "clean (check_in nm ps subj c) \<longleftrightarrow> ps = [] \<and> clean c"
  using clean_update [of nm "ctx_problems c" "map (\<lambda>p. (subj, p)) ps"]
  by (auto simp: clean_def check_in_def Let_def dict_put_def dict_get_def)

lemma clean_note_in [simp]: "clean (note_in nm subj c) \<longleftrightarrow> clean c"
  by (simp add: clean_def note_in_def)

lemma problems_check_in [simp]: "ctx_problems (check_in nm ps subj c) \<noteq> []"
proof -
  have "AList.update k v d \<noteq> []" for k v and d :: "('a \<times> 'b) list"
    by (cases d) auto
  then show ?thesis by (simp add: check_in_def Let_def dict_put_def)
qed

lemma clean_new_context: "clean new_context"
  by (simp add: clean_def new_context_def)

lemma enter_Inr: "enter nm r t c = Inr c' \<Longrightarrow> clean c' \<longleftrightarrow> r = Inr [] \<and> clean c"
  by (auto simp: enter_def bindE_Inr_iff)

subsection \<open>The interface\<close>

locale trace_contract =
  fixes run_checks :: "request_record \<Rightarrow> trace \<Rightarrow> ctx \<Rightarrow> ctx result"
    and good :: "request_record \<Rightarrow> trace \<Rightarrow> bool"
  assumes checks_clean: "run_checks request t c = Inr c' \<Longrightarrow> clean c' \<longleftrightarrow> clean c \<and> good request t"
begin

lemma on_traces_clean:
  "on_traces run_checks found c = Inr c' \<Longrightarrow> clean c' \<longleftrightarrow> clean c \<and> (\<forall>(request, t) \<in> set found. good request t)"
proof (induction found arbitrary: c)
  case (Cons p found)
  obtain request t where p: "p = (request, t)" by (cases p)
  from Cons.prems obtain c1 where "run_checks request t c = Inr c1" "on_traces run_checks found c1 = Inr c'"
    by (auto simp: on_traces_def p bindE_Inr_iff)
  with Cons.IH checks_clean show ?case by (auto simp: p)
qed (simp add: on_traces_def)

end

subsection \<open>Finding the traces\<close>

definition stored_step ::
  "'k api \<Rightarrow> string list \<Rightarrow> string \<Rightarrow> (request_record \<times> trace) list \<times> ctx \<Rightarrow> request_record \<Rightarrow>
   ('k world, (request_record \<times> trace) list \<times> ctx) act" where
  "stored_step a required nm = (\<lambda>(found, c) request.
       bindA (trace_for a request required) (\<lambda>t.
         case t of
           Some tr \<Rightarrow>
             if set required \<subseteq> services tr then ret (found @ [(request, tr)], c)
             else ret (found, check_in nm [TraceNotStored] (or_text (req_trace_id request) (correlation_id request)) c)
         | None \<Rightarrow> ret (found, check_in nm [TraceNotStored] (or_text (req_trace_id request) (correlation_id request)) c)))"

lemma stored_traces_step: "stored_traces a rs required nm c = foldA (stored_step a required nm) ([], c) rs"
  by (simp add: stored_traces_def stored_step_def)

lemma trace_for_id: "trace_for a request required w = (Inr (Some t), w') \<Longrightarrow> trace_id t = req_trace_id request"
  by (auto simp: trace_for_def dest: wait_for_trace_id split: if_splits)

text \<open>\<open>found_for required\<close>: the trace is the request's own and contains the required services.\<close>

definition found_for :: "string list \<Rightarrow> request_record \<times> trace \<Rightarrow> bool" where
  "found_for required = (\<lambda>(request, t). trace_id t = req_trace_id request \<and> set required \<subseteq> services t)"

lemma stored_step_cases:
  assumes "stored_step a required nm (found, c) request w = (Inr (found', c'), w')"
  obtains (Kept) t where "found' = found @ [(request, t)]" "c' = c" "found_for required (request, t)"
    | (Missing) "found' = found" "\<not> clean c'"
proof -
  from assms obtain t w1 where t: "trace_for a request required w = (Inr t, w1)"
    by (auto simp: stored_step_def elim!: bindA_cases)
  show thesis
  proof (cases t)
    case None
    with assms t Missing show thesis by (auto simp: stored_step_def bindA_apply)
  next
    case (Some tr)
    with assms t Missing Kept [of tr] show thesis
      by (auto simp: stored_step_def bindA_apply found_for_def dest: trace_for_id split: if_splits)
  qed
qed

lemma stored_fold_clean:
  "foldA (stored_step a required nm) (found, c) rs w = (Inr (found', c'), w') \<Longrightarrow> clean c' \<Longrightarrow>
   clean c \<and> (\<exists>more. found' = found @ more \<and> map fst more = rs \<and> (\<forall>p \<in> set more. found_for required p))"
proof (induction rs arbitrary: found c w)
  case (Cons request rs)
  from Cons.prems(1) obtain found1 c1 w1 where
    one: "stored_step a required nm (found, c) request w = (Inr (found1, c1), w1)"
    and rest: "foldA (stored_step a required nm) (found1, c1) rs w1 = (Inr (found', c'), w')"
    by (auto elim!: bindA_cases)
  from Cons.IH [OF rest Cons.prems(2)] obtain later where later: "clean c1"
    "found' = found1 @ later" "map fst later = rs" "\<forall>p \<in> set later. found_for required p"
    by blast
  from one show ?case
  proof (cases rule: stored_step_cases)
    case (Kept t)
    with later show ?thesis by (intro conjI exI [of _ "(request, t) # later"]) auto
  next
    case Missing
    with later(1) show ?thesis by simp
  qed
qed simp

context trace_contract
begin

text \<open>
  A clean result of the loop: every request's own trace was found, contains the required services and
  has the property of the checks.
\<close>

lemma per_trace_clean:
  assumes "per_trace a run_checks rs required nm c w = (Inr c', w')" and "clean c'"
  shows "clean c \<and> (\<forall>request \<in> set rs. \<exists>t. trace_id t = req_trace_id request \<and> set required \<subseteq> services t \<and> good request t)"
proof -
  from assms(1) obtain found c1 w1 where
    stored: "foldA (stored_step a required nm) ([], c) rs w = (Inr (found, c1), w1)"
    and run: "on_traces run_checks found c1 = Inr c'"
    by (auto simp: per_trace_def stored_traces_step elim!: bindA_cases split: prod.splits)
  from on_traces_clean [OF run] assms(2) have c1: "clean c1" and good: "\<forall>(request, t) \<in> set found. good request t"
    by auto
  from stored_fold_clean [OF stored c1] have "clean c" and fst: "map fst found = rs"
    and found: "\<forall>p \<in> set found. found_for required p" by auto
  moreover have "\<exists>t. trace_id t = req_trace_id request \<and> set required \<subseteq> services t \<and> good request t"
    if "request \<in> set rs" for request
  proof -
    from that fst obtain t where "(request, t) \<in> set found" by auto
    with found good show ?thesis by (intro exI [of _ t]) (auto simp: found_for_def)
  qed
  ultimately show ?thesis by blast
qed

end

subsection \<open>The checks of each contract\<close>

definition common_ok :: "env \<Rightarrow> request_record \<Rightarrow> trace \<Rightarrow> bool" where
  "common_ok e request t \<longleftrightarrow> intact t \<and> kubernetes_metadata t = [] \<and> correlated t request (run_ident (env_record e)) \<and>
     sensitive_data t [canary (run_ident (env_record e))] = []"

lemma common_checks_clean:
  "common_checks e request t c = Inr c' \<Longrightarrow> clean c' \<longleftrightarrow> clean c \<and> common_ok e request t"
  by (auto simp: common_checks_def common_ok_def Let_def bindE_Inr_iff integrity_iff correlation_iff
    dest!: enter_Inr split: if_splits)

definition normal_ok :: "env \<Rightarrow> request_record \<Rightarrow> trace \<Rightarrow> bool" where
  "normal_ok e request t \<longleftrightarrow> common_ok e request t \<and> topology_ok t ALL_SERVICES [] \<and> ordered_stages t \<and>
     state_path t FULL_PATH = Inr [] \<and> error_marking t False = []"

definition failed_flow_ok :: "env \<Rightarrow> failed_flow \<Rightarrow> request_record \<Rightarrow> trace \<Rightarrow> bool" where
  "failed_flow_ok e f request t \<longleftrightarrow> common_ok e request t \<and> topology_ok t (ff_required f) (ff_forbidden f) \<and>
     stages_present t (ff_stages f) (ff_forbidden_stages f) = [] \<and> ordered_stages t \<and>
     state_path t (ff_path f) = Inr [] \<and> error_marking t (ff_technical f) = [] \<and>
     (\<forall>stage n. ff_retried f = Some (stage, n) \<longrightarrow> retries t stage n = [])"

definition retry_ok :: "env \<Rightarrow> request_record \<Rightarrow> trace \<Rightarrow> bool" where
  "retry_ok e request t \<longleftrightarrow> common_ok e request t \<and> retries t ''payment.authorize'' 2 = [] \<and>
     idempotent_replay t = [] \<and> dominates t ''payment.authorize'' (5 / 10) 1500 \<and> state_path t FULL_PATH = Inr []"

definition outage_ok :: "env \<Rightarrow> request_record \<Rightarrow> trace \<Rightarrow> bool" where
  "outage_ok e request t \<longleftrightarrow> common_ok e request t \<and> state_path t FULL_PATH = Inr []"

interpretation common: trace_contract "common_checks e" "common_ok e"
  by unfold_locales (rule common_checks_clean)

interpretation normal: trace_contract "normal_order_checks e" "normal_ok e"
proof
  fix request t c c' assume "normal_order_checks e request t c = Inr c'"
  then show "clean c' \<longleftrightarrow> clean c \<and> normal_ok e request t"
    unfolding normal_order_checks_def bindE_Inr_iff
    by - (elim exE conjE, drule common_checks_clean, (drule enter_Inr)+,
      simp add: normal_ok_def topology_iff stage_order_iff conj_ac)
qed

interpretation failed: trace_contract "failed_flow_checks e f" "failed_flow_ok e f"
proof
  fix request t c c' assume run: "failed_flow_checks e f request t c = Inr c'"
  show "clean c' \<longleftrightarrow> clean c \<and> failed_flow_ok e f request t"
  proof (cases "ff_retried f")
    case None
    from run show ?thesis
      unfolding failed_flow_checks_def bindE_Inr_iff None option.case sum.inject
      by - (elim exE conjE, drule common_checks_clean, (drule enter_Inr)+,
        simp add: failed_flow_ok_def None topology_iff stage_order_iff conj_ac)
  next
    case (Some p)
    obtain stage n where p: "p = (stage, n)" by (cases p)
    from run show ?thesis
      unfolding failed_flow_checks_def bindE_Inr_iff Some p option.case prod.case
      by - (elim exE conjE, drule common_checks_clean, (drule enter_Inr)+,
        simp add: failed_flow_ok_def Some p topology_iff stage_order_iff conj_ac)
  qed
qed

interpretation retry: trace_contract "payment_retry_checks e" "retry_ok e"
proof
  fix request t c c' assume "payment_retry_checks e request t c = Inr c'"
  then show "clean c' \<longleftrightarrow> clean c \<and> retry_ok e request t"
    unfolding payment_retry_checks_def bindE_Inr_iff
    by - (elim exE conjE, drule common_checks_clean, (drule enter_Inr)+,
      simp add: retry_ok_def latency_dominance_iff conj_ac)
qed

interpretation outage: trace_contract "outage_checks e" "outage_ok e"
proof
  fix request t c c' assume "outage_checks e request t c = Inr c'"
  then show "clean c' \<longleftrightarrow> clean c \<and> outage_ok e request t"
    unfolding outage_checks_def bindE_Inr_iff
    by - (elim exE conjE, drule common_checks_clean, (drule enter_Inr)+, simp add: outage_ok_def conj_ac)
qed

subsection \<open>The verdict\<close>

lemma report_problems:
  "checks (foldl (\<lambda>r (nm, ps). add_check nm (ps = []) TelemetryLayer r) r d) =
     checks r @ map (\<lambda>(nm, ps). \<lparr>check_layer = TelemetryLayer, check_name = nm, check_passed = (ps = [])\<rparr>) d"
  by (induction d arbitrary: r) (auto simp: add_check_def)

lemma report_notes:
  "checks (foldl (\<lambda>r (nm, _). add_check nm True TelemetryLayer r) r d) =
     checks r @ map (\<lambda>(nm, _). \<lparr>check_layer = TelemetryLayer, check_name = nm, check_passed = True\<rparr>) d"
  by (induction d arbitrary: r) (auto simp: add_check_def)

lemma passed_report:
  "passed (report_context c r) \<longleftrightarrow>
     (\<forall>ch \<in> set (checks r). check_passed ch) \<and> ctx_problems c \<noteq> [] \<and> (\<forall>(nm, ps) \<in> set (ctx_problems c). ps = [])"
proof (cases "ctx_problems c = []")
  case True
  then show ?thesis by (auto simp: report_context_def passed_def add_check_def Let_def)
next
  case False
  let ?r1 = "foldl (\<lambda>r (nm, ps). add_check nm (ps = []) TelemetryLayer r) r (ctx_problems c)"
  let ?r2 = "foldl (\<lambda>r (nm, _). add_check nm True TelemetryLayer r) ?r1 (ctx_notes c)"
  have rep: "report_context c r = ?r2"
    using False by (simp add: report_context_def)
  have checks: "checks ?r2 = checks r
      @ map (\<lambda>(nm, ps). \<lparr>check_layer = TelemetryLayer, check_name = nm, check_passed = (ps = [])\<rparr>) (ctx_problems c)
      @ map (\<lambda>(nm, _). \<lparr>check_layer = TelemetryLayer, check_name = nm, check_passed = True\<rparr>) (ctx_notes c)"
    by (simp add: report_notes report_problems)
  show ?thesis
    unfolding passed_def rep checks using False by (simp add: ball_Un case_prod_beta)
qed

text \<open>
  Property C36. The record passes after the telemetry report exactly if nothing failed before, the
  contract entered at least one check, and no check of the contract found a problem; a contract that
  checks nothing fails.
\<close>

theorem report_passes_iff:
  "passed (report_context c r) \<longleftrightarrow>
     (\<forall>ch \<in> set (checks r). check_passed ch) \<and> ctx_problems c \<noteq> [] \<and> (\<forall>(nm, ps) \<in> set (ctx_problems c). ps = [])"
  by (rule passed_report)

theorem report_passes_witness:
  "passed (report_context (check_in ''topology'' [] ''t'' new_context) (new_record ''r'' ''s'' []))"
  by (subst report_passes_iff)
    (simp add: check_in_def new_context_def new_record_def dict_put_def dict_append_def)

lemma verify_cases:
  assumes "verify a sc r w = (Inr r', w')" and "telemetry (expect sc) = Some spec"
    and "dict_get CONTRACTS (contract spec) = Some run_contract" and "passed r'"
  obtains c w1 w2 where "run_contract a \<lparr>env_record = r, env_parameters = parameters spec\<rparr> new_context w1 = (Inr c, w2)"
    and "clean c"
proof -
  from assms(1-3) obtain c w1 w2 where
    run: "run_contract a \<lparr>env_record = r, env_parameters = parameters spec\<rparr> new_context w1 = (Inr c, w2)"
    and "r' = report_context c r"
    by (auto simp: verify_def Let_def elim!: bindA_cases split: if_splits)
  with assms(4) have "clean c" by (simp add: passed_report clean_def)
  with run that show thesis by blast
qed

text \<open>The order states and their transitions, as the order service defines them.\<close>

datatype order_state = Pending | InventoryReserved | PaymentAuthorized | ShipmentCreated | Completed
  | InventoryFailed | FraudFailed | PaymentFailed | ShippingFailed

definition allowed_transitions :: "(order_state, order_state list) dict" where
  "allowed_transitions =
     [(Pending, [InventoryReserved, InventoryFailed, FraudFailed]),
      (InventoryReserved, [PaymentAuthorized, PaymentFailed]),
      (PaymentAuthorized, [ShipmentCreated, ShippingFailed]),
      (ShipmentCreated, [Completed])]"

definition can_transition :: "order_state \<Rightarrow> order_state \<Rightarrow> bool" where
  "can_transition s t \<longleftrightarrow> (case dict_get allowed_transitions s of None \<Rightarrow> False | Some ts \<Rightarrow> t \<in> set ts)"

definition is_final :: "order_state \<Rightarrow> bool" where
  "is_final s \<longleftrightarrow> dict_get allowed_transitions s = None"

fun state_text :: "order_state \<Rightarrow> string" where
  "state_text Pending = ''Pending''" | "state_text InventoryReserved = ''InventoryReserved''"
| "state_text PaymentAuthorized = ''PaymentAuthorized''" | "state_text ShipmentCreated = ''ShipmentCreated''"
| "state_text Completed = ''Completed''" | "state_text InventoryFailed = ''InventoryFailed''"
| "state_text FraudFailed = ''FraudFailed''" | "state_text PaymentFailed = ''PaymentFailed''"
| "state_text ShippingFailed = ''ShippingFailed''"

inductive order_run :: "order_state \<Rightarrow> string list \<Rightarrow> bool" where
  final: "is_final s \<Longrightarrow> order_run s []"
| move: "can_transition s t \<Longrightarrow> order_run t path \<Longrightarrow> order_run s (state_text t # path)"

inductive_simps order_run_Nil: "order_run s []"
inductive_simps order_run_Cons: "order_run s (x # path)"

definition targets_of :: "order_state \<Rightarrow> order_state list" where
  "targets_of s = (case dict_get allowed_transitions s of None \<Rightarrow> [] | Some ts \<Rightarrow> ts)"

lemma order_run_targets: "order_run s (x # path) \<longleftrightarrow> (\<exists>t \<in> set (targets_of s). x = state_text t \<and> order_run t path)"
  by (cases "dict_get allowed_transitions s") (auto simp: order_run_Cons can_transition_def targets_of_def)

lemma transition_targets:
  "targets_of Pending = [InventoryReserved, InventoryFailed, FraudFailed]"
  "targets_of InventoryReserved = [PaymentAuthorized, PaymentFailed]"
  "targets_of PaymentAuthorized = [ShipmentCreated, ShippingFailed]"
  "targets_of ShipmentCreated = [Completed]"
  by (simp_all add: targets_of_def allowed_transitions_def dict_get_def)


end
