(* ===== verification/Otlp.thy ===== *)
theory Otlp
  imports Kube Traces
begin

section \<open>Synthetic spans (otlp.py)\<close>

text \<open>
  The OTLP/HTTP JSON documents that the pipeline checks send to the Collector, and the sender. Building
  a document and reading it with the parser of the Query API gives the spans back, grouped by service.
  The clock reading of a span without an end time is an argument.
\<close>

definition otlp_attribute :: "string \<Rightarrow> pyval \<Rightarrow> pyval" where
  "otlp_attribute key value =
     PDict [(''key'', PStr key), (''value'', case value of
        PBool b \<Rightarrow> PDict [(''boolValue'', PBool b)]
      | PInt i \<Rightarrow> PDict [(''intValue'', PStr (show_int i))]
      | _ \<Rightarrow> PDict [(''stringValue'', PStr (py_str value))])]"

record synthetic_span =
  syn_name :: string
  syn_trace_id :: string
  syn_span_id :: string
  syn_parent :: string
  syn_duration_ms :: real
  syn_error :: bool
  syn_attributes :: attrs
  syn_service :: string
  syn_kind :: int
  syn_end :: int

definition syn_end_time :: "int \<Rightarrow> synthetic_span \<Rightarrow> int" where
  "syn_end_time now s = (if syn_end s \<noteq> 0 then syn_end s else now)"

definition truncated :: "real \<Rightarrow> int" where
  "truncated x = (if x < 0 then \<lceil>x\<rceil> else \<lfloor>x\<rfloor>)"

definition to_otlp :: "int \<Rightarrow> synthetic_span \<Rightarrow> pyval" where
  "to_otlp now s =
     (let en = syn_end_time now s in
      PDict ([(''traceId'', PStr (syn_trace_id s)), (''spanId'', PStr (syn_span_id s)),
              (''parentSpanId'', PStr (syn_parent s)), (''name'', PStr (syn_name s)), (''kind'', PInt (syn_kind s)),
              (''startTimeUnixNano'', PStr (show_int (en - truncated (syn_duration_ms s * 1000000)))),
              (''endTimeUnixNano'', PStr (show_int en)),
              (''attributes'', PList (map (\<lambda>(k, v). otlp_attribute k v) (syn_attributes s)))]
             @ (if syn_error s
                then [(''status'', PDict [(''code'', PInt 2), (''message'', PStr ''synthetic error'')])] else [])))"

definition resource_block :: "int \<Rightarrow> string \<Rightarrow> synthetic_span list \<Rightarrow> pyval" where
  "resource_block now svc items =
     PDict [(''resource'', PDict [(''attributes'', PList [otlp_attribute ''service.name'' (PStr svc)])]),
            (''scopeSpans'', PList [PDict [(''scope'', PDict [(''name'', PStr ''txplatform.pipeline-probe'')]),
                                       (''spans'', PList (map (to_otlp now) items))]])]"

definition build_payload :: "int \<Rightarrow> synthetic_span list \<Rightarrow> pyval" where
  "build_payload now ss =
     PDict [(''resourceSpans'', PList (map (\<lambda>(svc, items). resource_block now svc items) (group_by syn_service ss)))]"

text \<open>\<open>OtlpSender.send\<close>: batches of at most \<open>batch_size\<close> spans, one request each.\<close>

function batches :: "nat \<Rightarrow> 'a list \<Rightarrow> 'a list list" where
  "batches n xs = (if n = 0 \<or> xs = [] then [] else take n xs # batches n (drop n xs))"
  by pat_completeness auto

termination
  by (relation "measure (length \<circ> snd)") auto

declare batches.simps [simp del]

definition send_spans :: "(pyval \<Rightarrow> ('k, http_response) act) \<Rightarrow> int \<Rightarrow> nat \<Rightarrow> synthetic_span list \<Rightarrow> ('k world, unit) act" where
  "send_spans post now batch_size ss =
     forA (batches batch_size ss) (\<lambda>b. bindA (call (post (build_payload now b))) (\<lambda>response.
       liftE (raise_for_status response)))"

lemma concat_batches: "0 < n \<Longrightarrow> concat (batches n xs) = xs"
  by (induction n xs rule: batches.induct) (subst batches.simps, simp)

lemma batch_sizes: "b \<in> set (batches n xs) \<Longrightarrow> b \<noteq> [] \<and> length b \<le> n"
  by (induction n xs rule: batches.induct) (subst (asm) (2) batches.simps, auto split: if_splits)

subsection \<open>Attributes survive\<close>

fun decoded :: "pyval \<Rightarrow> pyval" where
  "decoded (PBool b) = PBool b"
| "decoded (PInt i) = PInt i"
| "decoded v = PStr (py_str v)"

lemma as_key_str [simp]: "as_key (PStr s) = Inr s"
  by (simp add: as_key_def)

lemma attribute_value_string: "attribute_value (PDict [(''stringValue'', PStr s)]) = Inr (PStr s)"
  by (simp add: attribute_value.simps py_in_def py_item_def dict_get_def)

lemma attribute_value_encoded:
  "otlp_attribute k v = PDict [(''key'', PStr k), (''value'', w)] \<Longrightarrow> attribute_value w = Inr (decoded v)"
  by (cases v) (auto simp: otlp_attribute_def attribute_value.simps py_in_def py_item_def dict_get_def
    parse_int_show_int)

lemma attributes_encoded:
  "attributes (PList (map (\<lambda>(k, v). otlp_attribute k v) d)) = Inr (dict_of (map (\<lambda>(k, v). (k, decoded v)) d))"
proof -
  let ?read = "\<lambda>item. bindE (py_item item ''key'') (\<lambda>k. bindE (as_key k) (\<lambda>key.
      bindE (py_get item ''value'' (PDict [])) (\<lambda>w. bindE (attribute_value w) (\<lambda>v. Inr (key, v)))))"
  have "?read (otlp_attribute k v) = Inr (k, decoded v)" for k v
  proof -
    obtain w where w: "otlp_attribute k v = PDict [(''key'', PStr k), (''value'', w)]"
      by (auto simp: otlp_attribute_def)
    from attribute_value_encoded [OF w] show ?thesis
      by (simp add: w py_item_def py_get_def dict_get_def)
  qed
  then have "mapE ?read (map (\<lambda>(k, v). otlp_attribute k v) d) = Inr (map (\<lambda>(k, v). (k, decoded v)) d)"
    by (induction d) auto
  then show ?thesis by (cases d) (simp_all add: attributes.simps)
qed

subsection \<open>Spans survive\<close>

definition hex_id :: "nat \<Rightarrow> string \<Rightarrow> bool" where
  "hex_id n s \<longleftrightarrow> length s = 2 * n \<and> set s \<subseteq> set ''0123456789abcdef''"

definition well_formed :: "synthetic_span \<Rightarrow> bool" where
  "well_formed s \<longleftrightarrow> hex_id 16 (syn_trace_id s) \<and> hex_id 8 (syn_span_id s) \<and>
     (syn_parent s = [] \<or> hex_id 8 (syn_parent s)) \<and> distinct (map fst (syn_attributes s))"

lemma lower_hex_id: "set s \<subseteq> set ''0123456789abcdef'' \<Longrightarrow> lower s = s"
  unfolding lower_def by (rule map_idI) (auto simp: lower_char_def less_eq_char_def)

lemma normalize_hex_id: "hex_id n s \<Longrightarrow> 0 < n \<Longrightarrow> normalize_id (Some s) n = Inr s"
proof -
  assume id: "hex_id n s" and pos: "0 < n"
  have "set ''0123456789abcdef'' \<subseteq> set hex_digits" by (simp add: hex_digits_def)
  with id have "\<And>c. c \<in> set s \<Longrightarrow> c \<in> set hex_digits" by (auto simp: hex_id_def)
  moreover have "s \<noteq> []" using id pos by (auto simp: hex_id_def)
  ultimately show ?thesis
    using id lower_hex_id normalize_id_hex [of s n] by (simp add: hex_id_def)
qed

text \<open>The span that the parser is meant to make of a synthetic span.\<close>

definition expected_span :: "int \<Rightarrow> synthetic_span \<Rightarrow> span" where
  "expected_span now s =
     \<lparr>span_trace_id = syn_trace_id s, span_id = syn_span_id s, parent_span_id = syn_parent s,
      span_name = syn_name s, span_kind = enum_name (PInt (syn_kind s)) kind_names ''SPAN_KIND_'',
      start_unix_nano = syn_end_time now s - truncated (syn_duration_ms s * 1000000),
      end_unix_nano = syn_end_time now s, span_status = (if syn_error s then ''ERROR'' else ''UNSET''),
      span_attrs = map (\<lambda>(k, v). (k, decoded v)) (syn_attributes s), span_events = [],
      span_resource = [(''service.name'', PStr (syn_service s))]\<rparr>"

lemma status_codes:
  "enum_name (PInt 2) status_names ''STATUS_CODE_'' = ''ERROR''" "enum_name PNone status_names ''STATUS_CODE_'' = ''UNSET''"
  by (simp_all add: enum_name_def status_names_def dict_get_def removeprefix_def Let_def)

lemma parse_span_otlp:
  assumes "well_formed s"
  shows "parse_span [(''service.name'', PStr (syn_service s))] (to_otlp now s) = Inr (expected_span now s)"
proof -
  have ids: "normalize_id (Some (syn_trace_id s)) 16 = Inr (syn_trace_id s)"
    "normalize_id (Some (syn_span_id s)) 8 = Inr (syn_span_id s)"
    "normalize_id (Some (syn_parent s)) 8 = Inr (syn_parent s)"
    using assms normalize_hex_id [of 16] normalize_hex_id [of 8]
    by (auto simp: well_formed_def normalize_id_def [of "Some []"])
  have attrs: "attributes (PList (map (\<lambda>(k, v). otlp_attribute k v) (syn_attributes s))) =
      Inr (map (\<lambda>(k, v). (k, decoded v)) (syn_attributes s))"
  proof -
    have "distinct (map fst (map (\<lambda>(k, v). (k, decoded v)) (syn_attributes s)))"
      using assms by (simp add: well_formed_def case_prod_beta comp_def)
    then show ?thesis by (simp add: attributes_encoded dict_of_distinct)
  qed
  show ?thesis
    by (cases "syn_error s")
      (simp_all add: parse_span_def to_otlp_def Let_def id_field_def py_get_def dict_get_def ids attrs
        parse_int_show_int expected_span_def status_codes)
qed

lemma parse_block:
  assumes "\<And>s. s \<in> set items \<Longrightarrow> well_formed s \<and> syn_service s = svc"
  shows "(\<lambda>rs. bindE (bindE (bindE (py_get rs ''resource'' (PDict [])) (\<lambda>r. py_get r ''attributes'' PNone)) attributes) (\<lambda>resource.
       bindE (bindE (py_get rs ''scopeSpans'' (PList [])) py_iter) (\<lambda>scopes.
       bindE (mapE (\<lambda>scope.
           bindE (bindE (py_get scope ''spans'' (PList [])) py_iter) (mapE (parse_span resource))) scopes) (\<lambda>sss.
       Inr (concat sss))))) (resource_block now svc items) = Inr (map (expected_span now) items)"
proof -
  have resource: "attributes (PList [otlp_attribute ''service.name'' (PStr svc)]) = Inr [(''service.name'', PStr svc)]"
    using attributes_encoded [of "[(''service.name'', PStr svc)]"] by (simp add: dict_of_distinct)
  have "mapE (parse_span [(''service.name'', PStr svc)]) (map (to_otlp now) items) = Inr (map (expected_span now) items)"
    using assms parse_span_otlp by (induction items) force+
  with resource show ?thesis
    by (simp add: resource_block_def py_get_def dict_get_def)
qed

text \<open>
  Property C21. What the sender writes the Query API's parser reads back: the document of any list of
  well-formed synthetic spans parses, and gives exactly one span for each of them, with its identifiers,
  name, kind, times, status and service, and with its Boolean, integer and text attributes unchanged.
\<close>

theorem otlp_roundtrip:
  assumes "\<forall>s \<in> set ss. well_formed s"
  shows "\<exists>parsed. parse_spans (build_payload now ss) = Inr parsed \<and> mset parsed = mset (map (expected_span now) ss)"
proof -
  let ?groups = "group_by syn_service ss"
  let ?blocks = "map (\<lambda>(svc, items). resource_block now svc items) ?groups"
  have blocks: "resource_spans (build_payload now ss) = Inr ?blocks"
    by (simp add: build_payload_def resource_spans.simps dict_get_def py_get_def)
  let ?f = "\<lambda>rs. bindE (bindE (bindE (py_get rs ''resource'' (PDict [])) (\<lambda>r. py_get r ''attributes'' PNone)) attributes) (\<lambda>resource.
       bindE (bindE (py_get rs ''scopeSpans'' (PList [])) py_iter) (\<lambda>scopes.
       bindE (mapE (\<lambda>scope.
           bindE (bindE (py_get scope ''spans'' (PList [])) py_iter) (mapE (parse_span resource))) scopes) (\<lambda>sss.
       Inr (concat sss))))"
  have one: "?f (resource_block now svc items) = Inr (map (expected_span now) items)"
    if "(svc, items) \<in> set ?groups" for svc items
    using that assms by (intro parse_block) (auto simp: group_by_member)
  have "mapE ?f (map (\<lambda>(svc, items). resource_block now svc items) gs) = Inr (map (\<lambda>(svc, items). map (expected_span now) items) gs)"
    if "set gs \<subseteq> set ?groups" for gs
    using that
  proof (induction gs)
    case (Cons g gs)
    obtain svc items where g: "g = (svc, items)" by (cases g)
    have "?f (resource_block now svc items) = Inr (map (expected_span now) items)"
      using Cons.prems g by (intro one) auto
    with Cons g show ?case by simp
  qed simp
  then have "parse_spans (build_payload now ss) = Inr (concat (map (\<lambda>(svc, items). map (expected_span now) items) ?groups))"
    unfolding parse_spans_def blocks by simp
  moreover have "mset (concat (map (\<lambda>(svc, items). map (expected_span now) items) ?groups)) = mset (map (expected_span now) ss)"
  proof -
    have "concat (map (\<lambda>(svc, items). map (expected_span now) items) ?groups) = map (expected_span now) (concat (map snd ?groups))"
      by (auto simp: map_concat intro!: arg_cong [where f = concat])
    then show ?thesis by (metis mset_group_by mset_map)
  qed
  ultimately show ?thesis by blast
qed

theorem otlp_roundtrip_witness:
  "\<exists>parsed. parse_spans (build_payload 1000 [\<lparr>syn_name = ''probe'', syn_trace_id = replicate 32 CHR ''a'',
      syn_span_id = replicate 16 CHR ''b'', syn_parent = [], syn_duration_ms = 0, syn_error = True,
      syn_attributes = [(''n'', PInt 7)], syn_service = ''pipeline-probe'', syn_kind = 2, syn_end = 0\<rparr>]) = Inr parsed \<and>
     size (mset parsed) = 1"
    (is "\<exists>parsed. parse_spans (build_payload 1000 [?s]) = Inr parsed \<and> _")
proof -
  have "\<forall>s \<in> set [?s]. well_formed s" by (simp add: well_formed_def hex_id_def)
  from otlp_roundtrip [OF this, of 1000] show ?thesis by auto
qed

end
