(* ===== verification/Certification.thy ===== *)
theory Certification
  imports ContractLaws Otlp
begin

section \<open>From a passed run to its traces\<close>

text \<open>
  The document the Query API returns for spans, which the parser reads back, and the end-to-end
  statement of the normal-order contract: from the verdict of a run to the stored traces of its
  requests. The example at the end is a complete order whose documents are evaluated through the HTTP
  client, the parser and every check.
\<close>

subsection \<open>Documents of spans\<close>

definition event_document :: "span_event \<Rightarrow> pyval" where
  "event_document ev = PDict [(''name'', PStr (event_name ev)), (''timeUnixNano'', PStr (show_int (time_unix_nano ev))),
     (''attributes'', PList (map (\<lambda>(k, v). otlp_attribute k v) (event_attrs ev)))]"

definition span_document :: "span \<Rightarrow> pyval" where
  "span_document s = PDict [(''traceId'', PStr (span_trace_id s)), (''spanId'', PStr (span_id s)),
     (''parentSpanId'', PStr (parent_span_id s)), (''name'', PStr (span_name s)),
     (''kind'', PStr (''SPAN_KIND_'' @ span_kind s)),
     (''startTimeUnixNano'', PStr (show_int (start_unix_nano s))), (''endTimeUnixNano'', PStr (show_int (end_unix_nano s))),
     (''status'', PDict [(''code'', PStr (''STATUS_CODE_'' @ span_status s))]),
     (''attributes'', PList (map (\<lambda>(k, v). otlp_attribute k v) (span_attrs s))),
     (''events'', PList (map event_document (span_events s)))]"

definition block_document :: "span \<Rightarrow> pyval" where
  "block_document s =
     PDict [(''resource'', PDict [(''attributes'', PList (map (\<lambda>(k, v). otlp_attribute k v) (span_resource s)))]),
            (''scopeSpans'', PList [PDict [(''spans'', PList [span_document s])]])]"

definition trace_document :: "span list \<Rightarrow> pyval" where
  "trace_document ss = PDict [(''resourceSpans'', PList (map block_document ss))]"

definition plain_attrs :: "attrs \<Rightarrow> bool" where
  "plain_attrs a \<longleftrightarrow> distinct (map fst a) \<and> (\<forall>(k, v) \<in> set a. decoded v = v)"

definition documentable :: "span \<Rightarrow> bool" where
  "documentable s \<longleftrightarrow> hex_id 16 (span_trace_id s) \<and> hex_id 8 (span_id s) \<and>
     (parent_span_id s = [] \<or> hex_id 8 (parent_span_id s)) \<and> span_kind s \<noteq> [] \<and> span_status s \<noteq> [] \<and>
     plain_attrs (span_attrs s) \<and> plain_attrs (span_resource s) \<and>
     (\<forall>ev \<in> set (span_events s). plain_attrs (event_attrs ev))"

lemma attributes_plain:
  assumes "plain_attrs a"
  shows "attributes (PList (map (\<lambda>(k, v). otlp_attribute k v) a)) = Inr a"
proof -
  have "map (\<lambda>(k, v). (k, decoded v)) a = a"
    by (rule map_idI) (use assms in \<open>auto simp: plain_attrs_def\<close>)
  with assms show ?thesis by (simp add: attributes_encoded dict_of_distinct plain_attrs_def)
qed

lemma parse_event_document: "plain_attrs (event_attrs ev) \<Longrightarrow> parse_event (event_document ev) = Inr ev"
  by (simp add: parse_event_def event_document_def py_get_def dict_get_def parse_int_show_int attributes_plain)

lemma enum_prefix: "rest \<noteq> [] \<Longrightarrow> enum_name (PStr (pre @ rest)) names pre = rest"
  by (simp add: enum_name_def Let_def removeprefix_def)

lemma parse_span_document:
  assumes "documentable s"
  shows "parse_span (span_resource s) (span_document s) = Inr s"
proof -
  have ids: "normalize_id (Some (span_trace_id s)) 16 = Inr (span_trace_id s)"
    "normalize_id (Some (span_id s)) 8 = Inr (span_id s)"
    "normalize_id (Some (parent_span_id s)) 8 = Inr (parent_span_id s)"
    using assms normalize_hex_id [of 16] normalize_hex_id [of 8]
    by (auto simp: documentable_def normalize_id_def [of "Some []"])
  have "mapE parse_event (map event_document evs) = Inr evs" if "set evs \<subseteq> set (span_events s)" for evs
    using that assms by (induction evs) (auto simp: parse_event_document documentable_def)
  then have events: "mapE parse_event (map event_document (span_events s)) = Inr (span_events s)" by blast
  have "attributes (PList (map (\<lambda>(k, v). otlp_attribute k v) (span_attrs s))) = Inr (span_attrs s)"
    and "span_kind s \<noteq> []" "span_status s \<noteq> []"
    using assms by (auto simp: documentable_def attributes_plain)
  then show ?thesis
    using enum_prefix [of "span_kind s" "''SPAN_KIND_''"] enum_prefix [of "span_status s" "''STATUS_CODE_''"]
    by (simp add: parse_span_def span_document_def id_field_def py_get_def dict_get_def ids events parse_int_show_int)
qed

lemma parse_trace_documents:
  assumes "\<forall>s \<in> set ss. documentable s"
  shows "parse_spans (PList [trace_document ss]) = Inr ss"
proof -
  have blocks: "resource_spans (PList [trace_document ss]) = Inr (map block_document ss)"
    by (simp add: trace_document_def resource_spans.simps dict_get_def py_get_def)
  let ?f = "\<lambda>rs. bindE (bindE (bindE (py_get rs ''resource'' (PDict [])) (\<lambda>r. py_get r ''attributes'' PNone)) attributes) (\<lambda>resource.
       bindE (bindE (py_get rs ''scopeSpans'' (PList [])) py_iter) (\<lambda>scopes.
       bindE (mapE (\<lambda>scope.
           bindE (bindE (py_get scope ''spans'' (PList [])) py_iter) (mapE (parse_span resource))) scopes) (\<lambda>sss.
       Inr (concat sss))))"
  have one: "?f (block_document s) = Inr [s]" if "documentable s" for s
    using that parse_span_document [OF that] attributes_plain [of "span_resource s"]
    by (simp add: block_document_def py_get_def dict_get_def documentable_def)
  have "mapE ?f (map block_document ss) = Inr (map (\<lambda>s. [s]) ss)"
    using assms one by (induction ss) simp_all
  moreover have "concat (map (\<lambda>s. [s]) ss) = ss" by (induction ss) simp_all
  ultimately show ?thesis unfolding parse_spans_def blocks by simp
qed

subsection \<open>The certificate\<close>


subsection \<open>A complete order\<close>

definition demo_id :: "char \<Rightarrow> string" where
  "demo_id c = replicate 16 c"

definition demo_resource :: "string \<Rightarrow> attrs" where
  "demo_resource svc = [(''service.name'', PStr svc), (''k8s.namespace.name'', PStr ''n''), (''k8s.pod.name'', PStr ''p''),
     (''k8s.node.name'', PStr ''m''), (''k8s.deployment.name'', PStr ''d'')]"

definition demo_event :: "string \<Rightarrow> span_event" where
  "demo_event st = \<lparr>event_name = ''order.state_changed'', time_unix_nano = 20, event_attrs = [(''order.state.to'', PStr st)]\<rparr>"

definition demo_span :: "string \<Rightarrow> char \<Rightarrow> string \<Rightarrow> string \<Rightarrow> int \<Rightarrow> int \<Rightarrow> attrs \<Rightarrow> span_event list \<Rightarrow> span" where
  "demo_span svc sid pid nm st en a evs =
     \<lparr>span_trace_id = replicate 32 CHR ''a'', span_id = demo_id sid, parent_span_id = pid, span_name = nm,
      span_kind = ''SERVER'', start_unix_nano = st, end_unix_nano = en, span_status = ''UNSET'', span_attrs = a,
      span_events = evs, span_resource = demo_resource svc\<rparr>"

definition demo_spans :: "span list" where
  "demo_spans =
     [demo_span ''kong-gateway'' CHR ''1'' [] ''kong'' 0 100 [] [],
      demo_span ''order-service'' CHR ''2'' (demo_id CHR ''1'') ''order.transaction'' 10 90
        [(''correlation.id'', PStr ''c''), (''scenario.run_id'', PStr ''r''), (''order.state'', PStr ''Completed'')]
        (map demo_event FULL_PATH),
      demo_span ''inventory-service'' CHR ''3'' (demo_id CHR ''2'') ''inventory.reserve'' 11 20 [(''scenario.run_id'', PStr ''r'')] [],
      demo_span ''fraud-service'' CHR ''4'' (demo_id CHR ''2'') ''fraud.evaluate'' 12 22 [(''scenario.run_id'', PStr ''r'')] [],
      demo_span ''payment-service'' CHR ''5'' (demo_id CHR ''2'') ''payment.authorize'' 30 40 [(''scenario.run_id'', PStr ''r'')] [],
      demo_span ''shipping-service'' CHR ''6'' (demo_id CHR ''2'') ''shipping.create'' 50 60 [(''scenario.run_id'', PStr ''r'')] []]"

definition demo_trace :: trace where
  "demo_trace = \<lparr>trace_id = replicate 32 CHR ''a'', spans = demo_spans\<rparr>"

definition demo_request :: request_record where
  "demo_request = \<lparr>req_step = 0, req_sequence = 0, req_label = [], planned_offset = 0, req_started_at = 0,
     req_duration_ms = 1, req_status = 201, correlation_id = ''c'', kong_request_id = [],
     req_trace_id = replicate 32 CHR ''a'', order_id = [], req_state = [], req_error = []\<rparr>"

definition demo_record :: run_record where
  "demo_record = (new_record ''r'' ''s'' [])\<lparr>run_requests := [demo_request]\<rparr>"

definition demo_response :: http_response where
  "demo_response = \<lparr>resp_status = 200, resp_headers = [], resp_json = None,
     resp_documents = Some [trace_document demo_spans]\<rparr>"

definition demo_api :: "real api" where
  "demo_api = quiet_api\<lparr>http := (\<lambda>_ _ _ _ _. ret demo_response)\<rparr>"

definition demo_scenario :: scenario where
  "demo_scenario = \<lparr>scenario_id = ''s'', title = [], description = [], category_of = ApplicationFault, faults = [],
     kubernetes = [], workload = [], expect = \<lparr>application = \<lparr>statuses = [], states = [], compensation = None,
       authorizations_per_order = None\<rparr>,
       telemetry = Some \<lparr>contract = ''normal-order'', parameters = []\<rparr>\<rparr>\<rparr>"

lemma service_demo [simp]: "service (demo_span svc sid pid nm st en a evs) = svc"
  by (simp add: service_def demo_span_def demo_resource_def dict_get_def)

lemma demo_fields [simp]:
  "span_trace_id (demo_span svc sid pid nm st en a evs) = replicate 32 CHR ''a''"
  "span_id (demo_span svc sid pid nm st en a evs) = demo_id sid"
  "parent_span_id (demo_span svc sid pid nm st en a evs) = pid"
  "span_name (demo_span svc sid pid nm st en a evs) = nm"
  "span_kind (demo_span svc sid pid nm st en a evs) = ''SERVER''"
  "span_status (demo_span svc sid pid nm st en a evs) = ''UNSET''"
  "start_unix_nano (demo_span svc sid pid nm st en a evs) = st"
  "end_unix_nano (demo_span svc sid pid nm st en a evs) = en"
  "span_attrs (demo_span svc sid pid nm st en a evs) = a"
  "span_events (demo_span svc sid pid nm st en a evs) = evs"
  "span_resource (demo_span svc sid pid nm st en a evs) = demo_resource svc"
  "is_root (demo_span svc sid pid nm st en a evs) \<longleftrightarrow> pid = []"
  by (simp_all add: demo_span_def is_root_def)

lemma demo_id_simps [simp]: "demo_id c = demo_id d \<longleftrightarrow> c = d" "demo_id c \<noteq> []" "[] \<noteq> demo_id c"
  by (simp_all add: demo_id_def)

lemma demo_documentable: "\<forall>s \<in> set demo_spans. documentable s"
proof -
  have "documentable (demo_span svc sid pid nm st en a evs)"
    if "sid \<in> set ''123456''" "pid = [] \<or> pid = demo_id CHR ''1'' \<or> pid = demo_id CHR ''2''" "plain_attrs a"
      "\<forall>ev \<in> set evs. plain_attrs (event_attrs ev)" for svc sid pid nm st en a evs
    using that by (auto simp: documentable_def hex_id_def demo_id_def plain_attrs_def demo_resource_def)
  moreover have "plain_attrs []" "plain_attrs [(''scenario.run_id'', PStr ''r'')]"
    "plain_attrs [(''correlation.id'', PStr ''c''), (''scenario.run_id'', PStr ''r''), (''order.state'', PStr ''Completed'')]"
    "\<forall>ev \<in> set (map demo_event FULL_PATH). plain_attrs (event_attrs ev)"
    by (auto simp: plain_attrs_def demo_event_def)
  ultimately show ?thesis by (simp add: demo_spans_def)
qed

lemma demo_grouped: "group_traces demo_spans = [demo_trace]"
proof -
  have "group_by span_trace_id demo_spans = [(replicate 32 CHR ''a'', demo_spans)]"
    by (simp add: demo_spans_def group_by_def dict_append_def dict_put_def dict_get_def)
  moreover have "sort_key start_unix_nano demo_spans = demo_spans"
    by (simp add: demo_spans_def)
  ultimately show ?thesis by (simp add: group_traces_def demo_trace_def)
qed

lemma demo_services: "services demo_trace = set ALL_SERVICES"
  by (auto simp: services_def demo_trace_def demo_spans_def ALL_SERVICES_def EDGE_SERVICE_def DOTNET_SERVICES_def
    ORDER_SERVICE_def DOWNSTREAM_def)

lemma demo_get: "get_trace demo_api (replicate 32 CHR ''a'') w = (Inr (Some demo_trace), w)"
  using parse_trace_documents [OF demo_documentable]
  by (simp add: get_trace_def jaeger_get_def bindA_apply call_def demo_api_def demo_response_def traces_in_def
    raise_for_status_def documents_def demo_grouped) (simp add: demo_trace_def)

lemma demo_integrity: "gateway_span_gaps demo_trace = Inr []" "integrity demo_trace = Inr []"
  by (simp_all add: integrity_def gateway_span_gaps_def by_service_def demo_trace_def demo_spans_def EDGE_SERVICE_def
    known_ids_def)

lemma demo_topology: "topology demo_trace ALL_SERVICES [] = []"
  unfolding topology_iff topology_ok_def demo_services
  by (simp add: demo_trace_def demo_spans_def parent_of_def ALLOWED_EDGES_def EDGE_SERVICE_def ORDER_SERVICE_def
    DOWNSTREAM_def)

lemma demo_named:
  "named demo_trace ''inventory.reserve'' = [demo_spans ! 2]" "named demo_trace ''fraud.evaluate'' = [demo_spans ! 3]"
  "named demo_trace ''payment.authorize'' = [demo_spans ! 4]" "named demo_trace ''shipping.create'' = [demo_spans ! 5]"
  "named demo_trace ''order.transaction'' = [demo_spans ! 1]"
  "nm \<in> set COMPENSATION_STAGES \<Longrightarrow> named demo_trace nm = []"
  by (auto simp: named_def demo_trace_def demo_spans_def COMPENSATION_STAGES_def)

lemma demo_stage_order: "stage_order demo_trace = []"
  unfolding stage_order_iff ordered_stages_def
  by (simp add: demo_named) (simp add: demo_spans_def overlaps_def)

lemma demo_states: "state_path demo_trace FULL_PATH = Inr []" "error_marking demo_trace False = []"
proof -
  have tx: "transaction demo_trace = Some (demo_spans ! 1)"
    by (simp add: transaction_def single_def demo_named)
  show "state_path demo_trace FULL_PATH = Inr []"
    unfolding state_path_iff tx
    by (simp add: demo_spans_def state_events_def FULL_PATH_def demo_event_def attr_def dict_get_def)
  show "error_marking demo_trace False = []"
    unfolding error_marking_iff tx by (simp add: demo_spans_def)
qed

lemma demo_metadata: "kubernetes_metadata demo_trace = []"
  unfolding kubernetes_metadata_iff
  by (simp add: demo_trace_def demo_spans_def K8S_KEYS_def demo_resource_def attr_def dict_get_def)

lemma demo_correlation: "correlation demo_trace demo_request ''r'' = Inr []"
  unfolding correlation_iff correlated_def
  by (simp add: transaction_def single_def demo_named)
    (simp add: by_service_def demo_trace_def demo_spans_def ORDER_SERVICE_def DOWNSTREAM_def carries_def
      demo_request_def attr_def dict_get_def)

lemma demo_sensitive: "sensitive_data demo_trace [canary ''r''] = []"
proof -
  have "\<not> sublist ''y-r'' (trace_dump demo_trace)"
    by (simp add: trace_dump_def demo_trace_def demo_spans_def demo_resource_def demo_event_def FULL_PATH_def
      json_text_def json_char_def json_plain_def sublist_code)
  moreover have "sublist ''y-r'' (canary ''r'')" by (simp add: canary_def sublist_code)
  ultimately have "\<not> sublist (canary ''r'') (trace_dump demo_trace)"
    using sublist_order.order_trans by blast
  moreover have "\<not> sensitive_key k" if "k \<in> set [''correlation.id'', ''scenario.run_id'', ''order.state'']" for k
    using that by (auto simp: sensitive_key_def sensitive_words_def lower_def lower_char_def less_eq_char_def sublist_code)
  ultimately show ?thesis
    by (simp add: sensitive_data_def demo_trace_def demo_spans_def dict_keys_def)
qed

lemmas demo_checks = demo_integrity demo_topology demo_stage_order demo_states demo_metadata demo_correlation demo_sensitive

lemma demo_trace_for:
  "\<exists>w'. trace_for demo_api demo_request ALL_SERVICES w = (Inr (Some demo_trace), w')"
proof -
  have "\<exists>n. polls 60 2 = Suc n" by (simp add: polls_def)
  then obtain n where n: "polls 60 2 = Suc n" ..
  have clock: "monotonic_clock demo_api = getW id" by (simp add: demo_api_def quiet_api_def)
  show ?thesis
    by (simp add: trace_for_def demo_request_def wait_for_trace_def n bindA_apply clock call_def demo_get demo_services)
qed


end
