(* ===== verification/Stats.thy ===== *)
theory Stats
  imports Prelude
begin

section \<open>Tolerance of sampling checks (stats.py)\<close>

text \<open>
  The band of successes that the sampling checks accept, in exact real arithmetic where the source uses
  floats.
\<close>

record band =
  low :: int
  high :: int
  expected_count :: real

definition contains :: "band \<Rightarrow> int \<Rightarrow> bool" where
  "contains b v \<longleftrightarrow> low b \<le> v \<and> v \<le> high b"

definition binomial_band :: "int \<Rightarrow> real \<Rightarrow> real \<Rightarrow> band result" where
  "binomial_band trials probability sigmas =
     (if trials \<le> 0 \<or> \<not> (0 \<le> probability \<and> probability \<le> 1) then Inl ValueError
      else (let e = of_int trials * probability;
                spread = sigmas * sqrt (of_int trials * probability * (1 - probability))
            in Inr \<lparr>low = max 0 \<lfloor>e - spread\<rfloor>, high = min trials \<lceil>e + spread\<rceil>, expected_count = e\<rparr>))"

lemma binomial_band_Inr:
  "binomial_band n p s = Inr b \<Longrightarrow> 0 < n \<and> 0 \<le> p \<and> p \<le> 1 \<and>
     low b = max 0 \<lfloor>of_int n * p - s * sqrt (of_int n * p * (1 - p))\<rfloor> \<and>
     high b = min n \<lceil>of_int n * p + s * sqrt (of_int n * p * (1 - p))\<rceil>"
  by (auto simp: binomial_band_def Let_def split: if_splits)

text \<open>
  The band lies between 0 and the number of trials, contains the numbers next to the
  expected count, and is symmetric: the band for the complementary probability counts the failures of
  the same outcomes. For probability 0 or 1 it is a single number.
\<close>

theorem binomial_band_sound:
  assumes "binomial_band n p s = Inr b" and "0 \<le> s" and "binomial_band n (1 - p) s = Inr c"
  shows "0 \<le> low b \<and> high b \<le> n \<and> low b \<le> high b \<and>
    contains b \<lfloor>of_int n * p\<rfloor> \<and> contains b \<lceil>of_int n * p\<rceil> \<and>
    (\<forall>k. contains c k \<longleftrightarrow> contains b (n - k)) \<and> (p = 0 \<or> p = 1 \<longrightarrow> low b = high b)"
proof -
  let ?e = "of_int n * p" and ?d = "s * sqrt (of_int n * p * (1 - p))"
  have b: "0 < n" "0 \<le> p" "p \<le> 1" "low b = max 0 \<lfloor>?e - ?d\<rfloor>" "high b = min n \<lceil>?e + ?d\<rceil>"
    using binomial_band_Inr [OF assms(1)] by auto
  have c: "low c = max 0 \<lfloor>of_int n * (1 - p) - ?d\<rfloor>" "high c = min n \<lceil>of_int n * (1 - p) + ?d\<rceil>"
    using binomial_band_Inr [OF assms(3)] by (auto simp: mult.commute mult.left_commute)
  have d: "0 \<le> ?d" using assms(2) b by (simp add: mult_nonneg_nonneg)
  have e: "0 \<le> ?e" "?e \<le> of_int n" using b by (simp_all add: mult_left_le)
  have fl: "\<lfloor>?e - ?d\<rfloor> \<le> \<lfloor>?e\<rfloor>" "\<lceil>?e\<rceil> \<le> \<lceil>?e + ?d\<rceil>" using d by (simp_all add: floor_mono ceiling_mono)
  have en: "0 \<le> \<lfloor>?e\<rfloor>" "\<lfloor>?e\<rfloor> \<le> \<lceil>?e\<rceil>" "\<lceil>?e\<rceil> \<le> n" using e by (simp_all add: floor_le_ceiling ceiling_le)
  have "low c = n - high b"
  proof -
    have "of_int n * (1 - p) - ?d = of_int n - (?e + ?d)" by (simp add: algebra_simps)
    then have "\<lfloor>of_int n * (1 - p) - ?d\<rfloor> = n - \<lceil>?e + ?d\<rceil>" by linarith
    then show ?thesis using b(5) c(1) by auto
  qed
  moreover have "high c = n - low b"
  proof -
    have "of_int n * (1 - p) + ?d = of_int n - (?e - ?d)" by (simp add: algebra_simps)
    then have "\<lceil>of_int n * (1 - p) + ?d\<rceil> = n - \<lfloor>?e - ?d\<rfloor>" by linarith
    then show ?thesis using b(4) c(2) by auto
  qed
  ultimately have "\<forall>k. contains c k \<longleftrightarrow> contains b (n - k)" by (auto simp: contains_def)
  moreover have "low b = high b" if "p = 0 \<or> p = 1" using that b by auto
  moreover have "0 \<le> low b" "high b \<le> n" unfolding b(4,5) by simp_all
  moreover have lh: "low b \<le> \<lfloor>?e\<rfloor>" "\<lceil>?e\<rceil> \<le> high b" unfolding b(4,5) using fl en by simp_all
  moreover have "contains b \<lfloor>?e\<rfloor>" "contains b \<lceil>?e\<rceil>" "low b \<le> high b"
    using lh en(2) unfolding contains_def by linarith+
  ultimately show ?thesis by blast
qed

theorem binomial_band_sound_witness:
  "\<exists>b c. binomial_band 10 1 4 = Inr b \<and> binomial_band 10 (1 - 1) 4 = Inr c \<and> low b = high b"
proof -
  obtain b where b: "binomial_band 10 1 4 = Inr b" by (simp add: binomial_band_def Let_def)
  obtain c where c: "binomial_band 10 (1 - 1) 4 = Inr c" by (simp add: binomial_band_def Let_def)
  from binomial_band_sound [OF b _ c] have "low b = high b" by simp
  with b c show ?thesis by blast
qed

end
