(* ===== verification/Control.thy ===== *)
theory Control
  imports Kube
begin

section \<open>Operator actions (scenarios/control.py)\<close>

text \<open>
  Fault rules, circuit breakers, the payment ledger and Kubernetes workload changes. Every operation is
  an action on the world; a journal is named by the id of its run. The lemmas at the end say what each
  operation adds to the trail, from which the write-ahead order of whole runs follows.
\<close>

definition workload_of :: "string \<Rightarrow> (string \<times> workload_kind) result" where
  "workload_of nm = (case dict_get WORKLOADS nm of None \<Rightarrow> Inl (KeyError nm) | Some nk \<Rightarrow> Inr nk)"

definition read_workload_named :: "'k api \<Rightarrow> string \<Rightarrow> ('k world, workload_view) act" where
  "read_workload_named a nm =
     bindA (liftE (workload_of nm)) (\<lambda>(ns, knd). call (read_workload a knd nm ns))"

definition selector_text :: "workload_view \<Rightarrow> string" where
  "selector_text v = join '','' (map (\<lambda>(k, x). k @ CHR ''='' # x) (sort (match_labels v)))"

definition selector :: "'k api \<Rightarrow> string \<Rightarrow> ('k world, string) act" where
  "selector a nm = bindA (read_workload_named a nm) (\<lambda>v. ret (selector_text v))"

definition ready_pods :: "'k api \<Rightarrow> string \<Rightarrow> ('k world, string list) act" where
  "ready_pods a wl =
     bindA (liftE (workload_of wl)) (\<lambda>(ns, _). bindA (selector a wl) (\<lambda>sel.
       bindA (ready_pods_in a ns sel) (\<lambda>pods. ret (sort (map pod_name pods)))))"

definition running_pods :: "'k api \<Rightarrow> string \<Rightarrow> ('k world, string list) act" where
  "running_pods a wl =
     bindA (liftE (workload_of wl)) (\<lambda>(ns, _). bindA (selector a wl) (\<lambda>sel.
       bindA (running_pods_in a ns sel) (\<lambda>pods. ret (sort (map pod_name pods)))))"

subsection \<open>Faults\<close>

definition set_fault :: "'k api \<Rightarrow> fault_spec \<Rightarrow> string \<Rightarrow> string \<Rightarrow> ('k world, unit) act" where
  "set_fault a spec rid pod =
     bindA (journal_record rid (FaultEntry (fault_service spec) pod (fault_operation spec) (fault_mode_of spec))) (\<lambda>_.
     bindA (effect (FaultSet rid (fault_service spec) pod)
              (http a (PodPort pod) ''PUT'' ''/internal/faults'' [] (Some (PDict (to_rule spec rid))))) (\<lambda>response.
       if resp_status response \<noteq> 201 then raise RuntimeError else ret ()))"

definition apply_fault :: "'k api \<Rightarrow> fault_spec \<Rightarrow> string \<Rightarrow> ('k world, string list) act" where
  "apply_fault a spec rid =
     bindA (ready_pods a (fault_service spec)) (\<lambda>pods.
       if pods = [] then raise RuntimeError
       else (let targets = (if fault_replicas_of spec = AllReplicas then pods else take 1 pods) in
             bindA (forA targets (set_fault a spec rid)) (\<lambda>_. ret targets)))"

definition list_faults :: "'k api \<Rightarrow> string \<Rightarrow> ('k world, (string, pyval) dict) act" where
  "list_faults a svc =
     bindA (running_pods a svc) (\<lambda>pods.
     bindA (mapA (\<lambda>pod. bindA (call (http a (PodPort pod) ''GET'' ''/internal/faults'' [] None)) (\<lambda>response.
         liftE (bindE (raise_for_status response) (\<lambda>r. bindE (json_of r) (\<lambda>v. Inr (pod, v)))))) pods) (\<lambda>kvs.
     ret (dict_of kvs)))"

definition removed_count :: "http_response \<Rightarrow> int result" where
  "removed_count response =
     bindE (raise_for_status response) (\<lambda>r. bindE (json_of r) (\<lambda>v.
     bindE (py_get v ''removed'' (PInt 0)) py_int))"

definition clear_faults :: "'k api \<Rightarrow> string \<Rightarrow> ('k world, int) act" where
  "clear_faults a svc =
     bindA (running_pods a svc) (\<lambda>pods.
       foldA (\<lambda>removed pod.
         bindA (effect (FaultsCleared pod) (http a (PodPort pod) ''DELETE'' ''/internal/faults'' [] None)) (\<lambda>response.
         bindA (liftE (removed_count response)) (\<lambda>n. ret (removed + n)))) 0 pods)"

fun py_len :: "pyval \<Rightarrow> nat result" where
  "py_len (PList xs) = Inr (length xs)"
| "py_len (PDict d) = Inr (length d)"
| "py_len (PStr s) = Inr (length s)"
| "py_len _ = Inl TypeError"

definition leftover_faults :: "'k api \<Rightarrow> ('k world, (string, nat) dict) act" where
  "leftover_faults a =
     foldA (\<lambda>left svc. bindA (list_faults a svc) (\<lambda>found.
       liftE (foldE (\<lambda>acc (pod, rules).
         if truthy rules then bindE (py_len rules) (\<lambda>n. Inr (dict_put pod n acc)) else Inr acc) left found)))
       [] DOWNSTREAM_SERVICES"

subsection \<open>Circuit breakers and the payment ledger\<close>

definition reset_circuit_breakers :: "'k api \<Rightarrow> ('k world, unit) act" where
  "reset_circuit_breakers a =
     bindA (running_pods a ''order-service'') (\<lambda>pods.
       forA pods (\<lambda>pod. bindA (effect (BreakersReset pod)
           (http a (PodPort pod) ''POST'' ''/internal/resilience/reset'' [] None)) (\<lambda>response.
         liftE (raise_for_status response))))"

definition payment_authorizations :: "'k api \<Rightarrow> string list \<Rightarrow> ('k world, (string, pyval) dict) act" where
  "payment_authorizations a order_ids =
     bindA (ready_pods a ''payment-service'') (\<lambda>pods.
       case pods of
         [] \<Rightarrow> ret []
       | pod # _ \<Rightarrow>
           bindA (mapA (\<lambda>oid. bindA (call (http a (PodPort pod) ''GET'' (''/internal/payments/'' @ oid) [] None)) (\<lambda>response.
             liftE (bindE (raise_for_status response) (\<lambda>r. bindE (json_of r) (\<lambda>v. Inr (oid, v)))))) order_ids) (\<lambda>kvs.
           ret (dict_of kvs)))"

subsection \<open>Workload changes\<close>

definition delete_pod :: "'k api \<Rightarrow> string \<Rightarrow> string \<Rightarrow> ('k world, string) act" where
  "delete_pod a wl rid =
     bindA (liftE (workload_of wl)) (\<lambda>(ns, _).
     bindA (ready_pods a wl) (\<lambda>pods.
       case pods of
         [] \<Rightarrow> raise RuntimeError
       | pod # _ \<Rightarrow>
           bindA (call (read_pod_uid a pod ns)) (\<lambda>uid.
           bindA (journal_record rid (DeleteEntry wl pod uid)) (\<lambda>_.
           bindA (effect (PodDeleted rid wl pod) (delete_pod_call a pod ns)) (\<lambda>_. ret pod)))))"

definition rollout_restart :: "'k api \<Rightarrow> string \<Rightarrow> string \<Rightarrow> ('k world, unit) act" where
  "rollout_restart a wl rid =
     bindA (liftE (workload_of wl)) (\<lambda>(ns, knd).
     bindA (journal_record rid (RestartEntry wl)) (\<lambda>_.
     bindA (call (time_stamp a)) (\<lambda>stamp.
     effect (WorkloadRestarted rid wl) (patch_restart a knd wl ns stamp))))"

definition current_replicas :: "'k api \<Rightarrow> string \<Rightarrow> ('k world, int) act" where
  "current_replicas a wl = bindA (read_workload_named a wl) (\<lambda>v. ret (or0 (spec_replicas v)))"

definition set_replicas :: "'k api \<Rightarrow> event \<Rightarrow> string \<Rightarrow> int \<Rightarrow> ('k world, unit) act" where
  "set_replicas a ev wl n =
     bindA (liftE (workload_of wl)) (\<lambda>(ns, knd). effect ev (patch_scale a knd wl ns n))"

definition scale :: "'k api \<Rightarrow> string \<Rightarrow> int \<Rightarrow> string \<Rightarrow> ('k world, int) act" where
  "scale a wl n rid =
     bindA (current_replicas a wl) (\<lambda>original.
     bindA (journal_record rid (ScaleEntry wl original n)) (\<lambda>_.
     bindA (set_replicas a (WorkloadScaled rid wl n) wl n) (\<lambda>_. ret original)))"

definition restore_replicas :: "'k api \<Rightarrow> string \<Rightarrow> int \<Rightarrow> ('k world, unit) act" where
  "restore_replicas a wl n =
     catchA (set_replicas a (ReplicasRestored wl n) wl n)
       (\<lambda>e. if e = ApiException 404 then ret () else raise e)"

definition wait_rollout_complete :: "'k api \<Rightarrow> string \<Rightarrow> real \<Rightarrow> ('k world, unit) act" where
  "wait_rollout_complete a wl timeout =
     bindA (liftE (workload_of wl)) (\<lambda>(ns, knd).
       if knd = Deployment then wait_deployment_available a ns wl timeout
       else wait_statefulset_ready a ns wl timeout)"

section \<open>What the operations leave on the trail\<close>

text \<open>
  \<open>ordered\<close> relates a world to a later one: the trail only grew, every change on it is still announced
  before it is made, and the journal file of every run has grown by exactly the entries the trail shows.
  It is a preorder, so the lemmas of \<open>step_rel\<close> carry it through every operation.
\<close>

definition grew :: "'k world \<Rightarrow> 'k world \<Rightarrow> event list \<Rightarrow> bool" where
  "grew w w' new \<longleftrightarrow> trail w' = trail w @ new \<and>
     (\<forall>rid. journal_entries rid w' = journal_entries rid w @ map entry_object (journaled rid new))"

definition ordered :: "'k world \<Rightarrow> 'k world \<Rightarrow> bool" where
  "ordered w w' \<longleftrightarrow> (\<exists>new. grew w w' new) \<and> (write_ahead (trail w) \<longrightarrow> write_ahead (trail w'))"

lemma grew_refl: "grew w w []"
  by (simp add: grew_def)

lemma grew_trans: "grew u v xs \<Longrightarrow> grew v w ys \<Longrightarrow> grew u w (xs @ ys)"
  by (simp add: grew_def journaled_append)

lemma ordered_refl: "ordered w w"
  using grew_refl by (auto simp: ordered_def)

lemma ordered_trans: "ordered u v \<Longrightarrow> ordered v w \<Longrightarrow> ordered u w"
  unfolding ordered_def using grew_trans by blast

interpretation ord: step_rel "ordered :: 'k world \<Rightarrow> 'k world \<Rightarrow> bool"
  by unfold_locales (blast intro: ordered_refl ordered_trans)+

lemma ordered_call: "steps ordered (call m)"
proof (rule stepsI)
  fix w r w' assume "call m w = (r, w')"
  then have "grew w w' []"
    using call_keeps [of m w] by (simp add: grew_def journal_entries_def)
  then show "ordered w w'" by (auto simp: ordered_def grew_def)
qed

lemma ordered_unchanged:
  assumes "\<And>w. trail (f w) = trail w" and "\<And>w. journal_files (f w) = journal_files w"
  shows "steps ordered (modW f)"
  using assms by (auto simp: steps_def ordered_def grew_def journal_entries_def intro!: exI [of _ "[]"])

lemma ordered_effect_free:
  assumes "changed_by ev = None" and "\<And>r e. ev \<noteq> Journaled r e"
  shows "steps ordered (effect ev m)"
proof (rule stepsI)
  fix w r w' assume "effect ev m w = (r, w')"
  then have "grew w w' [ev]"
    using effect_keeps [of ev m w] assms(2) by (auto simp: grew_def journal_entries_def split: event.splits)
  moreover have "announced (trail w) ev" using assms(1) by (simp add: announced_def)
  ultimately show "ordered w w'" by (auto simp: ordered_def grew_def write_ahead_snoc)
qed

lemma ordered_journal: "steps ordered (journal_record rid e)"
proof (rule stepsI)
  fix w r w' assume "journal_record rid e w = (r, w')"
  then have w': "w' = snd (journal_record rid e w)" by simp
  have "grew w w' [Journaled rid e]"
    unfolding grew_def w' by (auto simp: journal_record_trail journal_entries_record)
  then show "ordered w w'" by (auto simp: ordered_def grew_def write_ahead_snoc announced_def)
qed

text \<open>
  \<open>under ev m\<close>: once \<open>ev\<close> is announced, \<open>m\<close> keeps the order; this is how a change is reached from its
  journal entry over the calls between them.
\<close>

definition under :: "event \<Rightarrow> ('k world, 'a) act \<Rightarrow> bool" where
  "under ev m \<longleftrightarrow> (\<forall>w. announced (trail w) ev \<longrightarrow> ordered w (snd (m w)))"

lemma ordered_announced: "ordered w w' \<Longrightarrow> announced (trail w) ev \<Longrightarrow> announced (trail w') ev"
  by (auto simp: ordered_def grew_def intro: announced_mono)

lemma under_steps: "steps ordered m \<Longrightarrow> under ev m"
  by (simp add: under_def steps_def)

lemma under_effect:
  fixes m :: "('k, 'a) act"
  assumes ev: "\<And>r e. ev \<noteq> Journaled r e"
  shows "under ev (effect ev m)"
  unfolding under_def
proof (intro allI impI)
  fix w :: "'k world" assume ann: "announced (trail w) ev"
  have "grew w (snd (effect ev m w)) [ev]"
    using effect_keeps [of ev m w] ev by (auto simp: grew_def journal_entries_def split: event.splits)
  with ann show "ordered w (snd (effect ev m w))" by (auto simp: ordered_def grew_def write_ahead_snoc)
qed

lemma under_bind_first:
  fixes m :: "('k world, 'a) act"
  assumes m: "steps ordered m" and f: "\<And>a. under ev (f a)"
  shows "under ev (bindA m f)"
  unfolding under_def
proof (intro allI impI)
  fix w :: "'k world" assume ann: "announced (trail w) ev"
  obtain r w1 where w1: "m w = (r, w1)" by (cases "m w")
  then have o1: "ordered w w1" using m by (rule stepsD [rotated])
  then have "announced (trail w1) ev" using ann by (rule ordered_announced)
  with o1 f show "ordered w (snd (bindA m f w))"
    by (cases r) (auto simp: bindA_apply w1 under_def intro: ordered_trans)
qed

lemma under_bind_last:
  fixes m :: "('k world, 'a) act"
  assumes m: "under ev m" and f: "\<And>a. steps ordered (f a)"
  shows "under ev (bindA m f)"
  unfolding under_def
proof (intro allI impI)
  fix w :: "'k world" assume ann: "announced (trail w) ev"
  obtain r w1 where w1: "m w = (r, w1)" by (cases "m w")
  then have "ordered w w1" using m ann by (metis snd_conv under_def)
  then show "ordered w (snd (bindA m f w))"
    using f by (cases r) (auto simp: bindA_apply w1 steps_def intro: ordered_trans)
qed

lemma ordered_journal_then:
  fixes m :: "('k world, 'a) act"
  assumes "announces e ev" and "changed_by ev = Some rid" and "under ev m"
  shows "steps ordered (bindA (journal_record rid e) (\<lambda>_. m))"
proof (rule stepsI)
  fix w :: "'k world" and r w' assume run: "bindA (journal_record rid e) (\<lambda>_. m) w = (r, w')"
  obtain w1 where w1: "journal_record rid e w = (Inr (), w1)" by (simp add: journal_record_def)
  with run have eff: "m w1 = (r, w')" by (simp add: bindA_apply)
  have "trail w1 = trail w @ [Journaled rid e]" using journal_record_trail [of rid e w] w1 by simp
  then have "announced (trail w1) ev" using assms(1,2) by (auto simp: announced_def)
  then have "ordered w1 w'" using assms(3) eff by (metis snd_conv under_def)
  moreover have "ordered w w1" using ordered_journal w1 by (rule stepsD)
  ultimately show "ordered w w'" by (rule ordered_trans [rotated])
qed

subsection \<open>Every operation keeps the order\<close>

lemma ordered_save: "steps ordered (save_record r)"
proof (rule stepsI)
  fix w x w' assume "save_record r w = (x, w')"
  then have "grew w w' [RecordSaved r]"
    by (auto simp: grew_def save_record_def journal_entries_def)
  then show "ordered w w'" by (auto simp: ordered_def grew_def write_ahead_snoc announced_def)
qed

lemma ordered_update_active: "steps ordered (update_active f)"
  unfolding update_active_def by (rule ordered_unchanged) simp_all

lemma ordered_load: "steps ordered (load rid)"
  by (simp add: steps_def load_def ordered_refl)

lemma ordered_read_workload: "steps ordered (read_workload_named a nm)"
  by (auto simp: read_workload_named_def intro!: ord.steps_intros ordered_call split: prod.splits)

lemmas ordered_reads = ordered_call ordered_read_workload

lemma ordered_ready_pods: "steps ordered (ready_pods a wl)"
  by (auto simp: ready_pods_def selector_def ready_pods_in_def running_pods_in_def
    intro!: ord.steps_intros ordered_reads split: prod.splits)

lemma ordered_running_pods: "steps ordered (running_pods a wl)"
  by (auto simp: running_pods_def selector_def running_pods_in_def
    intro!: ord.steps_intros ordered_reads split: prod.splits)

lemma ordered_poll: "steps ordered p \<Longrightarrow> steps ordered (poll n a deadline interval p)"
proof (induction n)
  case (Suc n)
  have "steps ordered (catchA p tolerate_api_errors)"
    using Suc.prems by (auto simp: tolerate_api_errors_def intro!: ord.steps_intros split: exn.splits)
  with Suc show ?case
    by (auto intro!: ord.steps_intros ordered_call split: option.splits)
qed (auto intro: ord.steps_intros)

lemma ordered_wait_rollout: "steps ordered (wait_rollout_complete a wl timeout)"
  by (auto simp: wait_rollout_complete_def wait_deployment_available_def wait_statefulset_ready_def wait_for_def
    truth_def deployment_available_def statefulset_ready_def
    intro!: ord.steps_intros ordered_call ordered_poll split: prod.splits)

lemma ordered_set_fault: "steps ordered (set_fault a spec rid pod)"
  unfolding set_fault_def
  by (rule ordered_journal_then [where ev = "FaultSet rid (fault_service spec) pod"])
    (auto intro!: under_bind_last under_effect ord.steps_intros)

lemma ordered_apply_fault: "steps ordered (apply_fault a spec rid)"
  by (auto simp: apply_fault_def Let_def intro!: ord.steps_intros ordered_ready_pods ordered_set_fault)

lemma ordered_list_faults: "steps ordered (list_faults a svc)"
  by (auto simp: list_faults_def intro!: ord.steps_intros ordered_running_pods ordered_call)

lemma ordered_clear_faults: "steps ordered (clear_faults a svc)"
  by (auto simp: clear_faults_def intro!: ord.steps_intros ordered_running_pods ordered_effect_free)

lemma ordered_leftover_faults: "steps ordered (leftover_faults a)"
  by (auto simp: leftover_faults_def intro!: ord.steps_intros ordered_list_faults)

lemma ordered_reset_breakers: "steps ordered (reset_circuit_breakers a)"
  by (auto simp: reset_circuit_breakers_def intro!: ord.steps_intros ordered_running_pods ordered_effect_free)

lemma ordered_payments: "steps ordered (payment_authorizations a oids)"
  by (auto simp: payment_authorizations_def intro!: ord.steps_intros ordered_ready_pods ordered_call
    split: list.splits)

lemma ordered_delete_pod: "steps ordered (delete_pod a wl rid)"
proof -
  have "steps ordered (bindA (journal_record rid (DeleteEntry wl pod uid)) (\<lambda>_.
           bindA (effect (PodDeleted rid wl pod) (delete_pod_call a pod ns)) (\<lambda>_. ret pod)))" for pod uid ns
    by (rule ordered_journal_then [where ev = "PodDeleted rid wl pod"])
      (auto intro!: under_bind_last under_effect ord.steps_intros)
  from ord.steps_bindA [OF ordered_call this] show ?thesis
    unfolding delete_pod_def
    by (intro ord.steps_bindA [OF ord.steps_liftE])
      (auto intro!: ord.steps_bindA [OF ordered_ready_pods] ord.steps_raise split: prod.splits list.splits)
qed

lemma ordered_rollout_restart: "steps ordered (rollout_restart a wl rid)"
proof -
  have "steps ordered (bindA (journal_record rid (RestartEntry wl)) (\<lambda>_. bindA (call (time_stamp a)) (\<lambda>stamp.
     effect (WorkloadRestarted rid wl) (patch_restart a knd wl ns stamp))))" for knd ns
    by (rule ordered_journal_then [where ev = "WorkloadRestarted rid wl"])
      (auto intro!: under_bind_first under_effect ordered_call)
  then show ?thesis
    unfolding rollout_restart_def by (intro ord.steps_bindA [OF ord.steps_liftE]) (auto split: prod.splits)
qed

lemma ordered_current_replicas: "steps ordered (current_replicas a wl)"
  by (auto simp: current_replicas_def intro!: ord.steps_intros ordered_read_workload)

lemma under_set_replicas: "(\<And>r e. ev \<noteq> Journaled r e) \<Longrightarrow> under ev (set_replicas a ev wl n)"
  by (auto simp: set_replicas_def intro!: under_bind_first under_effect ord.steps_intros split: prod.splits)

lemma ordered_scale: "steps ordered (scale a wl n rid)"
proof -
  have "steps ordered (bindA (journal_record rid (ScaleEntry wl original n)) (\<lambda>_.
     bindA (set_replicas a (WorkloadScaled rid wl n) wl n) (\<lambda>_. ret original)))" for original
    by (rule ordered_journal_then [where ev = "WorkloadScaled rid wl n"])
      (auto intro!: under_bind_last under_set_replicas ord.steps_intros)
  then show ?thesis
    unfolding scale_def by (rule ord.steps_bindA [OF ordered_current_replicas])
qed

lemma ordered_restore_replicas: "steps ordered (restore_replicas a wl n)"
  by (auto simp: restore_replicas_def set_replicas_def intro!: ord.steps_intros ordered_effect_free
    split: prod.splits)

lemmas ordered_control =
  ordered_call ordered_save ordered_update_active ordered_load ordered_ready_pods ordered_running_pods
  ordered_wait_rollout ordered_apply_fault ordered_clear_faults ordered_leftover_faults ordered_reset_breakers
  ordered_payments ordered_delete_pod ordered_rollout_restart ordered_scale ordered_restore_replicas

subsection \<open>Only certain events\<close>

text \<open>Worlds between which only events of a set were issued, and no file was written.\<close>

definition only :: "event set \<Rightarrow> 'k world \<Rightarrow> 'k world \<Rightarrow> bool" where
  "only evs w w' \<longleftrightarrow> record_files w' = record_files w \<and> journal_files w' = journal_files w \<and>
     (\<exists>new. trail w' = trail w @ new \<and> set new \<subseteq> evs)"

interpretation few: step_rel "only evs :: 'k world \<Rightarrow> 'k world \<Rightarrow> bool" for evs
proof
  fix u v w :: "'k world" assume uv: "only evs u v" and vw: "only evs v w"
  obtain new new' where "trail v = trail u @ new" "set new \<subseteq> evs" "trail w = trail v @ new'" "set new' \<subseteq> evs"
    using uv vw by (auto simp: only_def)
  then have "\<exists>new. trail w = trail u @ new \<and> set new \<subseteq> evs" by (intro exI [of _ "new @ new'"]) auto
  with uv vw show "only evs u w" by (simp add: only_def)
qed (simp add: only_def)

lemma only_call: "steps (only evs) (call m)"
  by (auto simp: steps_def only_def call_keeps)

lemma only_effect: "ev \<in> evs \<Longrightarrow> steps (only evs) (effect ev m)"
  by (auto simp: steps_def only_def effect_keeps)

lemma only_mono: "steps (only evs) m \<Longrightarrow> evs \<subseteq> evs' \<Longrightarrow> steps (only evs') m"
  unfolding steps_def only_def by blast

lemma only_poll: "steps (only evs) p \<Longrightarrow> steps (only evs) (poll n a deadline interval p)"
proof (induction n)
  case (Suc n)
  have "steps (only evs) (catchA p tolerate_api_errors)"
    using Suc.prems by (auto simp: tolerate_api_errors_def intro!: few.steps_intros split: exn.splits)
  with Suc show ?case
    by (auto intro!: few.steps_intros only_call split: option.splits)
qed (auto intro: few.steps_intros)

lemma only_wait_for: "steps (only evs) p \<Longrightarrow> steps (only evs) (wait_for a p timeout interval)"
  by (auto simp: wait_for_def intro!: few.steps_intros only_call only_poll)

lemma only_truth: "steps (only evs) m \<Longrightarrow> steps (only evs) (truth m)"
  by (auto simp: truth_def intro!: few.steps_intros)

lemma only_wait_deployment: "steps (only evs) (wait_deployment_available a ns nm timeout)"
  by (auto simp: wait_deployment_available_def deployment_available_def
    intro!: only_wait_for only_truth few.steps_intros only_call)

lemma only_wait_statefulset: "steps (only evs) (wait_statefulset_ready a ns nm timeout)"
  by (auto simp: wait_statefulset_ready_def statefulset_ready_def
    intro!: only_wait_for only_truth few.steps_intros only_call)

end
