(* ===== verification/Readonly.thy ===== *)
theory Readonly
  imports Contracts Control
begin

section \<open>What only looks\<close>

text \<open>
  \<open>unchanged\<close> relates worlds that differ only in the outside: no changing call was issued, no file was
  written and the record in progress is the same. Readiness checks, polling, the queries to Jaeger and
  Prometheus and with them every telemetry contract stay within it.
\<close>

definition unchanged :: "'k world \<Rightarrow> 'k world \<Rightarrow> bool" where
  "unchanged w w' \<longleftrightarrow> trail w' = trail w \<and> journal_files w' = journal_files w \<and>
     record_files w' = record_files w \<and> active w' = active w"

interpretation look: step_rel "unchanged :: 'k world \<Rightarrow> 'k world \<Rightarrow> bool"
  by unfold_locales (simp_all add: unchanged_def)

lemma looks_call [intro!]: "steps unchanged (call m)"
  by (simp add: steps_def unchanged_def call_keeps)

lemma looks_ordered: "steps unchanged m \<Longrightarrow> steps ordered m"
  by (auto simp: steps_def unchanged_def ordered_def grew_def journal_entries_def intro!: exI [of _ "[]"])

declare look.steps_intros [intro!]

lemma looks_read_workload [intro!]: "steps unchanged (read_workload_named a nm)"
  by (auto simp: read_workload_named_def split: prod.splits)

lemma looks_ready_pods [intro!]: "steps unchanged (ready_pods a wl)"
  by (auto simp: ready_pods_def selector_def ready_pods_in_def running_pods_in_def split: prod.splits)

lemma looks_running_pods [intro!]: "steps unchanged (running_pods a wl)"
  by (auto simp: running_pods_def selector_def running_pods_in_def split: prod.splits)

lemma looks_poll [intro!]: "steps unchanged p \<Longrightarrow> steps unchanged (poll n a deadline interval p)"
proof (induction n)
  case (Suc n)
  have "steps unchanged (catchA p tolerate_api_errors)"
    using Suc.prems by (auto simp: tolerate_api_errors_def split: exn.splits)
  with Suc show ?case by (auto split: option.splits)
qed auto

lemma looks_wait_rollout [intro!]: "steps unchanged (wait_rollout_complete a wl timeout)"
  by (auto simp: wait_rollout_complete_def wait_deployment_available_def wait_statefulset_ready_def wait_for_def
    truth_def deployment_available_def statefulset_ready_def split: prod.splits)

lemma looks_list_faults [intro!]: "steps unchanged (list_faults a svc)"
  by (auto simp: list_faults_def)

lemma looks_leftover_faults [intro!]: "steps unchanged (leftover_faults a)"
  by (auto simp: leftover_faults_def)

lemma looks_payments [intro!]: "steps unchanged (payment_authorizations a oids)"
  by (auto simp: payment_authorizations_def split: list.splits)

subsection \<open>Telemetry queries\<close>

lemma looks_jaeger [intro!]: "steps unchanged (jaeger_get a path params)"
  by (auto simp: jaeger_get_def)

lemma looks_get_trace [intro!]: "steps unchanged (get_trace a tid)"
  by (auto simp: get_trace_def)

lemma looks_trace_poll [intro!]: "steps unchanged (trace_poll n a tid until_ok deadline interval latest)"
proof (induction n arbitrary: latest)
  case (Suc n)
  then show ?case by (auto split: option.splits)
qed auto

lemma looks_wait_for_trace [intro!]: "steps unchanged (wait_for_trace a tid timeout until_ok)"
  by (auto simp: wait_for_trace_def)

lemma looks_find_traces [intro!]: "steps unchanged (find_traces a svc t0 t1 wanted op limit)"
  by (auto simp: find_traces_def)

lemma looks_prom_query [intro!]: "steps unchanged (prom_query a expression)"
  by (auto simp: prom_query_def)

lemma looks_total [intro!]: "steps unchanged (total a expression)"
  by (auto simp: total_def)

lemma looks_max_over [intro!]: "steps unchanged (max_over a sel seconds)"
  by (auto simp: max_over_def)

lemma looks_metric_delta [intro!]: "steps unchanged (metric_delta a e key)"
  by (auto simp: metric_delta_def)

lemma looks_delta_poll [intro!]: "steps unchanged (delta_poll n a e key expected deadline delta)"
  by (induction n arbitrary: delta) auto

lemma looks_wait_metric_delta [intro!]: "steps unchanged (wait_metric_delta a e key expected timeout)"
  by (auto simp: wait_metric_delta_def)

lemma looks_trace_for [intro!]: "steps unchanged (trace_for a request required)"
  by (auto simp: trace_for_def)

lemma looks_stored_traces [intro!]: "steps unchanged (stored_traces a rs required nm c)"
  by (auto simp: stored_traces_def split: prod.splits option.splits)

lemma looks_per_trace [intro!]: "steps unchanged (per_trace a f rs required nm c)"
  by (auto simp: per_trace_def split: prod.splits)

lemma looks_retained [intro!]: "steps unchanged (retained_by_window a e svc)"
  by (auto simp: retained_by_window_def Let_def)

lemma looks_edge_rejection [intro!]: "steps unchanged (edge_rejection st metric a e c)"
  by (auto simp: edge_rejection_def Let_def split: option.splits)

lemma looks_no_new_errors [intro!]: "steps unchanged (no_new_errors a e nm c)"
  by (auto simp: no_new_errors_def)

lemma looks_storage_request [intro!]: "steps unchanged (storage_request a e deadline request c)"
  by (auto simp: storage_request_def split: option.splits)

subsection \<open>Every contract\<close>

lemma looks_normal_order [intro!]: "steps unchanged (normal_order a e c)"
  by (auto simp: normal_order_def Let_def split: prod.splits option.splits)

lemma looks_slow_payment [intro!]: "steps unchanged (slow_payment a e c)"
  by (auto simp: slow_payment_def Let_def split: prod.splits option.splits)

lemma looks_payment_retry [intro!]: "steps unchanged (payment_retry a e c)"
  by (auto simp: payment_retry_def Let_def split: prod.splits option.splits)

lemma looks_pod_deletion [intro!]: "steps unchanged (pod_deletion a e c)"
  by (auto simp: pod_deletion_def Let_def split: prod.splits option.splits)

lemma looks_rolling_restart [intro!]: "steps unchanged (rolling_restart a e c)"
  by (auto simp: rolling_restart_def Let_def split: prod.splits option.splits)

lemma looks_readiness_loss [intro!]: "steps unchanged (readiness_loss a e c)"
  by (auto simp: readiness_loss_def Let_def split: prod.splits option.splits)

lemma looks_replica_degradation [intro!]: "steps unchanged (replica_degradation a e c)"
  by (auto simp: replica_degradation_def Let_def split: prod.splits option.splits)

lemma looks_kong_rate_limit [intro!]: "steps unchanged (kong_rate_limit a e c)"
  by (auto simp: kong_rate_limit_def Let_def split: prod.splits option.splits)

lemma looks_oversized_request [intro!]: "steps unchanged (oversized_request a e c)"
  by (auto simp: oversized_request_def Let_def split: prod.splits option.splits)

lemma looks_auth_denied [intro!]: "steps unchanged (auth_denied a e c)"
  by (auto simp: auth_denied_def Let_def split: prod.splits option.splits)

lemma looks_traffic_spike [intro!]: "steps unchanged (traffic_spike a e c)"
  by (auto simp: traffic_spike_def Let_def split: prod.splits option.splits)

lemma looks_collector_outage [intro!]: "steps unchanged (collector_outage a e c)"
  by (auto simp: collector_outage_def Let_def split: prod.splits option.splits)

lemma looks_trace_storage_outage [intro!]: "steps unchanged (trace_storage_outage a e c)"
  by (auto simp: trace_storage_outage_def Let_def split: prod.splits option.splits)

lemma looks_dependency_unavailable [intro!]: "steps unchanged (dependency_unavailable a e c)"
  by (auto simp: dependency_unavailable_def Let_def split: prod.splits option.splits)

lemma looks_failed_flow [intro!]: "steps unchanged (failed_flow_contract f a e c)"
  by (auto simp: failed_flow_contract_def Let_def)

lemma looks_contracts: "(nm, run_contract) \<in> set CONTRACTS \<Longrightarrow> steps unchanged (run_contract a e c)"
  by (auto simp: CONTRACTS_def)

lemma looks_snapshot [intro!]: "steps unchanged (snapshot_metrics a sc r)"
  by (auto simp: snapshot_metrics_def split: option.splits)

lemma looks_verify [intro!]: "steps unchanged (verify a sc r)"
  by (auto simp: verify_def Let_def dict_get_def dest!: map_of_SomeD looks_contracts split: option.splits)

text \<open>
  Checking the telemetry of a run never changes what it looks at: whatever the platform
  answers and whichever contract the scenario names, taking the metrics snapshot and verifying issue no
  changing call, write no file and leave the record in progress to the caller, also when they raise.
\<close>

theorem verify_only_looks:
  "trail (snd (verify a sc r w)) = trail w \<and> trail (snd (snapshot_metrics a sc r w)) = trail w \<and>
   journal_files (snd (verify a sc r w)) = journal_files w \<and> record_files (snd (verify a sc r w)) = record_files w \<and>
   active (snd (verify a sc r w)) = active w"
  using looks_verify [of a sc r] looks_snapshot [of a sc r] by (simp add: steps_def unchanged_def)

end
