(* ===== verification/Actions.thy ===== *)
theory Actions
  imports Readonly
begin

section \<open>Kubernetes actions beside the traffic (scenarios/engine.py)\<close>

text \<open>
  While the workload sends requests, every Kubernetes action of the scenario runs as a task of its own
  whose blocking calls run in worker threads. A task is a tree of calls: \<open>Step\<close> is one call of the world
  (other tasks may run before the next one) and \<open>Await\<close> a place where the task waits in the event loop,
  the only places where cancelling it takes effect. A schedule says which task does its next step; any
  finite interleaving is a schedule. The tasks are the operations of \<open>Control\<close> cut into their calls, which
  \<open>alone_...\<close> states.
\<close>

datatype ('w, 'a) task =
    Done "'a result"
  | Await "('w, 'a) task"
  | Step "'w \<Rightarrow> ('w, 'a) task \<times> 'w"

lemma task_induct [case_names Done Await Step]:
  assumes "\<And>r. P (Done r)" and "\<And>t. P t \<Longrightarrow> P (Await t)"
    and "\<And>g. (\<And>w t w'. g w = (t, w') \<Longrightarrow> P t) \<Longrightarrow> P (Step g)"
  shows "P t"
proof (induction t)
  case (Step g)
  have "P t" if g: "g w = (t, w')" for w t w'
  proof -
    from g have "(t, w') \<in> range g" by (metis rangeI)
    then show ?thesis by (rule Step) simp
  qed
  then show ?case by (rule assms(3))
qed (use assms in simp_all)

primrec bindT :: "('w, 'a) task \<Rightarrow> ('a \<Rightarrow> ('w, 'b) task) \<Rightarrow> ('w, 'b) task" where
  "bindT (Done r) f = (case r of Inl e \<Rightarrow> Done (Inl e) | Inr a \<Rightarrow> f a)"
| "bindT (Await t) f = Await (bindT t f)"
| "bindT (Step g) f = Step (map_prod (\<lambda>t. bindT t f) id \<circ> g)"

definition stepT :: "('w, 'a) act \<Rightarrow> ('w, 'a) task" where
  "stepT m = Step (\<lambda>w. case m w of (r, w') \<Rightarrow> (Done r, w'))"

text \<open>The task on its own, from the first step to the last.\<close>

primrec alone :: "('w, 'a) task \<Rightarrow> ('w, 'a) act" where
  "alone (Done r) = (\<lambda>w. (r, w))"
| "alone (Await t) = alone t"
| "alone (Step g) = (\<lambda>w. case map_prod alone id (g w) of (m, w') \<Rightarrow> m w')"

text \<open>A cancelled task finishes the thread it waits for and stops at the next place it waits at.\<close>

primrec cut :: "('w, 'a) task \<Rightarrow> ('w, unit) task" where
  "cut (Done r) = Done (Inr ())"
| "cut (Await t) = Done (Inr ())"
| "cut (Step g) = Step (map_prod cut id \<circ> g)"

fun step_task :: "('w, 'a) task \<Rightarrow> 'w \<Rightarrow> ('w, 'a) task \<times> 'w" where
  "step_task (Done r) w = (Done r, w)"
| "step_task (Await t) w = (t, w)"
| "step_task (Step g) w = g w"

text \<open>The tasks after the steps of a schedule; a choice of a task that does not exist is no step.\<close>

fun interleave :: "nat list \<Rightarrow> ('w, 'a) task list \<Rightarrow> 'w \<Rightarrow> ('w, 'a) task list \<times> 'w" where
  "interleave [] ts w = (ts, w)"
| "interleave (i # is) ts w =
     (if i < length ts then (case step_task (ts ! i) w of (t, w') \<Rightarrow> interleave is (ts[i := t]) w')
      else interleave is ts w)"

text \<open>What is left when the schedule ends is finished one task after the other.\<close>

definition settle :: "nat list \<Rightarrow> ('w, 'a) task list \<Rightarrow> 'w \<Rightarrow> 'w" where
  "settle sched ts w =
     (case interleave sched ts w of (ts', w') \<Rightarrow> fold (\<lambda>t v. snd (alone t v)) ts' w')"

fun finish :: "('w, 'a) task list \<Rightarrow> ('w, unit) act" where
  "finish [] = ret ()"
| "finish (t # ts) = (\<lambda>w. case alone t w of
     (Inl e, w') \<Rightarrow> (Inl e, settle [] (map cut ts) w')
   | (Inr _, w') \<Rightarrow> finish ts w')"

definition first_failure :: "('w, 'a) task list \<Rightarrow> exn option" where
  "first_failure ts = (case List.map_filter (\<lambda>t. case t of Done (Inl e) \<Rightarrow> Some e | _ \<Rightarrow> None) ts of
     [] \<Rightarrow> None | e # _ \<Rightarrow> Some e)"

text \<open>
  \<open>await asyncio.gather(*tasks)\<close>: the first failure is raised as soon as it happens, and the end of the
  event loop cancels the other tasks.
\<close>

fun gather :: "nat list \<Rightarrow> ('w, 'a) task list \<Rightarrow> ('w, unit) act" where
  "gather [] ts = (\<lambda>w. case first_failure ts of
     Some e \<Rightarrow> (Inl e, settle [] (map cut ts) w)
   | None \<Rightarrow> finish ts w)"
| "gather (i # is) ts = (\<lambda>w. case first_failure ts of
     Some e \<Rightarrow> (Inl e, settle (i # is) (map cut ts) w)
   | None \<Rightarrow>
       if i < length ts then (case step_task (ts ! i) w of (t, w') \<Rightarrow> gather is (ts[i := t]) w')
       else gather is ts w)"

lemma alone_bindT: "alone (bindT t f) w = bindA (alone t) (\<lambda>a. alone (f a)) w"
proof (induction t arbitrary: w rule: task_induct)
  case (Step g)
  obtain t w' where g: "g w = (t, w')" by (cases "g w")
  from Step.IH [OF g, of w'] g show ?case by (simp add: bindA_apply)
qed (auto simp: bindA_apply split: sum.splits)

lemma alone_stepT: "alone (stepT m) = m"
  by (rule ext) (simp add: stepT_def split: prod.splits)

subsection \<open>The operations, call by call\<close>

definition ready_pods_task :: "'k api \<Rightarrow> string \<Rightarrow> ('k world, string list) task" where
  "ready_pods_task a wl =
     bindT (Done (workload_of wl)) (\<lambda>(ns, _). bindT (stepT (selector a wl)) (\<lambda>sel.
       bindT (stepT (ready_pods_in a ns sel)) (\<lambda>pods. Done (Inr (sort (map pod_name pods))))))"

definition delete_pod_task :: "'k api \<Rightarrow> string \<Rightarrow> string \<Rightarrow> ('k world, string) task" where
  "delete_pod_task a wl rid =
     bindT (Done (workload_of wl)) (\<lambda>(ns, _).
     bindT (ready_pods_task a wl) (\<lambda>pods.
       case pods of
         [] \<Rightarrow> Done (Inl RuntimeError)
       | pod # _ \<Rightarrow>
           bindT (stepT (call (read_pod_uid a pod ns))) (\<lambda>uid.
           bindT (stepT (journal_record rid (DeleteEntry wl pod uid))) (\<lambda>_.
           bindT (stepT (effect (PodDeleted rid wl pod) (delete_pod_call a pod ns))) (\<lambda>_. Done (Inr pod))))))"

definition rollout_restart_task :: "'k api \<Rightarrow> string \<Rightarrow> string \<Rightarrow> ('k world, unit) task" where
  "rollout_restart_task a wl rid =
     bindT (Done (workload_of wl)) (\<lambda>(ns, knd).
     bindT (stepT (journal_record rid (RestartEntry wl))) (\<lambda>_.
     bindT (stepT (call (time_stamp a))) (\<lambda>stamp.
     stepT (effect (WorkloadRestarted rid wl) (patch_restart a knd wl ns stamp)))))"

definition scale_task :: "'k api \<Rightarrow> string \<Rightarrow> int \<Rightarrow> string \<Rightarrow> ('k world, int) task" where
  "scale_task a wl n rid =
     bindT (stepT (current_replicas a wl)) (\<lambda>original.
     bindT (stepT (journal_record rid (ScaleEntry wl original n))) (\<lambda>_.
     bindT (stepT (set_replicas a (WorkloadScaled rid wl n) wl n)) (\<lambda>_. Done (Inr original))))"

text \<open>\<open>await asyncio.to_thread(t)\<close> and \<open>await asyncio.sleep(d)\<close>.\<close>

definition in_thread :: "('w, 'a) task \<Rightarrow> ('w, 'a) task" where
  "in_thread t = Await (bindT t (\<lambda>a. Await (Done (Inr a))))"

definition sleepT :: "'k api \<Rightarrow> real \<Rightarrow> ('k world, unit) task" where
  "sleepT a d = Await (stepT (call (sleep_for a d)))"

definition note_event :: "k8s_event \<Rightarrow> ('k world, unit) task" where
  "note_event ev = stepT (update_active (\<lambda>r. r\<lparr>kubernetes_events := kubernetes_events r @ [ev]\<rparr>))"

definition bare_event :: "k8s_action \<Rightarrow> real \<Rightarrow> k8s_event" where
  "bare_event act t = \<lparr>ev_action = action_kind act, ev_workload = action_workload act, ev_at = t, ev_pod = None,
     ev_pods_before = None, ev_original = None, ev_restored_at = None\<rparr>"

definition kubernetes_action :: "'k api \<Rightarrow> string \<Rightarrow> real \<Rightarrow> k8s_action \<Rightarrow> ('k world, unit) task" where
  "kubernetes_action a rid started act =
     (let wl = action_workload act in
      bindT (stepT (call (monotonic_clock a))) (\<lambda>now.
      bindT (sleepT a (max 0 (started + at_seconds act - now))) (\<lambda>_.
      bindT (stepT (call (wall_clock a))) (\<lambda>t.
      let event = bare_event act t in
      bindT (case action_kind act of
          DeletePod \<Rightarrow>
            bindT (in_thread (delete_pod_task a wl rid)) (\<lambda>pod. Done (Inr (event\<lparr>ev_pod := Some pod\<rparr>)))
        | RolloutRestart \<Rightarrow>
            bindT (in_thread (ready_pods_task a wl)) (\<lambda>pods.
            bindT (in_thread (rollout_restart_task a wl rid)) (\<lambda>_.
            Done (Inr (event\<lparr>ev_pods_before := Some pods\<rparr>))))
        | Scale \<Rightarrow>
            bindT (in_thread (scale_task a wl (or0 (action_replicas act)) rid)) (\<lambda>original.
            let event' = event\<lparr>ev_original := Some original\<rparr> in
            case restore_after_seconds act of
              None \<Rightarrow> Done (Inr event')
            | Some d \<Rightarrow>
                if d = 0 then Done (Inr event')
                else bindT (sleepT a d) (\<lambda>_.
                  bindT (in_thread (stepT (restore_replicas a wl original))) (\<lambda>_.
                  bindT (stepT (call (wall_clock a))) (\<lambda>t'. Done (Inr (event'\<lparr>ev_restored_at := Some t'\<rparr>)))))))
        note_event))))"

text \<open>Run one after the other, the calls are the operation.\<close>

lemma alone_ready_pods: "alone (ready_pods_task a wl) = ready_pods a wl"
  by (rule ext) (auto simp: ready_pods_task_def ready_pods_def alone_bindT alone_stepT bindA_apply
    split: sum.splits prod.splits)

lemma alone_delete_pod: "alone (delete_pod_task a wl rid) = delete_pod a wl rid"
  by (rule ext) (auto simp: delete_pod_task_def delete_pod_def alone_bindT alone_stepT alone_ready_pods bindA_apply
    split: sum.splits prod.splits list.splits)

lemma alone_rollout_restart: "alone (rollout_restart_task a wl rid) = rollout_restart a wl rid"
  by (rule ext) (auto simp: rollout_restart_task_def rollout_restart_def alone_bindT alone_stepT bindA_apply
    split: sum.splits prod.splits)

lemma alone_scale: "alone (scale_task a wl n rid) = scale a wl n rid"
  by (rule ext) (auto simp: scale_task_def scale_def alone_bindT alone_stepT bindA_apply
    split: sum.splits prod.splits)

subsection \<open>The traffic of a run\<close>

text \<open>\<open>run_steps\<close> with the instants it notes; it runs in the event loop, between the steps of the tasks.\<close>

definition send_traffic :: "'k api \<Rightarrow> scenario \<Rightarrow> string \<Rightarrow> ('k world, real \<times> real \<times> request_record list) act" where
  "send_traffic a sc rid =
     bindA (call (wall_clock a)) (\<lambda>began.
     bindA (effect (TrafficSent rid) (traffic_network a)) (\<lambda>(net, token).
     bindA (liftE (run_steps net token (workload sc) rid (scenario_id sc))) (\<lambda>rs.
     bindA (call (wall_clock a)) (\<lambda>ended. ret (began, ended, rs)))))"

definition action_tasks :: "'k api \<Rightarrow> scenario \<Rightarrow> string \<Rightarrow> real \<Rightarrow> ('k world, unit) task list" where
  "action_tasks a sc rid started = map (\<lambda>act. Await (kubernetes_action a rid started act)) (kubernetes sc)"

definition beside :: "nat list \<times> nat list \<Rightarrow> ('w, 'a) task list \<Rightarrow> ('w, 'b) act \<Rightarrow> ('w, 'b) act" where
  "beside scheds ts m = (\<lambda>w.
     case interleave (fst scheds) ts w of (ts1, w1) \<Rightarrow>
       (case m w1 of
          (Inl e, w2) \<Rightarrow> (Inl e, settle (snd scheds) (map cut ts1) w2)
        | (Inr r, w2) \<Rightarrow> bindA (gather (snd scheds) ts1) (\<lambda>_. ret r) w2))"

definition traffic :: "'k api \<Rightarrow> nat list \<times> nat list \<Rightarrow> scenario \<Rightarrow> string \<Rightarrow> ('k world, unit) act" where
  "traffic a scheds sc rid =
     bindA (call (monotonic_clock a)) (\<lambda>started.
     bindA (beside scheds (action_tasks a sc rid started) (send_traffic a sc rid)) (\<lambda>(began, ended, rs).
     update_active (\<lambda>r. r\<lparr>workload_started_at := began, workload_finished_at := ended, run_requests := rs\<rparr>)))"

subsection \<open>What interleaved tasks preserve\<close>

text \<open>
  \<open>safe R t w\<close>: from any world that comes after \<open>w\<close> along \<open>R\<close>, the next call of the task stays in \<open>R\<close>, and
  so on to its end. With a preorder, safe tasks stay safe whatever the others do, so any interleaving
  of them stays in \<open>R\<close>.
\<close>

primrec safe :: "('w \<Rightarrow> 'w \<Rightarrow> bool) \<Rightarrow> ('w, 'a) task \<Rightarrow> 'w \<Rightarrow> bool" where
  "safe R (Done r) = (\<lambda>w. True)"
| "safe R (Await t) = safe R t"
| "safe R (Step g) = (\<lambda>w. \<forall>v. R w v \<longrightarrow> (case map_prod (safe R) id (g v) of (P, v') \<Rightarrow> R v v' \<and> P v'))"

lemma safe_Step_iff:
  "safe R (Step g) w \<longleftrightarrow> (\<forall>v t v'. R w v \<longrightarrow> g v = (t, v') \<longrightarrow> R v v' \<and> safe R t v')"
  by (auto simp: map_prod_def split: prod.splits)

declare safe.simps(3) [simp del]

context step_rel
begin

lemma safe_later: "safe R t w \<Longrightarrow> R w v \<Longrightarrow> safe R t v"
proof (induction t arbitrary: w v rule: task_induct)
  case (Step g)
  then show ?case using step_trans unfolding safe_Step_iff by blast
qed simp_all

lemma safe_stepI: "(\<And>v r v'. R w v \<Longrightarrow> m v = (r, v') \<Longrightarrow> R v v') \<Longrightarrow> safe R (stepT m) w"
  by (auto simp: stepT_def safe_Step_iff split: prod.splits)

lemma safe_steps: "steps R m \<Longrightarrow> safe R (stepT m) w"
  by (rule safe_stepI) (blast dest: stepsD)

lemma safe_bindT:
  "safe R t w \<Longrightarrow> (\<And>a v. R w v \<Longrightarrow> safe R (f a) v) \<Longrightarrow> safe R (bindT t f) w"
proof (induction t arbitrary: w rule: task_induct)
  case (Step g)
  have "R v v' \<and> safe R (bindT t f) v'" if v: "R w v" "g v = (t, v')" for v t v'
  proof -
    have vv: "R v v'" "safe R t v'" using Step.prems(1) v unfolding safe_Step_iff by blast+
    then have "R w v'" using v(1) by (blast intro: step_trans)
    then have "safe R (f a) u" if "R v' u" for a u
      using that Step.prems(2) step_trans by blast
    with Step.IH [OF v(2) vv(2)] vv(1) show ?thesis by blast
  qed
  then show ?case by (auto simp: safe_Step_iff map_prod_def split: prod.splits)
next
  case (Done r)
  then show ?case by (cases r) (auto intro: step_refl)
qed auto

lemma safe_bind_step:
  assumes "\<And>v r v'. R w v \<Longrightarrow> m v = (r, v') \<Longrightarrow> R v v'"
    and "\<And>v a v'. R w v \<Longrightarrow> m v = (Inr a, v') \<Longrightarrow> safe R (f a) v'"
  shows "safe R (bindT (stepT m) f) w"
  using assms by (auto simp: stepT_def safe_Step_iff split: prod.splits sum.splits)

lemma safe_step_task: "safe R t w \<Longrightarrow> step_task t w = (t', w') \<Longrightarrow> R w w' \<and> safe R t' w'"
  using step_refl [of w] by (cases t) (auto simp: safe_Step_iff)

lemma safe_cut: "safe R t w \<Longrightarrow> safe R (cut t) w"
proof (induction t arbitrary: w rule: task_induct)
  case (Step g)
  have "R v v' \<and> safe R (cut t) v'" if "R w v" "g v = (t, v')" for v t v'
    using Step that unfolding safe_Step_iff by blast
  then show ?case by (auto simp: safe_Step_iff map_prod_def split: prod.splits)
qed simp_all

lemma safe_alone: "safe R t w \<Longrightarrow> R w (snd (alone t w))"
proof (induction t arbitrary: w rule: task_induct)
  case (Step g)
  obtain t w' where g: "g w = (t, w')" by (cases "g w")
  then have "R w w'" "safe R t w'" using Step.prems step_refl unfolding safe_Step_iff by blast+
  with Step.IH [OF g, of w'] g show ?case by (auto intro: step_trans)
qed (auto intro: step_refl)

definition all_safe :: "('w, 'a) task list \<Rightarrow> 'w \<Rightarrow> bool" where
  "all_safe ts w \<longleftrightarrow> (\<forall>t \<in> set ts. safe R t w)"

lemma all_safe_later: "all_safe ts w \<Longrightarrow> R w v \<Longrightarrow> all_safe ts v"
  by (auto simp: all_safe_def intro: safe_later)

lemma all_safe_step:
  assumes "all_safe ts w" "i < length ts" "step_task (ts ! i) w = (t, w')"
  shows "R w w' \<and> all_safe (ts[i := t]) w'"
proof -
  have "R w w' \<and> safe R t w'" using assms by (intro safe_step_task) (auto simp: all_safe_def)
  moreover from this have "safe R u w'" if "u \<in> set ts" for u
    using assms(1) that safe_later by (auto simp: all_safe_def)
  ultimately show ?thesis by (auto simp: all_safe_def dest!: set_update_subset_insert [THEN subsetD])
qed

lemma all_safe_cut: "all_safe ts w \<Longrightarrow> all_safe (map cut ts) w"
  by (auto simp: all_safe_def intro: safe_cut)

lemma safe_interleave:
  "all_safe ts w \<Longrightarrow> interleave sched ts w = (ts', w') \<Longrightarrow> R w w' \<and> all_safe ts' w'"
proof (induction sched ts w rule: interleave.induct)
  case (2 i "is" ts w)
  show ?case
  proof (cases "i < length ts")
    case True
    obtain t v where st: "step_task (ts ! i) w = (t, v)" by (cases "step_task (ts ! i) w")
    then have wv: "R w v" "all_safe (ts[i := t]) v" using all_safe_step [OF 2(3) True] by auto
    moreover have "interleave is (ts[i := t]) v = (ts', w')" using 2(4) True st by simp
    ultimately have "R v w' \<and> all_safe ts' w'" using 2(1) True st by simp
    with wv(1) show ?thesis by (blast intro: step_trans)
  qed (use 2 in simp)
qed (simp add: step_refl)

lemma safe_fold: "all_safe ts v \<Longrightarrow> R v (fold (\<lambda>t v. snd (alone t v)) ts v)"
proof (induction ts arbitrary: v)
  case (Cons t ts)
  then have v: "R v (snd (alone t v))" by (simp add: all_safe_def safe_alone)
  have "all_safe ts v" using Cons.prems by (simp add: all_safe_def)
  then have "all_safe ts (snd (alone t v))" using v by (rule all_safe_later)
  then have "R (snd (alone t v)) (fold (\<lambda>t v. snd (alone t v)) ts (snd (alone t v)))" by (rule Cons.IH)
  with v show ?case by (simp add: step_trans [OF v])
qed (simp add: step_refl)

lemma safe_settle:
  assumes "all_safe ts w"
  shows "R w (settle sched ts w)"
proof -
  obtain ts' w' where i: "interleave sched ts w = (ts', w')" by (cases "interleave sched ts w")
  then have "R w w'" "all_safe ts' w'" using safe_interleave [OF assms] by auto
  then show ?thesis using safe_fold [of ts' w'] by (simp add: settle_def i step_trans [of w w'])
qed

lemma safe_cancelled: "all_safe ts w \<Longrightarrow> R w (settle sched (map cut ts) w)"
  by (rule safe_settle) (rule all_safe_cut)

lemma safe_finish: "all_safe ts w \<Longrightarrow> R w (snd (finish ts w))"
proof (induction ts arbitrary: w)
  case (Cons t ts)
  obtain r w' where a: "alone t w = (r, w')" by (cases "alone t w")
  have "safe R t w" using Cons.prems by (simp add: all_safe_def)
  then have w': "R w w'" using a safe_alone by force
  have "all_safe ts w" using Cons.prems by (simp add: all_safe_def)
  then have ts: "all_safe ts w'" using w' by (rule all_safe_later)
  show ?case
    using step_trans [OF w' safe_cancelled [OF ts, of "[]"]] step_trans [OF w' Cons.IH [OF ts]]
    by (cases r) (simp_all add: a)
qed (simp add: step_refl)

lemma safe_gather: "all_safe ts w \<Longrightarrow> R w (snd (gather sched ts w))"
proof (induction sched arbitrary: ts w)
  case Nil
  then show ?case by (auto intro: safe_finish safe_cancelled split: option.splits)
next
  case (Cons i "is")
  show ?case
  proof (cases "first_failure ts = None \<and> i < length ts")
    case True
    obtain t v where st: "step_task (ts ! i) w = (t, v)" by (cases "step_task (ts ! i) w")
    then have "R w v \<and> all_safe (ts[i := t]) v" using all_safe_step [OF Cons.prems] True by blast
    then show ?thesis using True st Cons.IH step_trans by fastforce
  next
    case False
    with Cons show ?thesis by (auto intro: safe_cancelled split: option.splits)
  qed
qed

lemma safe_beside:
  assumes ts: "all_safe ts w" and m: "steps R m"
  shows "R w (snd (beside scheds ts m w))"
proof -
  obtain ts1 w1 where i: "interleave (fst scheds) ts w = (ts1, w1)" by (cases "interleave (fst scheds) ts w")
  obtain r w2 where m2: "m w1 = (r, w2)" by (cases "m w1")
  have "R w w1" "all_safe ts1 w1" using safe_interleave [OF ts i] by auto
  moreover have "R w1 w2" using m m2 by (rule stepsD)
  ultimately have "R w w2" "all_safe ts1 w2" by (auto intro: step_trans all_safe_later)
  then show ?thesis
    using safe_cancelled [of ts1 w2 "snd scheds"] safe_gather [of ts1 w2 "snd scheds"]
    by (auto simp: beside_def i m2 bindA_apply intro: step_trans split: sum.splits prod.splits)
qed

end

subsection \<open>Every interleaving keeps the write-ahead order\<close>

lemma announced_here: "steps ordered (journal_record rid e) \<Longrightarrow> announces e ev \<Longrightarrow> changed_by ev = Some rid \<Longrightarrow>
    journal_record rid e v = (r, v') \<Longrightarrow> announced (trail v') ev"
  using journal_record_trail [of rid e v] by (auto simp: announced_def)

lemma safe_announced:
  assumes "under ev m" and "announced (trail w) ev"
  shows "safe ordered (stepT m) w"
proof (rule ord.safe_stepI)
  fix v r v' assume "ordered w v" "m v = (r, v')"
  then show "ordered v v'" using assms ordered_announced unfolding under_def by (metis snd_conv)
qed

lemma safe_journal:
  fixes f :: "unit \<Rightarrow> ('k world, 'a) task"
  assumes "announces e ev" "changed_by ev = Some rid"
    and "\<And>v. announced (trail v) ev \<Longrightarrow> safe ordered (f ()) v"
  shows "safe ordered (bindT (stepT (journal_record rid e)) f) w"
proof (rule ord.safe_bind_step)
  fix v :: "'k world" and r v' assume "journal_record rid e v = (r, v')"
  then show "ordered v v'" by (rule stepsD [OF ordered_journal])
next
  fix v :: "'k world" and u v' assume "journal_record rid e v = (Inr u, v')"
  then have "announced (trail v') ev" by (rule announced_here [OF ordered_journal assms(1,2)])
  then show "safe ordered (f u) v'" using assms(3) by simp
qed

lemma safe_ready_pods: "safe ordered (ready_pods_task a wl) w"
  unfolding ready_pods_task_def
  by (auto simp: selector_def ready_pods_in_def running_pods_in_def
    intro!: ord.safe_bindT ord.safe_steps looks_ordered split: prod.splits sum.splits)

lemma safe_delete_pod: "safe ordered (delete_pod_task a wl rid) w"
proof -
  have "safe ordered (bindT (stepT (journal_record rid (DeleteEntry wl pod uid))) (\<lambda>_.
     bindT (stepT (effect (PodDeleted rid wl pod) (delete_pod_call a pod ns))) (\<lambda>_. Done (Inr pod)))) v" for pod uid ns v
    by (rule safe_journal [where ev = "PodDeleted rid wl pod"])
      (auto intro!: ord.safe_bindT safe_announced [where ev = "PodDeleted rid wl pod"] under_effect)
  then show ?thesis
    unfolding delete_pod_task_def
    by (auto intro!: ord.safe_bindT [OF safe_ready_pods] ord.safe_bindT [OF ord.safe_steps [OF ordered_call]]
      split: prod.splits sum.splits list.splits)
qed

lemma safe_rollout_restart: "safe ordered (rollout_restart_task a wl rid) w"
proof -
  have "safe ordered (bindT (stepT (journal_record rid (RestartEntry wl))) (\<lambda>_.
     bindT (stepT (call (time_stamp a))) (\<lambda>stamp.
     stepT (effect (WorkloadRestarted rid wl) (patch_restart a knd wl ns stamp))))) v" for knd ns v
  proof (rule safe_journal [where ev = "WorkloadRestarted rid wl"])
    fix v :: "'a world" assume ann: "announced (trail v) (WorkloadRestarted rid wl)"
    show "safe ordered (bindT (stepT (call (time_stamp a))) (\<lambda>stamp.
        stepT (effect (WorkloadRestarted rid wl) (patch_restart a knd wl ns stamp)))) v"
      by (rule ord.safe_bindT [OF ord.safe_steps [OF ordered_call]])
        (auto intro!: safe_announced [where ev = "WorkloadRestarted rid wl"] under_effect
          dest: ordered_announced [OF _ ann])
  qed simp_all
  then show ?thesis unfolding rollout_restart_task_def by (auto split: prod.splits sum.splits)
qed

lemma safe_scale: "safe ordered (scale_task a wl n rid) w"
proof -
  have "safe ordered (bindT (stepT (journal_record rid (ScaleEntry wl original n))) (\<lambda>_.
     bindT (stepT (set_replicas a (WorkloadScaled rid wl n) wl n)) (\<lambda>_. Done (Inr original)))) v" for original v
    by (rule safe_journal [where ev = "WorkloadScaled rid wl n"])
      (auto intro!: ord.safe_bindT safe_announced [where ev = "WorkloadScaled rid wl n"] under_set_replicas)
  then show ?thesis
    unfolding scale_task_def by (intro ord.safe_bindT [OF ord.safe_steps [OF ordered_current_replicas]])
qed

lemma safe_in_thread: "(\<And>v. safe ordered t v) \<Longrightarrow> safe ordered (in_thread t) w"
  by (auto simp: in_thread_def intro!: ord.safe_bindT)

lemma safe_call: "safe ordered (stepT (call m)) w"
  by (rule ord.safe_steps [OF ordered_call])

lemma safe_kubernetes_action: "safe ordered (kubernetes_action a rid started act) w"
  unfolding kubernetes_action_def Let_def sleepT_def note_event_def
  by (intro ord.safe_bindT safe_call)
    (auto intro!: ord.safe_bindT safe_in_thread safe_call safe_delete_pod safe_rollout_restart safe_scale
      safe_ready_pods ord.safe_steps ordered_update_active ordered_restore_replicas
      split: k8s_action_kind.splits option.splits)

lemma ordered_send_traffic: "steps ordered (send_traffic a sc rid)"
  by (auto simp: send_traffic_def intro!: ord.steps_intros ordered_call ordered_effect_free split: prod.splits)

lemma ordered_traffic: "steps ordered (traffic a scheds sc rid)"
proof -
  have "ord.all_safe (action_tasks a sc rid started) w" for started w
    by (auto simp: ord.all_safe_def action_tasks_def safe_kubernetes_action)
  then have "steps ordered (beside scheds (action_tasks a sc rid started) (send_traffic a sc rid))" for started
    unfolding steps_def using ord.safe_beside [OF _ ordered_send_traffic] by blast
  then show ?thesis
    by (auto simp: traffic_def intro!: ord.steps_intros ordered_call ordered_update_active split: prod.splits)
qed

text \<open>
  Property C5. A scenario's Kubernetes actions run beside its traffic in any interleaving of their
  calls, cancelled or not, failing or not: no pod is deleted, no workload restarted or scaled before an
  entry of the run's journal announces it, and the journal file has grown by exactly the announced entries.
\<close>

theorem traffic_writes_ahead:
  assumes "write_ahead (trail w)"
  shows "\<exists>new. trail (snd (traffic a scheds sc rid w)) = trail w @ new \<and>
    write_ahead (trail w @ new) \<and>
    journal_entries rid (snd (traffic a scheds sc rid w)) =
      journal_entries rid w @ map entry_object (journaled rid new)"
proof -
  have "ordered w (snd (traffic a scheds sc rid w))" using ordered_traffic unfolding steps_def by blast
  with assms show ?thesis by (auto simp: ordered_def grew_def)
qed

definition sample_scenario :: scenario where
  "sample_scenario = \<lparr>scenario_id = ''normal-order'', title = ''t'', description = ''d'', category_of = Edge, faults = [],
     
     kubernetes = [\<lparr>action_kind = Scale, action_workload = ''fraud-service'', at_seconds = 0, action_replicas = Some 0,
       restore_after_seconds = None\<rparr>], workload = [], expect = \<lparr>application = \<lparr>statuses = [], states = [], compensation = None,
       authorizations_per_order = None\<rparr>, telemetry = None\<rparr>\<rparr>"

theorem traffic_writes_ahead_witness:
  "\<exists>new. trail (snd (traffic quiet_api ([0, 1], [1, 0]) sample_scenario ''r'' (empty_world 0))) = new \<and> write_ahead new"
proof -
  have "write_ahead (trail (empty_world 0))" by (simp add: empty_world_def)
  from traffic_writes_ahead [OF this, of quiet_api "([0, 1], [1, 0])" sample_scenario "''r''"]
  show ?thesis by (simp add: empty_world_def)
qed

text \<open>Cut into its calls and run without interruption, an operation is the operation.\<close>

theorem tasks_refine_operations:
  "alone (delete_pod_task a wl rid) = delete_pod a wl rid \<and>
   alone (rollout_restart_task a wl rid) = rollout_restart a wl rid \<and>
   alone (scale_task a wl n rid) = scale a wl n rid"
  using alone_delete_pod alone_rollout_restart alone_scale by blast

end
