(* ===== verification/Runlock.thy ===== *)
theory Runlock
  imports Control
begin

section \<open>The experiment lock (runlock.py)\<close>

text \<open>
  The operations of the lock over the lease calls of the world, and a step relation for any number of
  processes whose calls interleave at the API server. Each call of the operations is one step; the
  server gives every written lease a new resource version and rejects a replacement that names an old
  one. Times are seconds.
\<close>

definition LEASE_DURATION_SECONDS :: int where "LEASE_DURATION_SECONDS = 90"

record lease_state =
  ls_holder :: string
  ls_purpose :: string
  ls_renewed_at :: real
  ls_duration :: int

definition is_expired :: "lease_state \<Rightarrow> real \<Rightarrow> bool" where
  "is_expired st now \<longleftrightarrow> now - ls_renewed_at st > of_int (ls_duration st)"

definition or_empty :: "string option \<Rightarrow> string" where
  "or_empty v = (case v of None \<Rightarrow> [] | Some s \<Rightarrow> s)"

definition read_lock :: "'k api \<Rightarrow> ('k world, (lease \<times> lease_state) option) act" where
  "read_lock a =
     bindA (catchA (bindA (call (read_lease a)) (\<lambda>l. ret (Some l)))
              (\<lambda>e. if e = ApiException 404 then ret None else raise e)) (\<lambda>found.
       case found of
         None \<Rightarrow> ret None
       | Some l \<Rightarrow>
           bindA (case renew_time l of
                    Some t \<Rightarrow> ret t
                  | None \<Rightarrow> (case acquire_time l of Some t \<Rightarrow> ret t | None \<Rightarrow> call (wall_clock a))) (\<lambda>renewed.
           ret (Some (l, \<lparr>ls_holder = or_empty (lease_holder l), ls_purpose = or_empty (lease_purpose l),
             ls_renewed_at = renewed,
             ls_duration = (case lease_seconds l of None \<Rightarrow> LEASE_DURATION_SECONDS
               | Some d \<Rightarrow> if d = 0 then LEASE_DURATION_SECONDS else d)\<rparr>))))"

definition current_lock :: "'k api \<Rightarrow> ('k world, lease_state option) act" where
  "current_lock a = bindA (read_lock a) (\<lambda>found. ret (map_option snd found))"

definition lease_body :: "'k api \<Rightarrow> string \<Rightarrow> nat option \<Rightarrow> ('k world, lease) act" where
  "lease_body a purpose version =
     bindA (call (wall_clock a)) (\<lambda>now.
     ret \<lparr>lease_holder = Some (own_identity a), lease_purpose = Some purpose, acquire_time = Some now,
       renew_time = Some now, lease_seconds = Some LEASE_DURATION_SECONDS, resource_version = version\<rparr>)"

text \<open>What \<open>acquire\<close> does once it has read a lease: nothing to do, refused, or taken over.\<close>

definition take_over :: "'k api \<Rightarrow> string \<Rightarrow> lease \<times> lease_state \<Rightarrow> ('k world, unit) act" where
  "take_over a purpose = (\<lambda>(l, st).
     if ls_holder st = own_identity a then ret ()
     else bindA (call (wall_clock a)) (\<lambda>now.
       if \<not> is_expired st now then raise (LockHeldError (ls_purpose st) (ls_holder st))
       else bindA (lease_body a purpose (resource_version l)) (\<lambda>b.
              effect (LeaseWritten (own_identity a)) (replace_lease a b))))"

definition acquire :: "'k api \<Rightarrow> string \<Rightarrow> ('k world, unit) act" where
  "acquire a purpose =
     bindA (read_lock a) (\<lambda>found.
       case found of
         Some ls \<Rightarrow> take_over a purpose ls
       | None \<Rightarrow>
           bindA (lease_body a purpose None) (\<lambda>b.
           bindA (catchA (bindA (effect (LeaseWritten (own_identity a)) (create_lease a b)) (\<lambda>_. ret True))
                    (\<lambda>e. if e = ApiException 409 then ret False else raise e)) (\<lambda>created.
             if created then ret ()
             else bindA (read_lock a) (\<lambda>again.
                    case again of None \<Rightarrow> raise AssertionError | Some ls \<Rightarrow> take_over a purpose ls))))"

definition renew :: "'k api \<Rightarrow> ('k world, unit) act" where
  "renew a =
     bindA (read_lock a) (\<lambda>found.
       case found of
         None \<Rightarrow> ret ()
       | Some (l, st) \<Rightarrow>
           if ls_holder st \<noteq> own_identity a then ret ()
           else bindA (call (wall_clock a)) (\<lambda>now.
             effect (LeaseWritten (own_identity a)) (replace_lease a (l\<lparr>renew_time := Some now\<rparr>))))"

definition release :: "'k api \<Rightarrow> bool \<Rightarrow> ('k world, bool) act" where
  "release a force =
     bindA (read_lock a) (\<lambda>found.
       case found of
         None \<Rightarrow> ret False
       | Some (l, st) \<Rightarrow>
           if \<not> force \<and> ls_holder st \<noteq> own_identity a then ret False
           else bindA (effect LeaseDeleted (delete_lease a)) (\<lambda>_. ret True))"

text \<open>
  \<open>with held(purpose): m\<close>. The renewing thread only calls \<open>renew\<close> and drops its exceptions; it is part of
  the step relation below.
\<close>

definition held :: "'k api \<Rightarrow> string \<Rightarrow> ('k world, 'a) act \<Rightarrow> ('k world, 'a) act" where
  "held a purpose m = bindA (acquire a purpose) (\<lambda>_. finallyA m (release a False))"

lemma ordered_read_lock: "steps ordered (read_lock a)"
  by (auto simp: read_lock_def intro!: ord.steps_intros ordered_call split: option.splits)

lemma ordered_take_over: "steps ordered (take_over a purpose ls)"
  by (auto simp: take_over_def lease_body_def intro!: ord.steps_intros ordered_call ordered_effect_free
    split: prod.splits)

lemma ordered_acquire: "steps ordered (acquire a purpose)"
  by (auto simp: acquire_def lease_body_def
    intro!: ord.steps_intros ordered_call ordered_effect_free ordered_read_lock ordered_take_over split: option.splits)

lemma ordered_release: "steps ordered (release a force)"
  by (auto simp: release_def intro!: ord.steps_intros ordered_effect_free ordered_read_lock
    split: option.splits prod.splits)

lemma ordered_held: "steps ordered m \<Longrightarrow> steps ordered (held a purpose m)"
  by (auto simp: held_def intro!: ord.steps_intros ordered_acquire ordered_release)

lemma only_acquire: "steps (only {LeaseWritten (own_identity a)}) (acquire a purpose)"
  by (auto simp: acquire_def take_over_def lease_body_def read_lock_def intro!: few.steps_intros only_call only_effect
    split: option.splits prod.splits)

lemma only_release: "steps (only {LeaseDeleted}) (release a force)"
  by (auto simp: release_def read_lock_def intro!: few.steps_intros only_call only_effect
    split: option.splits prod.splits)

subsection \<open>Processes at the API server\<close>

type_synonym pid = string

record slease =
  s_holder :: pid
  s_purpose :: string
  s_renewed :: real
  s_version :: nat

text \<open>
  Where a process is: outside, in \<open>acquire\<close> with what it read, holding the lock, or in \<open>release\<close> after
  it read that the lease is its own.
\<close>

datatype pc = Outside | Acquiring "slease option" | Holding | Leaving

record lock_world =
  server :: "slease option"
  next_version :: nat
  time_now :: real
  pcs :: "pid \<Rightarrow> pc"
  renewing :: "pid \<Rightarrow> slease option"
  written :: "pid \<Rightarrow> real option"

definition duration :: real where
  "duration = of_int LEASE_DURATION_SECONDS"

definition stale :: "slease \<Rightarrow> real \<Rightarrow> bool" where
  "stale l now \<longleftrightarrow> now - s_renewed l > duration"

text \<open>The process has written the lease (and not deleted it since) no longer than the duration ago.\<close>

definition fresh :: "lock_world \<Rightarrow> pid \<Rightarrow> bool" where
  "fresh s p \<longleftrightarrow> (\<exists>t. written s p = Some t \<and> time_now s - t \<le> duration)"

definition write_lease :: "pid \<Rightarrow> string \<Rightarrow> lock_world \<Rightarrow> lock_world" where
  "write_lease p purpose s = s\<lparr>
     server := Some \<lparr>s_holder = p, s_purpose = purpose, s_renewed = time_now s, s_version = next_version s\<rparr>,
     next_version := Suc (next_version s), written := (written s)(p := Some (time_now s))\<rparr>"

definition goto :: "pid \<Rightarrow> pc \<Rightarrow> lock_world \<Rightarrow> lock_world" where
  "goto p c s = s\<lparr>pcs := (pcs s)(p := c)\<rparr>"

text \<open>
  With \<open>prompt\<close>, a process deletes the lease only while its own last write is fresh; the code has no such
  guard, so the code's relation is \<open>lock_step False\<close>.
\<close>

inductive lock_step :: "bool \<Rightarrow> lock_world \<Rightarrow> lock_world \<Rightarrow> bool" for prompt where
  tick: "time_now s \<le> t \<Longrightarrow> lock_step prompt s (s\<lparr>time_now := t\<rparr>)"
| read: "pcs s p = Outside \<Longrightarrow> lock_step prompt s (goto p (Acquiring (server s)) s)"
| create: "pcs s p = Acquiring None \<Longrightarrow> server s = None \<Longrightarrow>
    lock_step prompt s (goto p Holding (write_lease p purpose s))"
| create_conflict: "pcs s p = Acquiring None \<Longrightarrow> server s \<noteq> None \<Longrightarrow>
    lock_step prompt s (goto p (Acquiring (server s)) s)"
| own: "pcs s p = Acquiring (Some l) \<Longrightarrow> s_holder l = p \<Longrightarrow> lock_step prompt s (goto p Holding s)"
| refused: "pcs s p = Acquiring (Some l) \<Longrightarrow> s_holder l \<noteq> p \<Longrightarrow> \<not> stale l (time_now s) \<Longrightarrow>
    lock_step prompt s (goto p Outside s)"
| take: "pcs s p = Acquiring (Some l) \<Longrightarrow> s_holder l \<noteq> p \<Longrightarrow> stale l (time_now s) \<Longrightarrow>
    server s = Some l' \<Longrightarrow> s_version l' = s_version l \<Longrightarrow>
    lock_step prompt s (goto p Holding (write_lease p purpose s))"
| take_conflict: "pcs s p = Acquiring (Some l) \<Longrightarrow> s_holder l \<noteq> p \<Longrightarrow> stale l (time_now s) \<Longrightarrow>
    (\<And>l'. server s = Some l' \<Longrightarrow> s_version l' \<noteq> s_version l) \<Longrightarrow>
    lock_step prompt s (goto p Outside s)"
| renew_read: "server s = Some l \<Longrightarrow> s_holder l = p \<Longrightarrow>
    lock_step prompt s (s\<lparr>renewing := (renewing s)(p := Some l)\<rparr>)"
| renew_write: "renewing s p = Some l \<Longrightarrow> server s = Some l' \<Longrightarrow> s_version l' = s_version l \<Longrightarrow>
    lock_step prompt s ((write_lease p (s_purpose l) s)\<lparr>renewing := (renewing s)(p := None)\<rparr>)"
| renew_conflict: "renewing s p = Some l \<Longrightarrow> (\<And>l'. server s = Some l' \<Longrightarrow> s_version l' \<noteq> s_version l) \<Longrightarrow>
    lock_step prompt s (s\<lparr>renewing := (renewing s)(p := None)\<rparr>)"
| leave_read: "pcs s p = Holding \<Longrightarrow> server s = Some l \<Longrightarrow> s_holder l = p \<Longrightarrow>
    lock_step prompt s (goto p Leaving s)"
| leave_lost: "pcs s p = Holding \<Longrightarrow> (\<And>l. server s = Some l \<Longrightarrow> s_holder l \<noteq> p) \<Longrightarrow>
    lock_step prompt s (goto p Outside s)"
| leave_delete: "pcs s p = Leaving \<Longrightarrow> (prompt \<Longrightarrow> fresh s p) \<Longrightarrow>
    lock_step prompt s (goto p Outside (s\<lparr>server := None, written := (written s)(p := None)\<rparr>))"

abbreviation lock_reach :: "bool \<Rightarrow> lock_world \<Rightarrow> lock_world \<Rightarrow> bool" where
  "lock_reach prompt \<equiv> (lock_step prompt)\<^sup>*\<^sup>*"

definition lock_start :: lock_world where
  "lock_start = \<lparr>server = None, next_version = 0, time_now = 0, pcs = (\<lambda>_. Outside), renewing = (\<lambda>_. None),
     written = (\<lambda>_. None)\<rparr>"

text \<open>
  A lease known to a process is the server's if their versions agree, and versions are never reused.
\<close>

definition known_ok :: "lock_world \<Rightarrow> slease \<Rightarrow> bool" where
  "known_ok s l \<longleftrightarrow> s_version l < next_version s \<and> (\<forall>l'. server s = Some l' \<longrightarrow> s_version l' = s_version l \<longrightarrow> l' = l)"

definition lock_inv :: "lock_world \<Rightarrow> bool" where
  "lock_inv s \<longleftrightarrow>
     (\<forall>l. server s = Some l \<longrightarrow> s_version l < next_version s \<and> written s (s_holder l) = Some (s_renewed l)) \<and>
     (\<forall>p l. pcs s p = Acquiring (Some l) \<longrightarrow> known_ok s l) \<and>
     (\<forall>p l. renewing s p = Some l \<longrightarrow> known_ok s l \<and> s_holder l = p) \<and>
     (\<forall>p. fresh s p \<longrightarrow> (\<exists>l. server s = Some l \<and> s_holder l = p))"

lemma lock_inv_start: "lock_inv lock_start"
  by (simp add: lock_inv_def lock_start_def fresh_def)

lemma known_ok_write: "known_ok s l \<Longrightarrow> known_ok (write_lease p purpose s) l"
  by (auto simp: known_ok_def write_lease_def)

lemma known_ok_gone: "known_ok s l \<Longrightarrow> known_ok (s\<lparr>server := None\<rparr>) l"
  by (simp add: known_ok_def)

lemma known_ok_server: "lock_inv s \<Longrightarrow> server s = Some l \<Longrightarrow> known_ok s l"
  by (simp add: lock_inv_def known_ok_def)

lemma lock_invI:
  assumes "\<And>l. server s = Some l \<Longrightarrow> s_version l < next_version s \<and> written s (s_holder l) = Some (s_renewed l)"
    and "\<And>p l. pcs s p = Acquiring (Some l) \<Longrightarrow> known_ok s l"
    and "\<And>p l. renewing s p = Some l \<Longrightarrow> known_ok s l \<and> s_holder l = p"
    and "\<And>p. fresh s p \<Longrightarrow> \<exists>l. server s = Some l \<and> s_holder l = p"
  shows "lock_inv s"
  using assms by (simp add: lock_inv_def)

lemma lock_invD:
  assumes "lock_inv s"
  shows "server s = Some l \<Longrightarrow> s_version l < next_version s \<and> written s (s_holder l) = Some (s_renewed l)"
    and "pcs s p = Acquiring (Some l) \<Longrightarrow> known_ok s l"
    and "renewing s p = Some l \<Longrightarrow> known_ok s l \<and> s_holder l = p"
    and "fresh s p \<Longrightarrow> \<exists>l. server s = Some l \<and> s_holder l = p"
  using assms by (auto simp: lock_inv_def)

text \<open>The steps change what the invariant reads in four ways.\<close>

lemma lock_inv_goto:
  assumes "lock_inv s" and "\<And>l. c = Acquiring (Some l) \<Longrightarrow> known_ok s l"
  shows "lock_inv (goto p c s)"
  using assms by (auto simp: lock_inv_def goto_def known_ok_def fresh_def)

lemma lock_inv_renewing:
  assumes "lock_inv s" and "\<And>l. r = Some l \<Longrightarrow> known_ok s l \<and> s_holder l = p"
  shows "lock_inv (s\<lparr>renewing := (renewing s)(p := r)\<rparr>)"
  using assms by (auto simp: lock_inv_def known_ok_def fresh_def)

lemma fresh_mono: "fresh (s\<lparr>time_now := t\<rparr>) p \<Longrightarrow> time_now s \<le> t \<Longrightarrow> fresh s p"
  unfolding fresh_def by force

lemma lock_inv_tick:
  assumes "lock_inv s" and "time_now s \<le> t"
  shows "lock_inv (s\<lparr>time_now := t\<rparr>)"
  by (rule lock_invI)
    (use lock_invD[OF assms(1)] assms(2) in \<open>auto simp: known_ok_def dest!: fresh_mono\<close>)

lemma write_lease_keeps [simp]:
  "pcs (write_lease p purpose s) = pcs s" "renewing (write_lease p purpose s) = renewing s"
  "time_now (write_lease p purpose s) = time_now s"
  by (simp_all add: write_lease_def)

lemma lock_inv_write:
  assumes inv: "lock_inv s" and others: "\<And>q. fresh s q \<Longrightarrow> q = p"
  shows "lock_inv (write_lease p purpose s)"
proof (rule lock_invI)
  fix q assume "fresh (write_lease p purpose s) q"
  then have "q = p \<or> fresh s q" by (auto simp: fresh_def write_lease_def split: if_splits)
  then have "q = p" using others by blast
  then show "\<exists>l. server (write_lease p purpose s) = Some l \<and> s_holder l = q" by (simp add: write_lease_def)
next
  fix q l assume "pcs (write_lease p purpose s) q = Acquiring (Some l)"
  then show "known_ok (write_lease p purpose s) l"
    using lock_invD(2)[OF inv, of q l] by (auto intro!: known_ok_write)
next
  fix q l assume "renewing (write_lease p purpose s) q = Some l"
  then show "known_ok (write_lease p purpose s) l \<and> s_holder l = q"
    using lock_invD(3)[OF inv, of q l] by (auto intro!: known_ok_write)
qed (auto simp: write_lease_def)

lemma lock_inv_delete:
  assumes inv: "lock_inv s" and others: "\<And>q. fresh s q \<Longrightarrow> q = p"
  shows "lock_inv (s\<lparr>server := None, written := (written s)(p := None)\<rparr>)"
proof (rule lock_invI)
  fix q assume "fresh (s\<lparr>server := None, written := (written s)(p := None)\<rparr>) q"
  then have "q \<noteq> p \<and> fresh s q" by (auto simp: fresh_def split: if_splits)
  then show "\<exists>l. server (s\<lparr>server := None, written := (written s)(p := None)\<rparr>) = Some l \<and> s_holder l = q"
    using others by blast
qed (use lock_invD[OF inv] in \<open>auto simp: known_ok_def\<close>)

lemma only_holder_fresh: "lock_inv s \<Longrightarrow> server s = Some l \<Longrightarrow> fresh s q \<Longrightarrow> q = s_holder l"
  by (auto dest: lock_invD(4))

lemma stale_holder_not_fresh: "lock_inv s \<Longrightarrow> server s = Some l \<Longrightarrow> stale l (time_now s) \<Longrightarrow> \<not> fresh s q"
  using only_holder_fresh[of s l q] lock_invD(1)[of s l] by (auto simp: fresh_def stale_def)

lemma known_is_server:
  "known_ok s l \<Longrightarrow> server s = Some l' \<Longrightarrow> s_version l' = s_version l \<Longrightarrow> l' = l"
  by (simp add: known_ok_def)

lemma lock_inv_step:
  assumes "lock_step True s s'" and "lock_inv s"
  shows "lock_inv s'"
  using assms
proof (induction rule: lock_step.induct)
  case (take s p l l' purpose)
  then have "l' = l" by (auto dest: lock_invD(2) known_is_server)
  with take have "\<not> fresh s q" for q by (auto dest: stale_holder_not_fresh)
  with take show ?case by (auto intro!: lock_inv_goto lock_inv_write)
next
  case (create s p purpose)
  then show ?case by (auto intro!: lock_inv_goto lock_inv_write dest: lock_invD(4))
next
  case (renew_write s p l l')
  then have l: "l' = l" "s_holder l = p" by (auto dest: lock_invD(3) known_is_server)
  have "lock_inv (write_lease p (s_purpose l) s)"
    using renew_write l by (auto intro!: lock_inv_write dest: only_holder_fresh)
  then show ?case
    using lock_inv_renewing[of "write_lease p (s_purpose l) s" None p] by simp
next
  case (leave_delete s p)
  then obtain l where l: "server s = Some l" "s_holder l = p" by (auto dest: lock_invD(4))
  then show ?case
    using leave_delete by (auto intro!: lock_inv_goto lock_inv_delete dest: only_holder_fresh)
qed (auto intro!: lock_inv_goto lock_inv_renewing lock_inv_tick known_ok_server)

lemma lock_inv_reach: "lock_reach True s s' \<Longrightarrow> lock_inv s \<Longrightarrow> lock_inv s'"
  by (induction rule: rtranclp_induct) (auto intro: lock_inv_step)

subsection \<open>The operations take these steps\<close>

text \<open>
  The lease API of one process at that server, as Kubernetes documents it: reading an absent lease is
  404, creating a present one 409, and replacing one under another version 409.
\<close>

definition lease_view :: "slease \<Rightarrow> lease" where
  "lease_view l = \<lparr>lease_holder = Some (s_holder l), lease_purpose = Some (s_purpose l),
     acquire_time = Some (s_renewed l), renew_time = Some (s_renewed l),
     lease_seconds = Some LEASE_DURATION_SECONDS, resource_version = Some (s_version l)\<rparr>"

definition served :: "lock_world api \<Rightarrow> pid \<Rightarrow> lock_world api" where
  "served other p = other\<lparr>own_identity := p,
     wall_clock := getW time_now,
     read_lease := (\<lambda>s. case server s of None \<Rightarrow> (Inl (ApiException 404), s) | Some l \<Rightarrow> (Inr (lease_view l), s)),
     create_lease := (\<lambda>b s. if server s = None then (Inr (), write_lease p (or_empty (lease_purpose b)) s)
       else (Inl (ApiException 409), s)),
     replace_lease := (\<lambda>b s. case server s of None \<Rightarrow> (Inl (ApiException 404), s)
       | Some l \<Rightarrow> if resource_version b = Some (s_version l)
                 then (Inr (), write_lease p (or_empty (lease_purpose b)) s) else (Inl (ApiException 409), s)),
     delete_lease := (\<lambda>s. if server s = None then (Inl (ApiException 404), s)
       else (Inr (), s\<lparr>server := None, written := (written s)(p := None)\<rparr>))\<rparr>"

lemma served_simps [simp]:
  "own_identity (served other p) = p" "wall_clock (served other p) = getW time_now"
  "read_lease (served other p) s =
     (case server s of None \<Rightarrow> (Inl (ApiException 404), s) | Some l \<Rightarrow> (Inr (lease_view l), s))"
  "create_lease (served other p) b s =
     (if server s = None then (Inr (), write_lease p (or_empty (lease_purpose b)) s) else (Inl (ApiException 409), s))"
  "replace_lease (served other p) b s =
     (case server s of None \<Rightarrow> (Inl (ApiException 404), s)
      | Some l \<Rightarrow> if resource_version b = Some (s_version l)
                then (Inr (), write_lease p (or_empty (lease_purpose b)) s) else (Inl (ApiException 409), s))"
  "delete_lease (served other p) s =
     (if server s = None then (Inl (ApiException 404), s)
      else (Inr (), s\<lparr>server := None, written := (written s)(p := None)\<rparr>))"
  by (simp_all add: served_def)

definition state_view :: "slease \<Rightarrow> lease_state" where
  "state_view l = \<lparr>ls_holder = s_holder l, ls_purpose = s_purpose l, ls_renewed_at = s_renewed l,
     ls_duration = LEASE_DURATION_SECONDS\<rparr>"

lemma read_served:
  "read_lock (served other p) w = (Inr (map_option (\<lambda>l. (lease_view l, state_view l)) (server (ext w))), w)"
  by (simp add: read_lock_def bindA_apply catchA_def call_def lease_view_def state_view_def or_empty_def
      LEASE_DURATION_SECONDS_def split: option.splits)

lemma stale_iff: "is_expired (state_view l) now \<longleftrightarrow> stale l now"
  by (simp add: is_expired_def state_view_def stale_def duration_def)

lemma call_lock_clock: "call (getW time_now) w = (Inr (time_now (ext w)), w)"
  by (simp add: call_def)

lemma take_over_served:
  assumes "server (ext w) = Some l"
  shows "take_over (served other p) purpose (lease_view l, state_view l) w =
    (if s_holder l = p then (Inr (), w)
     else if \<not> stale l (time_now (ext w)) then (Inl (LockHeldError (s_purpose l) (s_holder l)), w)
     else (Inr (), w\<lparr>trail := trail w @ [LeaseWritten p], ext := write_lease p purpose (ext w)\<rparr>))"
  using assms
  by (simp add: take_over_def state_view_def [of l, THEN arg_cong [where f = ls_holder]]
      state_view_def [of l, THEN arg_cong [where f = ls_purpose]] bindA_apply call_lock_clock stale_iff lease_body_def
      effect_def call_def lease_view_def or_empty_def)

lemma acquire_served:
  "acquire (served other p) purpose w =
    (case server (ext w) of
       None \<Rightarrow> (Inr (), w\<lparr>trail := trail w @ [LeaseWritten p], ext := write_lease p purpose (ext w)\<rparr>)
     | Some l \<Rightarrow> take_over (served other p) purpose (lease_view l, state_view l) w)"
  by (simp add: acquire_def bindA_apply read_served lease_body_def call_lock_clock catchA_def effect_def call_def
      or_empty_def split: option.splits)

lemma release_served:
  "release (served other p) False w =
    (case server (ext w) of
       None \<Rightarrow> (Inr False, w)
     | Some l \<Rightarrow> if s_holder l \<noteq> p then (Inr False, w)
        else (Inr True, w\<lparr>trail := trail w @ [LeaseDeleted],
                ext := (ext w)\<lparr>server := None, written := (written (ext w))(p := None)\<rparr>\<rparr>))"
  by (simp add: release_def bindA_apply read_served state_view_def [THEN arg_cong [where f = ls_holder]]
      effect_def call_def split: option.splits)

lemma one_step: "lock_step prompt s s' \<Longrightarrow> lock_reach prompt s' s'' \<Longrightarrow> lock_reach prompt s s''"
  by (rule converse_rtranclp_into_rtranclp)

lemma goto_goto [simp]: "goto p c (goto p d s) = goto p c s"
  by (simp add: goto_def)

lemma goto_reads [simp]:
  "server (goto p c s) = server s" "time_now (goto p c s) = time_now s" "written (goto p c s) = written s"
  "pcs (goto p c s) = (pcs s)(p := c)" "next_version (goto p c s) = next_version s"
  by (simp_all add: goto_def)

lemma goto_write [simp]: "goto p c (write_lease q purpose (goto p d s)) = goto p c (write_lease q purpose s)"
  by (simp add: goto_def write_lease_def)

text \<open>
  Property C8. The lock excludes: in every state that processes reach from a free lock, as long as each
  deletes the lease within its duration after it last wrote it, at most one process has a write of its
  own that is neither deleted nor older than the duration.
\<close>

theorem prompt_lock_excludes:
  assumes "lock_reach True lock_start s" and "fresh s p" and "fresh s q"
  shows "p = q"
proof -
  have "lock_inv s" using assms(1) lock_inv_start by (rule lock_inv_reach)
  then show ?thesis using assms(2,3) by (metis lock_invD(4) option.inject)
qed

theorem prompt_lock_excludes_witness:
  "\<exists>s. lock_reach True lock_start s \<and> pcs s ''a'' = Holding \<and> fresh s ''a'' \<and> \<not> fresh s ''b''"
proof -
  let ?s1 = "goto ''a'' (Acquiring None) lock_start"
  let ?s = "goto ''a'' Holding (write_lease ''a'' ''run'' ?s1)"
  have "lock_step True lock_start ?s1"
    using lock_step.read [of lock_start "''a''" True] by (simp add: lock_start_def)
  moreover have "lock_step True ?s1 ?s" by (rule lock_step.create) (simp_all add: lock_start_def)
  ultimately have r: "lock_reach True lock_start ?s" by (blast intro: rtranclp.intros)
  have a: "fresh ?s ''a''" by (simp add: fresh_def write_lease_def duration_def LEASE_DURATION_SECONDS_def)
  have "\<not> fresh ?s ''b''" using prompt_lock_excludes [OF r a, of "''b''"] by auto
  with r a show ?thesis by (intro exI [of _ ?s]) simp
qed

text \<open>
  Property C9. The code's \<open>release\<close> does not have that guard: it deletes whatever lease there is after
  having read its own, so a process that stalls between the two calls for longer than the duration deletes the
  lease of the process that took over, and a third one acquires: two hold the lock, with fresh writes.
\<close>

theorem late_release_breaks_lock:
  "\<exists>s. lock_reach False lock_start s \<and> pcs s ''b'' = Holding \<and> pcs s ''c'' = Holding \<and>
     fresh s ''b'' \<and> fresh s ''c''"
proof -
  let ?s1 = "goto ''a'' (Acquiring None) lock_start"
  let ?s2 = "goto ''a'' Holding (write_lease ''a'' ''x'' ?s1)"
  let ?s3 = "goto ''a'' Leaving ?s2"
  let ?s4 = "?s3\<lparr>time_now := 91\<rparr>"
  let ?s5 = "goto ''b'' (Acquiring (server ?s4)) ?s4"
  let ?s6 = "goto ''b'' Holding (write_lease ''b'' ''y'' ?s5)"
  let ?s7 = "goto ''a'' Outside (?s6\<lparr>server := None, written := (written ?s6)(''a'' := None)\<rparr>)"
  let ?s8 = "goto ''c'' (Acquiring (server ?s7)) ?s7"
  let ?s9 = "goto ''c'' Holding (write_lease ''c'' ''z'' ?s8)"
  let ?l = "\<lparr>s_holder = ''a'', s_purpose = ''x'', s_renewed = 0, s_version = 0\<rparr>"
  note eval = goto_def write_lease_def lock_start_def
  have s1: "lock_step False lock_start ?s1"
    using lock_step.read [of lock_start "''a''" False] by (simp add: lock_start_def)
  have s2: "lock_step False ?s1 ?s2" by (rule lock_step.create) (simp_all add: lock_start_def)
  have s3: "lock_step False ?s2 ?s3" by (rule lock_step.leave_read [of _ _ ?l]) (simp_all add: eval)
  have s4: "lock_step False ?s3 ?s4" by (rule lock_step.tick) (simp add: eval)
  have s5: "lock_step False ?s4 ?s5" by (rule lock_step.read) (simp add: eval)
  have s6: "lock_step False ?s5 ?s6"
    by (rule lock_step.take [of _ _ ?l ?l]) (simp_all add: eval stale_def duration_def LEASE_DURATION_SECONDS_def)
  have s7: "lock_step False ?s6 ?s7" by (rule lock_step.leave_delete) (simp_all add: eval)
  have s8: "lock_step False ?s7 ?s8" by (rule lock_step.read) (simp add: eval)
  have s9: "lock_step False ?s8 ?s9" by (rule lock_step.create) (simp_all add: eval)
  have "lock_reach False lock_start ?s9"
    by (rule one_step [OF s1 one_step [OF s2 one_step [OF s3 one_step [OF s4 one_step [OF s5 one_step [OF s6
      one_step [OF s7 one_step [OF s8 one_step [OF s9 rtranclp.rtrancl_refl]]]]]]]]])
  moreover have "fresh ?s9 ''b'' \<and> fresh ?s9 ''c''"
    by (simp add: fresh_def eval duration_def LEASE_DURATION_SECONDS_def)
  ultimately show ?thesis by (intro exI [of _ ?s9]) (simp add: eval)
qed



text \<open>
  \<open>release\<close> alone takes the steps of the relation from holding the lock, and returns whether
  it deleted a lease, which is when the lease is still its own.
\<close>

theorem release_takes_steps:
  assumes "release (served other p) False w = (r, w')" and "pcs (ext w) p = Holding"
  shows "lock_reach False (ext w) (goto p Outside (ext w')) \<and>
    r = Inr (\<exists>l. server (ext w) = Some l \<and> s_holder l = p)"
proof (cases "\<exists>l. server (ext w) = Some l \<and> s_holder l = p")
  case False
  then have "lock_step False (ext w) (goto p Outside (ext w))" using assms(2) by (intro lock_step.leave_lost) auto
  with False assms(1) show ?thesis by (auto simp: release_served split: option.splits)
next
  case True
  then obtain l where l: "server (ext w) = Some l" "s_holder l = p" by blast
  let ?s = "goto p Leaving (ext w)"
  have "lock_step False (ext w) ?s" using assms(2) l by (rule lock_step.leave_read)
  moreover have "lock_step False ?s (goto p Outside (?s\<lparr>server := None, written := (written ?s)(p := None)\<rparr>))"
    by (rule lock_step.leave_delete) simp_all
  ultimately have "lock_reach False (ext w) (goto p Outside (?s\<lparr>server := None, written := (written ?s)(p := None)\<rparr>))"
    by (blast intro: one_step r_into_rtranclp)
  with l assms(1) show ?thesis by (auto simp: release_served goto_def)
qed

theorem release_takes_steps_witness:
  "\<exists>w' :: lock_world world. lock_reach False (goto ''a'' Holding lock_start) (goto ''a'' Outside (ext w'))"
proof -
  define w :: "lock_world world" where "w = empty_world (goto ''a'' Holding lock_start)"
  have start: "pcs (ext w) ''a'' = Holding" "ext w = goto ''a'' Holding lock_start"
    by (simp_all add: w_def empty_world_def)
  obtain r w' where run: "release (served other ''a'') False w = (r, w')"
    by (cases "release (served other ''a'') False w")
  from release_takes_steps [OF run start(1)] start show ?thesis by auto
qed

end
