(* ===== verification/Expectations.thy ===== *)
theory Expectations
  imports Schema
begin

section \<open>Application expectations (scenarios/expectations.py)\<close>

text \<open>
  The rules that decide whether the responses, order states, compensations and ledger entries of a run
  are what its scenario expects. \<open>Counter(values).get(v, 0)\<close> is the number of occurrences in the list.
  The detail texts are for the report; what they list is kept as \<open>count_problem\<close> values.
\<close>

record check_result =
  result_name :: string
  result_passed :: bool

definition count_matches :: "count_rule \<Rightarrow> nat \<Rightarrow> nat \<Rightarrow> bool" where
  "count_matches r n whole =
     (if all_of r then n = whole \<and> 0 < whole
      else if (case exactly r of None \<Rightarrow> False | Some k \<Rightarrow> int n \<noteq> k) then False
      else if (case min_count r of None \<Rightarrow> False | Some k \<Rightarrow> int n < k) then False
      else \<not> (case max_count r of None \<Rightarrow> False | Some k \<Rightarrow> k < int n))"

definition describe :: "count_rule \<Rightarrow> string" where
  "describe r =
     (if all_of r then ''all''
      else join '' and ''
        ((case exactly r of None \<Rightarrow> [] | Some k \<Rightarrow> [''exactly '' @ show_int k])
         @ (case min_count r of None \<Rightarrow> [] | Some k \<Rightarrow> [''at least '' @ show_int k])
         @ (case max_count r of None \<Rightarrow> [] | Some k \<Rightarrow> [''at most '' @ show_int k])))"

datatype 'a count_problem = WrongCount 'a nat string | UnexpectedValues "('a \<times> nat) list"

definition count_problems :: "('a::linorder, count_rule) dict \<Rightarrow> 'a list \<Rightarrow> 'a count_problem list" where
  "count_problems expected values =
     map (\<lambda>(v, r). WrongCount v (count_list values v) (describe r))
       (filter (\<lambda>(v, r). \<not> count_matches r (count_list values v) (length values)) expected)
     @ (let unexpected = sorted_set (filter (\<lambda>v. v \<notin> set (dict_keys expected)) values) in
        if unexpected \<noteq> [] then [UnexpectedValues (map (\<lambda>v. (v, count_list values v)) unexpected)] else [])"

definition evaluate_statuses :: "application_expectations \<Rightarrow> int list \<Rightarrow> check_result" where
  "evaluate_statuses e values = \<lparr>result_name = ''HTTP statuses'', result_passed = (count_problems (statuses e) values = [])\<rparr>"

definition evaluate_states :: "application_expectations \<Rightarrow> string list \<Rightarrow> check_result option" where
  "evaluate_states e values =
     (if states e = [] then None
      else Some \<lparr>result_name = ''order states'', result_passed = (count_problems (states e) values = [])\<rparr>)"

definition done_actions :: "pyval \<Rightarrow> pyval list result" where
  "done_actions ord =
     bindE (bindE (py_get ord ''compensation'' (PList [])) py_iter) (\<lambda>steps.
     bindE (mapE (\<lambda>step. bindE (py_get step ''status'' PNone) (\<lambda>st.
         if st = PStr ''Succeeded'' then bindE (py_item step ''action'') (\<lambda>a. Inr [a]) else Inr [])) steps)
       (\<lambda>acts. Inr (concat acts)))"

definition evaluate_compensation :: "application_expectations \<Rightarrow> pyval list \<Rightarrow> check_result option result" where
  "evaluate_compensation e failed_orders =
     (case compensation e of
        None \<Rightarrow> Inr None
      | Some required \<Rightarrow>
          bindE (mapE done_actions failed_orders) (\<lambda>dones.
          let problems = filter (\<lambda>d. \<not> py_eqs d (map PStr required)) dones in
          Inr (Some \<lparr>result_name = ''compensation'',
            result_passed = (problems = [] \<and> (failed_orders \<noteq> [] \<or> required = []))\<rparr>)))"

definition evaluate_authorizations :: "application_expectations \<Rightarrow> (string, pyval) dict \<Rightarrow> check_result option" where
  "evaluate_authorizations e per_order =
     (case authorizations_per_order e of
        None \<Rightarrow> None
      | Some n \<Rightarrow>
          (let wrong = filter (\<lambda>(_, k). \<not> py_eq k (PInt n)) per_order in
           Some \<lparr>result_name = ''payment authorizations'', result_passed = (wrong = [] \<and> per_order \<noteq> [])\<rparr>))"

subsection \<open>When the checks pass\<close>

text \<open>What a rule asks of the number of occurrences.\<close>

definition satisfies :: "count_rule \<Rightarrow> nat \<Rightarrow> nat \<Rightarrow> bool" where
  "satisfies r n whole \<longleftrightarrow>
     (if all_of r then n = whole \<and> 0 < whole
      else (\<forall>k. exactly r = Some k \<longrightarrow> int n = k) \<and> (\<forall>k. min_count r = Some k \<longrightarrow> k \<le> int n) \<and>
           (\<forall>k. max_count r = Some k \<longrightarrow> int n \<le> k))"

lemma count_matches_iff: "count_matches r n whole \<longleftrightarrow> satisfies r n whole"
  by (auto simp: count_matches_def satisfies_def split: option.splits)

lemma count_problems_iff:
  "count_problems expected values = [] \<longleftrightarrow>
     (\<forall>(v, r) \<in> set expected. satisfies r (count_list values v) (length values)) \<and>
     (\<forall>v \<in> set values. v \<in> fst ` set expected)"
  by (auto simp: count_problems_def Let_def filter_empty_conv count_matches_iff dict_keys_def)

text \<open>
  The check of the HTTP statuses passes exactly if no status occurred that the scenario
  does not list and every listed status occurred as often as its rule says; with the rule \<open>all\<close> for a
  status it passes only if there were requests and each of them ended with that status.
\<close>

theorem evaluate_statuses_iff:
  "(result_passed (evaluate_statuses e values) \<longleftrightarrow>
     (\<forall>(v, r) \<in> set (statuses e). satisfies r (count_list values v) (length values)) \<and>
     (\<forall>v \<in> set values. v \<in> fst ` set (statuses e))) \<and>
   (result_passed (evaluate_statuses e values) \<longrightarrow> (v, r) \<in> set (statuses e) \<longrightarrow> all_of r \<longrightarrow>
     values \<noteq> [] \<and> (\<forall>x \<in> set values. x = v))"
proof -
  have all: "\<forall>x \<in> set values. x = v" if "count_list values v = length values"
    using that
  proof (induction "values")
    case (Cons x xs)
    have "count_list xs v \<le> length xs" by (rule count_le_length)
    with Cons show ?case by (auto split: if_splits)
  qed simp
  show ?thesis
    using all by (auto simp: evaluate_statuses_def count_problems_iff satisfies_def split: if_splits)
qed

theorem evaluate_statuses_witness:
  "result_passed (evaluate_statuses \<lparr>statuses = [(201, \<lparr>exactly = None, min_count = None, max_count = None, all_of = True\<rparr>)],
     states = [], compensation = None, authorizations_per_order = None\<rparr> [201, 201])"
    (is "result_passed (evaluate_statuses ?e _)")
  using evaluate_statuses_iff [of ?e "[201, 201]"] by (simp add: satisfies_def)

text \<open>
  The compensation check passes exactly if every failed order's succeeded compensation
  actions are the required ones in the required order, and there was a failed order to look at unless
  nothing is required.
\<close>

theorem evaluate_compensation_iff:
  assumes "compensation e = Some required" and "mapE done_actions failed_orders = Inr dones"
  shows "\<exists>res. evaluate_compensation e failed_orders = Inr (Some res) \<and>
    (result_passed res \<longleftrightarrow> (\<forall>d \<in> set dones. d = map PStr required) \<and> (failed_orders \<noteq> [] \<or> required = []))"
  using assms by (auto simp: evaluate_compensation_def filter_empty_conv py_eqs_strs)

theorem evaluate_compensation_witness:
  "\<exists>res. evaluate_compensation \<lparr>statuses = [], states = [], compensation = Some [''inventory.release''],
     authorizations_per_order = None\<rparr>
     [PDict [(''compensation'', PList [PDict [(''action'', PStr ''inventory.release''), (''status'', PStr ''Succeeded'')]])]]
     = Inr (Some res) \<and> result_passed res"
proof -
  let ?o = "PDict [(''compensation'', PList [PDict [(''action'', PStr ''inventory.release''), (''status'', PStr ''Succeeded'')]])]"
  have "mapE done_actions [?o] = Inr [map PStr [''inventory.release'']]"
    by (simp add: done_actions_def py_get_def py_item_def dict_get_def)
  from evaluate_compensation_iff [OF _ this, where required = "[''inventory.release'']" and
    e = "\<lparr>statuses = [], states = [], compensation = Some [''inventory.release''], authorizations_per_order = None\<rparr>"]
  show ?thesis by auto
qed

end
