(* ===== verification/Engine.thy ===== *)
theory Engine
  imports Actions Runlock Expectations
begin

section \<open>Scenario runs (scenarios/engine.py)\<close>

text \<open>
  Pre-flight, restoring, and one run from the lock to the saved record. The record in progress is
  \<open>active\<close> of the world; the journal of a run is named by its id. \<open>try\<close>, \<open>except\<close> and \<open>finally\<close> are
  \<open>catchA\<close> and \<open>finallyA\<close>. The dictionary of an \<open>http\<close> call holds its query parameters, or its headers
  where the code sets some. Console output is left out, and the texts of errors are the exceptions.
\<close>

definition REQUIRED_DEPLOYMENTS :: "(string, string list) dict" where
  "REQUIRED_DEPLOYMENTS =
     [(NS_APP, ''order-service'' # DOWNSTREAM_SERVICES @ [''keycloak'']),
      (NS_GATEWAY, [''kong-gateway'', ''kong-controller'']),
      (NS_OBSERVABILITY, [''jaeger-collector'', ''jaeger-query'', ''prometheus-server''])]"

definition REQUIRED_STATEFULSETS :: "(string, string list) dict" where
  "REQUIRED_STATEFULSETS = [(NS_OBSERVABILITY, [''opensearch-traces''])]"

text \<open>\<open>except Exception as error\<close>.\<close>

definition excepting :: "('w, 'a) act \<Rightarrow> (exn \<Rightarrow> ('w, 'a) act) \<Rightarrow> ('w, 'a) act" where
  "excepting m h = catchA m (\<lambda>e. if is_exception e then h e else raise e)"

subsection \<open>Pre-flight\<close>

definition deployment_problems :: "'k api \<Rightarrow> string \<Rightarrow> string \<Rightarrow> ('k world, preflight_problem list) act" where
  "deployment_problems a ns nm =
     excepting (bindA (deployment_available a ns nm) (\<lambda>ok. ret (if ok then [] else [DeploymentUnavailable ns nm])))
       (\<lambda>e. ret [DeploymentError ns nm e])"

definition statefulset_problems :: "'k api \<Rightarrow> string \<Rightarrow> string \<Rightarrow> ('k world, preflight_problem list) act" where
  "statefulset_problems a ns nm =
     bindA (statefulset_ready a ns nm) (\<lambda>ok. ret (if ok then [] else [StatefulSetNotReady ns nm]))"

definition in_namespaces ::
  "(string \<Rightarrow> string \<Rightarrow> ('w, 'a list) act) \<Rightarrow> (string, string list) dict \<Rightarrow> ('w, 'a list) act" where
  "in_namespaces f d =
     bindA (mapA (\<lambda>(ns, nms). bindA (mapA (f ns) nms) (\<lambda>pss. ret (concat pss))) d) (\<lambda>pss. ret (concat pss))"

definition gateway_problems :: "'k api \<Rightarrow> ('k world, preflight_problem list) act" where
  "gateway_problems a =
     excepting
       (bindA (call (http a GatewayUrl ''GET'' ''/orders/00000000-0000-0000-0000-000000000000'' [] None)) (\<lambda>response.
        let answered = (if resp_status response \<noteq> 401 then [GatewayAnswered (resp_status response)] else []) in
        excepting (bindA (call (fetch_token a ''scenario-runner'')) (\<lambda>_. ret answered))
          (\<lambda>e. ret (answered @ [GatewayUnusable e]))))
       (\<lambda>e. ret [GatewayUnusable e])"

definition preflight :: "'k api \<Rightarrow> ('k world, preflight_problem list) act" where
  "preflight a =
     bindA (in_namespaces (deployment_problems a) REQUIRED_DEPLOYMENTS) (\<lambda>ps1.
     bindA (in_namespaces (statefulset_problems a) REQUIRED_STATEFULSETS) (\<lambda>ps2.
       if ps1 @ ps2 \<noteq> [] then ret (ps1 @ ps2)
       else bindA (gateway_problems a) (\<lambda>ps3.
            bindA (leftover_faults a) (\<lambda>left.
            ret (ps3 @ (if left \<noteq> [] then [FaultsLeft left] else []))))))"

subsection \<open>Restoring\<close>

definition target_name :: "pyval \<Rightarrow> string result" where
  "target_name v = (case v of PStr s \<Rightarrow> Inr s | _ \<Rightarrow> if hashable v then Inl (KeyError []) else Inl TypeError)"

definition restore_one :: "'k api \<Rightarrow> restore_step \<Rightarrow> ('k world, unit) act" where
  "restore_one a step =
     bindA (liftE (target_name (step_target step))) (\<lambda>target.
       case step_kind step of
         ClearFaults \<Rightarrow> bindA (clear_faults a target) (\<lambda>_. ret ())
       | ScaleStep \<Rightarrow> restore_replicas a target (or0 (step_replicas step))
       | WaitAvailable \<Rightarrow> wait_rollout_complete a target 600)"

definition restore_steps :: "'k api \<Rightarrow> string \<Rightarrow> ('k world, unit) act" where
  "restore_steps a rid =
     bindA (getW (journal_entries rid)) (\<lambda>es. bindA (liftE (restore_plan es)) (\<lambda>plan. forA plan (restore_one a)))"

definition restore_active :: "'k api \<Rightarrow> ('k world, unit) act" where
  "restore_active a =
     bindA (getW (\<lambda>w. run_ident (active w))) (\<lambda>rid. bindA (restore_steps a rid) (\<lambda>_.
     update_active (\<lambda>r. r\<lparr>restored := True\<rparr>)))"

definition as_interrupted :: "run_record \<Rightarrow> run_record" where
  "as_interrupted r = (let r' = r\<lparr>restored := True\<rparr> in
     if run_status r' = Running then r'\<lparr>run_status := Interrupted\<rparr> else r')"

definition restore_interrupted_runs :: "'k api \<Rightarrow> ('k world, string list) act" where
  "restore_interrupted_runs a =
     bindA (getW unrestored_runs) (\<lambda>rs.
     mapA (\<lambda>r. bindA (restore_steps a (run_ident r)) (\<lambda>_.
       bindA (save_record (as_interrupted r)) (\<lambda>_. ret (''restored interrupted run '' @ run_ident r)))) rs)"

definition reset :: "'k api \<Rightarrow> bool \<Rightarrow> ('k world, string list) act" where
  "reset a force =
     bindA (if force then release a True else ret False) (\<lambda>released.
     bindA (restore_interrupted_runs a) (\<lambda>restored_runs.
     bindA (mapA (\<lambda>svc. bindA (clear_faults a svc) (\<lambda>removed.
       ret (if removed \<noteq> 0 then [''removed '' @ show_int removed @ '' fault rule(s) from '' @ svc] else [])))
       DOWNSTREAM_SERVICES) (\<lambda>msgs.
     bindA (reset_circuit_breakers a) (\<lambda>_.
     ret ((if released then [''released the experiment lock''] else []) @ restored_runs @ concat msgs
       @ [''closed all circuit breakers''])))))"

subsection \<open>What is checked after the traffic\<close>

definition read_back_orders :: "'k api \<Rightarrow> ('k world, unit) act" where
  "read_back_orders a =
     bindA (getW (\<lambda>w. sorted_set (filter (\<lambda>i. i \<noteq> []) (map order_id (run_requests (active w)))))) (\<lambda>order_ids.
       if order_ids = [] then ret ()
       else bindA (call (fetch_token a ''order-reader'')) (\<lambda>token.
            forA order_ids (\<lambda>oid.
              bindA (call (http a OrderServicePort ''GET'' (''/orders/'' @ oid)
                             [(''Authorization'', ''Bearer '' @ token)] None)) (\<lambda>response.
              if resp_status response = 200
              then bindA (liftE (json_of response)) (\<lambda>v.
                     update_active (\<lambda>r. r\<lparr>run_orders := dict_put oid v (run_orders r)\<rparr>))
              else ret ()))))"

text \<open>\<open>order["state"]\<close> as a text; a state of another type raises in \<open>endswith\<close>.\<close>

definition order_state_text :: "pyval \<Rightarrow> string result" where
  "order_state_text ord = bindE (py_item ord ''state'') (\<lambda>v. case v of PStr s \<Rightarrow> Inr s | _ \<Rightarrow> Inl AttributeError)"

definition authorization_counts :: "'k api \<Rightarrow> string list \<Rightarrow> ('k world, (string, pyval) dict) act" where
  "authorization_counts a order_ids =
     bindA (payment_authorizations a order_ids) (\<lambda>summaries.
     liftE (mapE (\<lambda>(oid, s). bindE (py_item s ''authorizations'') (\<lambda>n. Inr (oid, n))) summaries))"

definition application_checks :: "'k api \<Rightarrow> scenario \<Rightarrow> ('k world, unit) act" where
  "application_checks a sc =
     (let expected = application (expect sc) in
      bindA (getW active) (\<lambda>r.
      let order_values = map snd (run_orders r) in
      bindA (liftE (mapE order_state_text order_values)) (\<lambda>state_texts.
      let failed = map snd (filter (\<lambda>(s, _). suffix ''Failed'' s) (zip state_texts order_values)) in
      bindA (liftE (evaluate_compensation expected failed)) (\<lambda>compensated.
      bindA (if authorizations_per_order expected = None then ret None
             else bindA (authorization_counts a (sort (dict_keys (run_orders r)))) (\<lambda>per_order.
                    ret (evaluate_authorizations expected per_order))) (\<lambda>authorized.
      let results = Some (evaluate_statuses expected (map req_status (run_requests r)))
                  # evaluate_states expected state_texts # compensated # [authorized] in
      update_active (\<lambda>r. foldl (\<lambda>r c. add_check (result_name c) (result_passed c) ApplicationLayer r) r
        (List.map_filter id results)))))))"

subsection \<open>A run\<close>

definition inject_faults :: "'k api \<Rightarrow> scenario \<Rightarrow> string \<Rightarrow> ('k world, unit) act" where
  "inject_faults a sc rid =
     forA (faults sc) (\<lambda>f. bindA (apply_fault a f rid) (\<lambda>pods.
       update_active (\<lambda>r. r\<lparr>run_faults := run_faults r @
         [\<lparr>af_service = fault_service f, af_operation = fault_operation f, af_mode = fault_mode_of f, af_pods = pods\<rparr>]\<rparr>)))"

definition snapshot :: "'k api \<Rightarrow> scenario \<Rightarrow> ('k world, unit) act" where
  "snapshot a sc = bindA (getW active) (\<lambda>r. bindA (snapshot_metrics a sc r) (\<lambda>r'. update_active (\<lambda>_. r')))"

definition telemetry_checks :: "'k api \<Rightarrow> scenario \<Rightarrow> ('k world, unit) act" where
  "telemetry_checks a sc = bindA (getW active) (\<lambda>r. bindA (verify a sc r) (\<lambda>r'. update_active (\<lambda>_. r')))"

text \<open>The \<open>try\<close> block: what it does on a ready platform, and the whole of it.\<close>

definition conduct :: "'k api \<Rightarrow> nat list \<times> nat list \<Rightarrow> scenario \<Rightarrow> bool \<Rightarrow> string \<Rightarrow> ('k world, unit) act" where
  "conduct a scheds sc verify_telemetry rid =
     bindA (reset_circuit_breakers a) (\<lambda>_.
     bindA (whenA verify_telemetry (snapshot a sc)) (\<lambda>_.
     bindA (inject_faults a sc rid) (\<lambda>_.
     bindA (traffic a scheds sc rid) (\<lambda>_.
     bindA (restore_active a) (\<lambda>_.
     bindA (read_back_orders a) (\<lambda>_.
     bindA (application_checks a sc) (\<lambda>_.
     bindA (whenA (verify_telemetry \<and> telemetry (expect sc) \<noteq> None) (telemetry_checks a sc)) (\<lambda>_.
     update_active (\<lambda>r. r\<lparr>run_status := (if passed r then Passed else Failed)\<rparr>)))))))))"

definition unready :: "preflight_problem list \<Rightarrow> run_record \<Rightarrow> run_record" where
  "unready problems r = r\<lparr>run_status := ErrorStatus, run_error := PreflightFailed problems, restored := True\<rparr>"

definition try_scenario :: "'k api \<Rightarrow> nat list \<times> nat list \<Rightarrow> scenario \<Rightarrow> bool \<Rightarrow> string \<Rightarrow> ('k world, unit) act" where
  "try_scenario a scheds sc verify_telemetry rid =
     bindA (preflight a) (\<lambda>problems.
       if problems \<noteq> [] then update_active (unready problems)
       else conduct a scheds sc verify_telemetry rid)"

text \<open>The \<open>except\<close> clauses and the \<open>finally\<close> block.\<close>

definition note_failure :: "exn \<Rightarrow> ('k world, unit) act" where
  "note_failure e =
     (if is_exception e then update_active (\<lambda>r. r\<lparr>run_status := ErrorStatus, run_error := Raised e\<rparr>)
      else bindA (update_active (\<lambda>r. r\<lparr>run_status := Interrupted\<rparr>)) (\<lambda>_. raise e))"

definition save_active :: "('k world, unit) act" where
  "save_active = bindA (getW active) save_record"

definition clean_up :: "'k api \<Rightarrow> ('k world, unit) act" where
  "clean_up a =
     bindA (getW active) (\<lambda>r. bindA (whenA (\<not> restored r) (restore_active a)) (\<lambda>_.
     bindA (call (time_stamp a)) (\<lambda>t. bindA (update_active (\<lambda>r. r\<lparr>finished_at := t\<rparr>)) (\<lambda>_. save_active))))"

definition attempt :: "'k api \<Rightarrow> nat list \<times> nat list \<Rightarrow> scenario \<Rightarrow> bool \<Rightarrow> string \<Rightarrow> ('k world, unit) act" where
  "attempt a scheds sc verify_telemetry rid =
     finallyA (catchA (try_scenario a scheds sc verify_telemetry rid) note_failure) (clean_up a)"

definition begin_record :: "'k api \<Rightarrow> scenario \<Rightarrow> ('k world, string) act" where
  "begin_record a sc =
     bindA (call (time_stamp a)) (\<lambda>stamp. bindA (call (random_bytes a)) (\<lambda>random.
     bindA (call (time_stamp a)) (\<lambda>started.
     let rid = new_run_id stamp random (scenario_id sc) in
     bindA (update_active (\<lambda>_. new_record rid (scenario_id sc) started)) (\<lambda>_. ret rid))))"

definition purpose_of :: "scenario \<Rightarrow> string \<Rightarrow> string" where
  "purpose_of sc rid = ''scenario '' @ scenario_id sc @ '' ('' @ rid @ '')''"

definition run :: "'k api \<Rightarrow> nat list \<times> nat list \<Rightarrow> scenario \<Rightarrow> bool \<Rightarrow> ('k world, run_record) act" where
  "run a scheds sc verify_telemetry =
     bindA (begin_record a sc) (\<lambda>rid.
     bindA (held a (purpose_of sc rid)
       (bindA (restore_interrupted_runs a) (\<lambda>_. bindA save_active (\<lambda>_.
        attempt a scheds sc verify_telemetry rid)))) (\<lambda>_.
     getW active))"

section \<open>What a run leaves behind\<close>

subsection \<open>Write-ahead order\<close>

lemma ordered_excepting: "steps ordered m \<Longrightarrow> (\<And>e. steps ordered (h e)) \<Longrightarrow> steps ordered (excepting m h)"
  by (auto simp: excepting_def intro!: ord.steps_intros)

lemma looks_excepting: "steps unchanged m \<Longrightarrow> (\<And>e. steps unchanged (h e)) \<Longrightarrow> steps unchanged (excepting m h)"
  by (auto simp: excepting_def)

lemma looks_preflight: "steps unchanged (preflight a)"
  by (auto simp: preflight_def in_namespaces_def deployment_problems_def statefulset_problems_def gateway_problems_def
    deployment_available_def statefulset_ready_def Let_def intro!: looks_excepting split: prod.splits)

lemma ordered_restore_one: "steps ordered (restore_one a step)"
  by (auto simp: restore_one_def intro!: ord.steps_intros ordered_control split: restore_kind.splits)

lemma ordered_restore_steps: "steps ordered (restore_steps a rid)"
  by (auto simp: restore_steps_def intro!: ord.steps_intros ordered_restore_one)

lemma ordered_restore_active: "steps ordered (restore_active a)"
  by (auto simp: restore_active_def intro!: ord.steps_intros ordered_restore_steps ordered_update_active)

lemma ordered_restore_interrupted: "steps ordered (restore_interrupted_runs a)"
  by (auto simp: restore_interrupted_runs_def intro!: ord.steps_intros ordered_restore_steps ordered_save)

lemma ordered_reset: "steps ordered (reset a force)"
  by (auto simp: reset_def intro!: ord.steps_intros ordered_restore_interrupted ordered_release ordered_control)

lemma ordered_read_back: "steps ordered (read_back_orders a)"
  by (auto simp: read_back_orders_def intro!: ord.steps_intros ordered_control)

lemma ordered_application_checks: "steps ordered (application_checks a sc)"
  by (auto simp: application_checks_def authorization_counts_def Let_def
    intro!: ord.steps_intros ordered_control)

lemma ordered_conduct: "steps ordered (conduct a scheds sc v rid)"
  by (auto simp: conduct_def inject_faults_def snapshot_def telemetry_checks_def
    intro!: ord.steps_intros looks_ordered [OF looks_snapshot] looks_ordered [OF looks_verify] ordered_traffic
      ordered_restore_active ordered_read_back ordered_application_checks ordered_control)

lemma ordered_try_scenario: "steps ordered (try_scenario a scheds sc v rid)"
  by (auto simp: try_scenario_def
    intro!: ord.steps_intros looks_ordered [OF looks_preflight] ordered_conduct ordered_update_active)

lemma ordered_note_failure: "steps ordered (note_failure e)"
  by (auto simp: note_failure_def intro!: ord.steps_intros ordered_control)

lemma ordered_clean_up: "steps ordered (clean_up a)"
  by (auto simp: clean_up_def save_active_def intro!: ord.steps_intros ordered_restore_active ordered_control)

lemma ordered_attempt: "steps ordered (attempt a scheds sc v rid)"
  by (auto simp: attempt_def intro!: ord.steps_intros ordered_try_scenario ordered_note_failure ordered_clean_up)

lemma ordered_run: "steps ordered (run a scheds sc v)"
  by (auto simp: run_def begin_record_def save_active_def Let_def
    intro!: ord.steps_intros ordered_held ordered_restore_interrupted ordered_attempt ordered_control)

text \<open>Which step of a restore plan undoes a change.\<close>

fun undone_by :: "event \<Rightarrow> restore_step set \<Rightarrow> bool" where
  "undone_by (FaultSet _ svc _) plan \<longleftrightarrow> clear_step svc \<in> plan \<and> wait_step svc \<in> plan"
| "undone_by (PodDeleted _ wl _) plan \<longleftrightarrow> wait_step wl \<in> plan"
| "undone_by (WorkloadRestarted _ wl) plan \<longleftrightarrow> wait_step wl \<in> plan"
| "undone_by (WorkloadScaled _ wl _) plan \<longleftrightarrow> (\<exists>n. scale_step wl n \<in> plan) \<and> wait_step wl \<in> plan"
| "undone_by _ plan \<longleftrightarrow> True"

lemma announced_undone:
  assumes "announced past ev" and "changed_by ev = Some rid"
  shows "undone_by ev (set (plan_of (journaled rid past)))"
proof -
  obtain e where e: "e \<in> set (journaled rid past)" "announces e ev"
    using assms by (auto simp: announced_def set_journaled)
  have scaled: "\<exists>n. scale_step wl n \<in> set (plan_of es)" if "ScaleEntry wl k l \<in> set es" for wl k l es
  proof -
    have "(wl, k) \<in> set (scaled es)" using that by (force simp: scaled_def List.map_filter_def)
    then obtain n where "map_of (scaled es) wl = Some n"
      by (metis domIff image_eqI fst_conv dom_map_of_conv_image_fst option.exhaust)
    then show ?thesis by (auto simp: scale_in_plan)
  qed
  show ?thesis
    using e by - (cases ev; cases e; auto simp: clear_in_plan wait_in_plan intro: scaled bexI [of _ e])
qed

lemma write_ahead_at: "write_ahead evs \<Longrightarrow> evs = past @ ev # future \<Longrightarrow> announced past ev"
  by (simp add: write_ahead_def)


subsection \<open>A refused run\<close>

lemma only_begin_record: "steps (only {}) (begin_record a sc)"
proof -
  have "steps (only {}) (update_active f)" for f :: "run_record \<Rightarrow> run_record"
    by (simp add: update_active_def steps_def only_def)
  then show ?thesis by (auto simp: begin_record_def Let_def intro!: few.steps_intros only_call)
qed

text \<open>
  Property C4. A run that does not get the lock leaves nothing behind: when \<open>acquire\<close> raises, the run raises
  the same exception, no record or journal was written, and nothing was issued but the attempt to write
  the lease.
\<close>

theorem refused_run_leaves_nothing:
  assumes "begin_record a sc w = (Inr rid, w1)" and "acquire a (purpose_of sc rid) w1 = (Inl e, w2)"
  shows "run a scheds sc v w = (Inl e, w2) \<and> record_files w2 = record_files w \<and>
    journal_files w2 = journal_files w \<and>
    (\<exists>new. trail w2 = trail w @ new \<and> set new \<subseteq> {LeaseWritten (own_identity a)})"
proof -
  have "only {} w w1" using only_begin_record assms(1) by (rule stepsD)
  moreover have "only {LeaseWritten (own_identity a)} w1 w2" using only_acquire assms(2) by (rule stepsD)
  ultimately show ?thesis using assms by (auto simp: only_def run_def held_def bindA_apply)
qed

subsection \<open>The record a run returns\<close>

definition same_active :: "'k world \<Rightarrow> 'k world \<Rightarrow> bool" where
  "same_active w w' \<longleftrightarrow> active w' = active w"

interpretation kept: step_rel "same_active :: 'k world \<Rightarrow> 'k world \<Rightarrow> bool"
  by unfold_locales (simp_all add: same_active_def)

lemma kept_call: "steps same_active (call m)"
  by (simp add: steps_def same_active_def call_keeps)

lemma kept_effect: "steps same_active (effect ev m)"
  by (simp add: steps_def same_active_def effect_keeps)

lemma kept_looks: "steps unchanged m \<Longrightarrow> steps same_active m"
  by (simp add: steps_def same_active_def unchanged_def)

lemma kept_clear_faults: "steps same_active (clear_faults a svc)"
  by (auto simp: clear_faults_def intro!: kept.steps_intros kept_effect kept_looks [OF looks_running_pods])

lemma kept_restore_steps: "steps same_active (restore_steps a rid)"
  by (auto simp: restore_steps_def restore_one_def restore_replicas_def set_replicas_def
    intro!: kept.steps_intros kept_effect kept_clear_faults kept_looks [OF looks_wait_rollout]
    split: restore_kind.splits prod.splits)

lemma kept_restore_interrupted: "steps same_active (restore_interrupted_runs a)"
proof -
  have "steps same_active (save_record r)" for r by (simp add: save_record_def steps_def same_active_def)
  then show ?thesis
    by (auto simp: restore_interrupted_runs_def intro!: kept.steps_intros kept_restore_steps)
qed

lemma kept_release: "steps same_active (release a force)"
  by (auto simp: release_def read_lock_def intro!: kept.steps_intros kept_call kept_effect
    split: option.splits prod.splits)

lemma release_keeps_files: "steps (only {LeaseDeleted}) (release a force)"
  by (auto simp: release_def read_lock_def intro!: few.steps_intros only_call only_effect
    split: option.splits prod.splits)

lemma restore_active_result:
  "restore_active a w = (Inr (), w') \<Longrightarrow> active w' = (active w)\<lparr>restored := True\<rparr>"
  using stepsD [OF kept_restore_steps]
  by (fastforce simp: restore_active_def bindA_apply update_active_def same_active_def split: prod.splits sum.splits)

lemma clean_up_result:
  assumes "clean_up a w = (Inr (), w')"
  shows "(\<exists>t. active w' = (active w)\<lparr>restored := True, finished_at := t\<rparr>) \<and>
    dict_get (record_files w') (run_ident (active w')) = Some (active w')"
proof -
  obtain w1 where w1: "whenA (\<not> restored (active w)) (restore_active a) w = (Inr (), w1)"
    and rest: "bindA (call (time_stamp a)) (\<lambda>t. bindA (update_active (\<lambda>r. r\<lparr>finished_at := t\<rparr>)) (\<lambda>_. save_active)) w1
      = (Inr (), w')"
    using assms by (auto simp: clean_up_def bindA_apply split: prod.splits sum.splits)
  have "active w1 = (active w)\<lparr>restored := True\<rparr>"
    using w1 by (auto simp: whenA_def split: if_splits dest: restore_active_result)
  then show ?thesis
    using rest call_keeps(3) [of "time_stamp a" w1]
    by (auto simp: bindA_apply update_active_def save_active_def save_record_def dict_get_put split: prod.splits sum.splits)
qed

text \<open>What the \<open>try\<close> block and its handlers leave as the status.\<close>

lemma bindA_InrE:
  assumes "bindA m f w = (Inr b, w')"
  obtains a w1 where "m w = (Inr a, w1)" "f a w1 = (Inr b, w')"
  using assms by (rule bindA_cases) auto

lemma passed_status: "passed (r\<lparr>run_status := st\<rparr>) = passed r"
  by (simp add: passed_def)

lemma note_failure_status: "note_failure e w = (Inr (), w') \<Longrightarrow> run_status (active w') = ErrorStatus"
  by (cases "is_exception e") (auto simp: note_failure_def bindA_apply update_active_def)

lemma conduct_status:
  assumes "conduct a scheds sc v rid w = (Inr (), w')"
  shows "run_status (active w') \<in> {Passed, Failed} \<and> (run_status (active w') = Passed \<longrightarrow> passed (active w'))"
  using assms unfolding conduct_def
  by (elim bindA_InrE) (auto simp: update_active_def passed_status split: if_splits)

lemma try_scenario_status:
  assumes "try_scenario a scheds sc v rid w = (Inr (), w')"
  shows "run_status (active w') \<in> {Passed, Failed, ErrorStatus} \<and> (run_status (active w') = Passed \<longrightarrow> passed (active w'))"
  using assms unfolding try_scenario_def
  by (rule bindA_InrE) (auto simp: update_active_def unready_def dest: conduct_status split: if_splits)

lemma handled_status:
  assumes "catchA (try_scenario a scheds sc v rid) note_failure w = (Inr (), w')"
  shows "run_status (active w') \<in> {Passed, Failed, ErrorStatus} \<and> (run_status (active w') = Passed \<longrightarrow> passed (active w'))"
  using assms
proof (cases rule: catchA_cases)
  case (Normal u)
  from try_scenario_status [of a scheds sc v rid w w'] Normal(1) show ?thesis by simp
next
  case (Handler e w1)
  from note_failure_status [OF Handler(2)] show ?thesis by simp
qed


subsection \<open>A run whose changes are not undone is not forgotten\<close>

definition stays :: "'k world \<Rightarrow> 'k world \<Rightarrow> bool" where
  "stays w w' \<longleftrightarrow> record_files w' = record_files w \<and> run_ident (active w') = run_ident (active w)"

interpretation stay: step_rel "stays :: 'k world \<Rightarrow> 'k world \<Rightarrow> bool"
  by unfold_locales (simp_all add: stays_def)

lemma stays_call: "steps stays (call m)"
  by (simp add: steps_def stays_def call_keeps)

lemma stays_effect: "steps stays (effect ev m)"
  by (simp add: steps_def stays_def effect_keeps)

lemma stays_journal: "steps stays (journal_record rid e)"
  by (simp add: steps_def stays_def journal_record_def)

lemma stays_update: "(\<And>r. run_ident (f r) = run_ident r) \<Longrightarrow> steps stays (update_active f)"
  by (simp add: steps_def stays_def update_active_def)

lemma stays_looks: "steps unchanged m \<Longrightarrow> steps stays m"
  by (simp add: steps_def stays_def unchanged_def)

lemmas stays_basics = stays_call stays_effect stays_journal stays_update
  stays_looks [OF looks_ready_pods] stays_looks [OF looks_running_pods] stays_looks [OF looks_wait_rollout]
  stays_looks [OF looks_payments] stays_looks [OF looks_read_workload]

lemma stays_restore_steps: "steps stays (restore_steps a rid)"
  by (auto simp: restore_steps_def restore_one_def restore_replicas_def set_replicas_def clear_faults_def
    intro!: stay.steps_intros stays_basics split: restore_kind.splits prod.splits)

lemma stays_restore_active: "steps stays (restore_active a)"
  by (auto simp: restore_active_def intro!: stay.steps_intros stays_restore_steps stays_update)

lemma stays_inject: "steps stays (inject_faults a sc rid)"
  by (auto simp: inject_faults_def apply_fault_def set_fault_def Let_def intro!: stay.steps_intros stays_basics)

lemma stays_read_back: "steps stays (read_back_orders a)"
  by (auto simp: read_back_orders_def intro!: stay.steps_intros stays_basics)

lemma add_check_ident [simp]: "run_ident (add_check nm ok lay r) = run_ident r"
  by (simp add: add_check_def)

lemma foldl_ident: "(\<And>r x. run_ident (f r x) = run_ident r) \<Longrightarrow> run_ident (foldl f r xs) = run_ident r"
  by (induction xs arbitrary: r) simp_all

lemma stays_application_checks: "steps stays (application_checks a sc)"
  by (auto simp: application_checks_def authorization_counts_def Let_def foldl_ident
    intro!: stay.steps_intros stays_basics)

lemma stays_replace:
  assumes looks: "\<And>r. steps unchanged (m r)"
    and ident: "\<And>r w r' w'. m r w = (Inr r', w') \<Longrightarrow> run_ident r' = run_ident r"
  shows "steps stays (bindA (getW active) (\<lambda>r. bindA (m r) (\<lambda>r'. update_active (\<lambda>_. r'))))"
proof (rule stepsI)
  fix w x w' assume "bindA (getW active) (\<lambda>r. bindA (m r) (\<lambda>r'. update_active (\<lambda>_. r'))) w = (x, w')"
  then have "bindA (m (active w)) (\<lambda>r'. update_active (\<lambda>_. r')) w = (x, w')" by (simp add: bindA_apply)
  then show "stays w w'"
  proof (cases rule: bindA_cases)
    case (Raise e)
    show ?thesis using stays_looks [OF looks] Raise(1) by (rule stepsD)
  next
    case (Cont r' v)
    have "stays w v" using stays_looks [OF looks] Cont(1) by (rule stepsD)
    moreover have "w' = v\<lparr>active := r'\<rparr>" using Cont(2) by (simp add: update_active_def)
    ultimately show ?thesis using ident [OF Cont(1)] by (simp add: stays_def)
  qed
qed

lemma snapshot_ident: "snapshot_metrics a sc r w = (Inr r', w') \<Longrightarrow> run_ident r' = run_ident r"
  by (auto simp: snapshot_metrics_def split: option.splits elim!: bindA_InrE)

lemma stays_snapshot: "steps stays (snapshot a sc)"
  unfolding snapshot_def by (rule stays_replace [OF looks_snapshot snapshot_ident])

lemma report_ident: "run_ident (report_context c r) = run_ident r"
  by (simp add: report_context_def Let_def foldl_ident case_prod_beta)

lemma verify_ident: "verify a sc r w = (Inr r', w') \<Longrightarrow> run_ident r' = run_ident r"
  by (auto simp: verify_def Let_def report_ident split: option.splits elim!: bindA_InrE)

lemma stays_telemetry: "steps stays (telemetry_checks a sc)"
  unfolding telemetry_checks_def by (rule stays_replace [OF looks_verify verify_ident])

lemma stays_action: "safe stays (kubernetes_action a rid started act) w"
  unfolding kubernetes_action_def Let_def sleepT_def note_event_def in_thread_def delete_pod_task_def
    ready_pods_task_def rollout_restart_task_def scale_task_def current_replicas_def selector_def
    ready_pods_in_def running_pods_in_def set_replicas_def restore_replicas_def
  by (auto intro!: stay.safe_bindT stay.safe_steps stay.steps_intros stays_basics
    split: k8s_action_kind.splits option.splits prod.splits sum.splits list.splits)

lemma stays_traffic: "steps stays (traffic a scheds sc rid)"
proof -
  have "steps stays (send_traffic a sc rid)"
    by (auto simp: send_traffic_def intro!: stay.steps_intros stays_basics split: prod.splits)
  moreover have "stay.all_safe (action_tasks a sc rid started) w" for started w
    by (auto simp: stay.all_safe_def action_tasks_def stays_action)
  ultimately have "stays w (snd (beside scheds (action_tasks a sc rid started) (send_traffic a sc rid) w))" for started w
    by (intro stay.safe_beside)
  then have "steps stays (beside scheds (action_tasks a sc rid started) (send_traffic a sc rid))" for started
    unfolding steps_def by blast
  then show ?thesis
    by (auto simp: traffic_def intro!: stay.steps_intros stays_basics split: prod.splits)
qed

lemma stays_try: "steps stays (try_scenario a scheds sc v rid)"
  by (auto simp: try_scenario_def conduct_def reset_circuit_breakers_def unready_def
    intro!: stay.steps_intros stays_basics stays_looks [OF looks_preflight] stays_snapshot stays_inject stays_traffic
      stays_restore_active stays_read_back stays_application_checks stays_telemetry)

lemma stays_handled: "steps stays (catchA (try_scenario a scheds sc v rid) note_failure)"
  by (auto simp: note_failure_def intro!: stay.steps_intros stays_try stays_update)

text \<open>The clean-up either saves the record as restored, or raises with the record files as they were.\<close>

lemma clean_up_files:
  assumes "clean_up a w = (x, w')"
  shows "(record_files w' = record_files w \<and> (\<exists>e. x = Inl e)) \<or>
    (restored (active w') \<and> run_ident (active w') = run_ident (active w) \<and>
     dict_get (record_files w') (run_ident (active w)) = Some (active w'))"
proof (cases x)
  case (Inr u)
  with assms clean_up_result [of a w w'] show ?thesis by auto
next
  case (Inl e)
  have "bindA (whenA (\<not> restored (active w)) (restore_active a)) (\<lambda>_.
     bindA (call (time_stamp a)) (\<lambda>t. bindA (update_active (\<lambda>r. r\<lparr>finished_at := t\<rparr>)) (\<lambda>_. save_active))) w = (Inl e, w')"
    using assms Inl by (simp add: clean_up_def bindA_apply)
  then show ?thesis
  proof (cases rule: bindA_cases)
    case (Raise e')
    have "stays w w'" using stay.steps_whenA [OF stays_restore_active] Raise(1) by (rule stepsD)
    with Inl show ?thesis by (simp add: stays_def)
  next
    case (Cont u w1)
    have "stays w w1" using stay.steps_whenA [OF stays_restore_active] Cont(1) by (rule stepsD)
    moreover from Cont(2) have "record_files w' = record_files w1"
    proof (cases rule: bindA_cases)
      case (Raise e')
      then show ?thesis using call_keeps(2) [of "time_stamp a" w1] by simp
    qed (simp add: bindA_apply update_active_def save_active_def save_record_def)
    ultimately show ?thesis using Inl by (simp add: stays_def)
  qed
qed


subsection \<open>Concrete runs\<close>

text \<open>
  A run against a cluster on which nothing is deployed: the pre-flight raises on the missing stateful set, the
  run records the error, finds nothing to undo, saves and returns. And one that finds the lock held.
\<close>

definition busy_api :: "real api" where
  "busy_api = quiet_api\<lparr>read_lease := ret \<lparr>lease_holder = Some ''host/2'', lease_purpose = Some ''other'',
     acquire_time = Some 0, renew_time = Some 0, lease_seconds = Some 90, resource_version = Some 1\<rparr>\<rparr>"

lemma call_ret: "call (ret x) w = (Inr x, w)"
  by (simp add: call_def)

lemma call_raise: "call (raise e) w = (Inl e, w)"
  by (simp add: call_def)

lemma call_clock_quiet: "call (getW id) w = (Inr (ext w), w)"
  by (simp add: call_def)

lemmas quiet_calls = call_ret call_raise call_clock_quiet

lemma quiet_fields:
  "read_workload quiet_api knd nm ns = raise (ApiException 404)" "time_stamp quiet_api = ret ''20250101T000000Z''"
  "random_bytes quiet_api = ret [0, 0]" "read_lease quiet_api = raise (ApiException 404)"
  "create_lease quiet_api l = ret ()" "wall_clock quiet_api = getW id" "own_identity quiet_api = ''host/1''"
  by (simp_all add: quiet_api_def)

lemma quiet_deployment: "deployment_problems quiet_api ns nm w = (Inr [DeploymentError ns nm (ApiException 404)], w)"
  by (simp add: deployment_problems_def excepting_def catchA_def deployment_available_def quiet_fields bindA_apply
      quiet_calls is_exception_def)

lemma quiet_deployments:
  "mapA (deployment_problems quiet_api ns) nms w = (Inr (map (\<lambda>nm. [DeploymentError ns nm (ApiException 404)]) nms), w)"
  by (induction nms) (simp_all add: bindA_apply quiet_deployment)

lemma quiet_namespaces: "\<exists>ps. in_namespaces (deployment_problems quiet_api) d w = (Inr ps, w)"
proof -
  have "\<exists>pss. mapA (\<lambda>(ns, nms). bindA (mapA (deployment_problems quiet_api ns) nms) (\<lambda>pss. ret (concat pss))) d w =
      (Inr pss, w)"
    by (induction d) (auto simp: bindA_apply quiet_deployments split: prod.splits)
  then show ?thesis by (auto simp: in_namespaces_def bindA_apply)
qed

lemma quiet_stateful: "in_namespaces (statefulset_problems quiet_api) REQUIRED_STATEFULSETS w = (Inl (ApiException 404), w)"
  by (simp add: in_namespaces_def REQUIRED_STATEFULSETS_def bindA_apply statefulset_problems_def statefulset_ready_def
      quiet_fields quiet_calls)

lemma quiet_preflight: "preflight quiet_api w = (Inl (ApiException 404), w)"
  using quiet_namespaces [of REQUIRED_DEPLOYMENTS w] by (auto simp: preflight_def bindA_apply quiet_stateful)

lemma quiet_restore:
  "journal_entries (run_ident (active w)) w = [] \<Longrightarrow>
   restore_active a w = (Inr (), w\<lparr>active := (active w)\<lparr>restored := True\<rparr>\<rparr>)"
  by (simp add: restore_active_def restore_steps_def bindA_apply restore_plan_def plan_steps_def update_active_def)

lemma quiet_attempt:
  assumes "journal_entries (run_ident (active w)) w = []" and "\<not> restored (active w)"
  shows "fst (attempt quiet_api scheds sc v rid w) = Inr ()"
  using assms
  by (simp add: attempt_def finallyA_def catchA_def try_scenario_def bindA_apply quiet_preflight note_failure_def
      is_exception_def update_active_def clean_up_def whenA_def quiet_restore journal_entries_def save_active_def
      save_record_def quiet_fields quiet_calls)


theorem refused_run_leaves_nothing_witness:
  "fst (run busy_api ([], []) sample_scenario True (empty_world 0)) = Inl (LockHeldError ''other'' ''host/2'')"
proof -
  obtain x w1 where b: "begin_record busy_api sample_scenario (empty_world 0) = (x, w1)"
    by (cases "begin_record busy_api sample_scenario (empty_world 0)")
  obtain rid where x: "x = Inr rid" and time: "ext w1 = 0"
    using b by (auto simp: begin_record_def busy_api_def quiet_api_def bindA_apply quiet_calls update_active_def Let_def
        empty_world_def)
  have "acquire busy_api (purpose_of sample_scenario rid) w1 = (Inl (LockHeldError ''other'' ''host/2''), w1)"
    by (simp add: acquire_def read_lock_def take_over_def bindA_apply catchA_def busy_api_def quiet_api_def quiet_calls
        or_empty_def is_expired_def time)
  from refused_run_leaves_nothing [OF b [unfolded x] this] show ?thesis by simp
qed



end
