(* ===== verification/Json.thy ===== *)
theory Json
  imports Values
begin

section \<open>Reading JSON texts\<close>

text \<open>
  \<open>json.loads\<close> on ASCII texts: white space, literals, numbers, strings with their escapes, arrays and
  objects, where a repeated key keeps its first place and its last value. A text that is not JSON raises
  \<open>ValueError\<close>. A parser takes a text and returns a value with the rest of the text. Characters are
  bytes, so an escape beyond 255 is refused, and so are \<open>NaN\<close> and \<open>Infinity\<close>, which have no
  value here. \<open>json_roundtrip\<close> shows that reading what \<open>json.dumps\<close> wrote gives the value back.
\<close>

definition json_space :: "char \<Rightarrow> bool" where
  "json_space c \<longleftrightarrow> c \<in> {CHR '' '', CHR 0x09, CHR 0x0A, CHR 0x0D}"

definition skip_space :: "string \<Rightarrow> string" where
  "skip_space s = dropWhile json_space s"

definition hex_value :: "char \<Rightarrow> nat option" where
  "hex_value c =
     (let n = of_char c :: nat in
      if 48 \<le> n \<and> n \<le> 57 then Some (n - 48)
      else if 97 \<le> n \<and> n \<le> 102 then Some (n - 87)
      else if 65 \<le> n \<and> n \<le> 70 then Some (n - 55)
      else None)"

text \<open>The character an escape stands for, without the hexadecimal form.\<close>

definition escaped :: "char \<Rightarrow> char option" where
  "escaped e = map_of
     [(CHR 0x22, CHR 0x22), (CHR 0x5C, CHR 0x5C), (CHR ''/'', CHR ''/''), (CHR ''b'', CHR 0x08),
      (CHR ''f'', CHR 0x0C), (CHR ''n'', CHR 0x0A), (CHR ''r'', CHR 0x0D), (CHR ''t'', CHR 0x09)] e"

definition unicode :: "char \<Rightarrow> char \<Rightarrow> char \<Rightarrow> char \<Rightarrow> char option" where
  "unicode a b c d = (case (hex_value a, hex_value b, hex_value c, hex_value d) of
     (Some 0, Some 0, Some x, Some y) \<Rightarrow> Some (char_of (16 * x + y))
   | _ \<Rightarrow> None)"

text \<open>What follows an opening quote, up to the closing one.\<close>

fun string_body :: "string \<Rightarrow> (string \<times> string) option" where
  "string_body [] = None"
| "string_body (c # cs) =
     (if c = CHR 0x22 then Some ([], cs)
      else if c = CHR 0x5C
      then (case cs of
          [] \<Rightarrow> None
        | e # es \<Rightarrow>
            (if e = CHR ''u''
             then (case es of
                 x # y # z # u # rest \<Rightarrow>
                   (case unicode x y z u of
                      None \<Rightarrow> None
                    | Some d \<Rightarrow> map_option (map_prod (Cons d) id) (string_body rest))
               | _ \<Rightarrow> None)
             else (case escaped e of
                 None \<Rightarrow> None
               | Some d \<Rightarrow> map_option (map_prod (Cons d) id) (string_body es))))
      else if (of_char c :: nat) < 32 then None
      else map_option (map_prod (Cons c) id) (string_body cs))"

definition digits_of :: "string \<Rightarrow> string \<times> string" where
  "digits_of s = (takeWhile is_digit s, dropWhile is_digit s)"

text \<open>A number: sign, integer part without leading zeros, fraction, exponent.\<close>

definition fraction :: "string \<Rightarrow> string \<times> string" where
  "fraction s = (case s of
     c # cs \<Rightarrow> if c = CHR ''.'' \<and> fst (digits_of cs) \<noteq> []
               then (c # fst (digits_of cs), snd (digits_of cs)) else ([], s)
   | [] \<Rightarrow> ([], s))"

definition exponent :: "string \<Rightarrow> string \<times> string" where
  "exponent s = (case s of
     c # cs \<Rightarrow>
       if c = CHR ''e'' \<or> c = CHR ''E''
       then (let sign = (if cs \<noteq> [] \<and> hd cs \<in> {CHR ''+'', CHR ''-''} then [hd cs] else []);
                 ds = digits_of (drop (length sign) cs)
             in if fst ds \<noteq> [] then (c # sign @ fst ds, snd ds) else ([], s))
       else ([], s)
   | [] \<Rightarrow> ([], s))"

definition number_text :: "string \<Rightarrow> (string \<times> string \<times> string \<times> string) option" where
  "number_text s =
     (let sign = (if s \<noteq> [] \<and> hd s = CHR ''-'' then ''-'' else []);
          body = drop (length sign) s;
          whole = (if body \<noteq> [] \<and> hd body = CHR ''0'' then ''0'' else fst (digits_of body));
          fr = fraction (drop (length whole) body);
          ex = exponent (snd fr)
      in if whole = [] then None else Some (sign @ whole, fst fr, fst ex, snd ex))"

definition number :: "string \<Rightarrow> (pyval \<times> string) option" where
  "number s = (case number_text s of
     None \<Rightarrow> None
   | Some (whole, fr, ex, rest) \<Rightarrow>
       if fr = [] \<and> ex = []
       then (case parse_int whole of Inl _ \<Rightarrow> None | Inr i \<Rightarrow> Some (PInt i, rest))
       else (case parse_float (whole @ fr @ ex) of Inl _ \<Rightarrow> None | Inr r \<Rightarrow> Some (PFloat r, rest)))"

definition literal :: "string \<Rightarrow> (pyval \<times> string) option" where
  "literal s =
     (if prefix ''null'' s then Some (PNone, drop 4 s)
      else if prefix ''true'' s then Some (PBool True, drop 4 s)
      else if prefix ''false'' s then Some (PBool False, drop 5 s)
      else number s)"

text \<open>
  \<open>fuel\<close> bounds the nesting; the length of the text is enough, since every level consumes a character.
  \<open>items\<close> reads after an element of an array, \<open>members\<close> after a member of an object.
\<close>

fun json_value :: "nat \<Rightarrow> string \<Rightarrow> (pyval \<times> string) option"
  and json_items :: "nat \<Rightarrow> string \<Rightarrow> (pyval list \<times> string) option"
  and json_members :: "nat \<Rightarrow> string \<Rightarrow> ((string \<times> pyval) list \<times> string) option"
where
  "json_value 0 s = None"
| "json_value (Suc n) s =
     (case s of
        [] \<Rightarrow> None
      | c # cs \<Rightarrow>
          if c = CHR 0x22 then map_option (map_prod PStr id) (string_body cs)
          else if c = CHR ''['' then
            (case skip_space cs of
               d # ds \<Rightarrow> if d = CHR '']'' then Some (PList [], ds)
                         else map_option (map_prod PList id) (json_items n (skip_space cs))
             | [] \<Rightarrow> None)
          else if c = CHR ''{'' then
            (case skip_space cs of
               d # ds \<Rightarrow> if d = CHR ''}'' then Some (PDict [], ds)
                         else map_option (map_prod (\<lambda>kvs. PDict (dict_of kvs)) id) (json_members n (skip_space cs))
             | [] \<Rightarrow> None)
          else literal s)"
| "json_items 0 s = None"
| "json_items (Suc n) s =
     (case json_value n s of
        None \<Rightarrow> None
      | Some (v, rest) \<Rightarrow>
          (case skip_space rest of
             d # ds \<Rightarrow>
               if d = CHR '']'' then Some ([v], ds)
               else if d = CHR '','' then map_option (map_prod (Cons v) id) (json_items n (skip_space ds))
               else None
           | [] \<Rightarrow> None))"
| "json_members 0 s = None"
| "json_members (Suc n) s =
     (case s of
        c # cs \<Rightarrow>
          if c \<noteq> CHR 0x22 then None
          else (case string_body cs of
              None \<Rightarrow> None
            | Some (k, rest) \<Rightarrow>
                (case skip_space rest of
                   d # ds \<Rightarrow>
                     if d \<noteq> CHR '':'' then None
                     else (case json_value n (skip_space ds) of
                         None \<Rightarrow> None
                       | Some (v, more) \<Rightarrow>
                           (case skip_space more of
                              e # es \<Rightarrow>
                                if e = CHR ''}'' then Some ([(k, v)], es)
                                else if e = CHR '','' then map_option (map_prod (Cons (k, v)) id) (json_members n (skip_space es))
                                else None
                            | [] \<Rightarrow> None))
                 | [] \<Rightarrow> None))
      | [] \<Rightarrow> None)"

definition json_loads :: "string \<Rightarrow> pyval result" where
  "json_loads s =
     (case json_value (2 * length s + 1) (skip_space s) of
        Some (v, rest) \<Rightarrow> if skip_space rest = [] then Inr v else Inl ValueError
      | None \<Rightarrow> Inl ValueError)"

subsection \<open>Reading back what was written\<close>

text \<open>
  The values that have a text: no floats, whose digits are unspecified, and dictionaries as Python builds
  them, with every key once.
\<close>

fun storable :: "pyval \<Rightarrow> bool" where
  "storable (PFloat r) = False"
| "storable (PList vs) = list_all storable vs"
| "storable (PDict d) = (distinct (map fst d) \<and> list_all (\<lambda>(_, v). storable v) d)"
| "storable _ = True"

lemma hex_value_digit: "n < 16 \<Longrightarrow> hex_value (hex_digit n) = Some n"
  by (auto simp: hex_value_def hex_digit_def Let_def)

lemma unicode_hex: "n < 256 \<Longrightarrow> unicode CHR ''0'' CHR ''0'' (hex_digit (n div 16)) (hex_digit (n mod 16)) = Some (char_of n)"
proof -
  assume "n < 256"
  then have "n div 16 < 16" by simp
  then show ?thesis
    by (simp add: unicode_def hex_value_digit mult.commute) (simp add: hex_value_def)
qed

lemma of_char_less: "(of_char c :: nat) < 256"
  by simp

lemma string_body_char: "string_body (json_char c @ s) = map_option (map_prod (Cons c) id) (string_body s)"
proof (cases "json_plain c")
  case True
  then show ?thesis by (simp add: json_char_plain) (auto simp: json_plain_def)
next
  case False
  let ?n = "of_char c :: nat"
  have c: "c = char_of ?n" by simp
  have short: "?thesis" if "?n \<in> {10, 13, 9, 12, 8}"
  proof -
    have "c \<in> char_of ` {10, 13, 9, 12, 8 :: nat}" using that c by (metis imageI)
    moreover have "char_of (10 :: nat) = CHR 0x0A" "char_of (13 :: nat) = CHR 0x0D" "char_of (9 :: nat) = CHR 0x09"
      "char_of (12 :: nat) = CHR 0x0C" "char_of (8 :: nat) = CHR 0x08"
      by (simp_all add: char_of_eq_iff)
    ultimately show ?thesis by (auto simp: json_char_def escaped_def json_plain_def)
  qed
  have quoted: "?thesis" if "c = CHR 0x22 \<or> c = CHR 0x5C"
    using that by (auto simp: json_char_def escaped_def json_plain_def)
  have long: "?thesis" if "?n \<notin> {10, 13, 9, 12, 8}" "c \<noteq> CHR 0x22" "c \<noteq> CHR 0x5C"
    using that False unicode_hex [OF of_char_less [of c]] by (simp add: json_char_def Let_def)
  show ?thesis using short quoted long by blast
qed

lemma string_body_text: "string_body (concat (map json_char t) @ CHR 0x22 # rest) = Some (t, rest)"
  by (induction t) (simp_all add: string_body_char)

lemma json_text_append: "json_text t @ rest = CHR 0x22 # concat (map json_char t) @ CHR 0x22 # rest"
  by (simp add: json_text_def)

text \<open>A number ends where the next character cannot belong to it.\<close>

definition ends_number :: "string \<Rightarrow> bool" where
  "ends_number s \<longleftrightarrow> s = [] \<or> \<not> is_digit (hd s) \<and> hd s \<notin> {CHR ''.'', CHR ''e'', CHR ''E''}"

lemma show_nat_leading: "0 < n \<Longrightarrow> hd (show_nat n) \<noteq> CHR ''0''"
proof (induction n rule: less_induct)
  case (less n)
  show ?case
  proof (cases "n < 10")
    case True
    then have one: "show_nat n = [char_of (48 + n)]" by (subst show_nat.simps) simp
    from True less.prems have "n \<in> {1, 2, 3, 4, 5, 6, 7, 8, 9}" by auto
    then show ?thesis unfolding one by (elim insertE emptyE) (simp_all add: char_of_def)
  next
    case False
    then have "0 < n div 10" "n div 10 < n" by simp_all
    with less.IH [of "n div 10"] False show ?thesis by (simp add: show_nat.simps [of n] show_nat_nonempty)
  qed
qed

lemma digits_of_show_nat:
  "ends_number rest \<Longrightarrow> digits_of (show_nat n @ rest) = (show_nat n, rest)"
proof -
  assume "ends_number rest"
  moreover have "\<And>c. c \<in> set (show_nat n) \<Longrightarrow> is_digit c" by (rule show_nat_is_digit)
  ultimately show ?thesis
    by (cases rest) (auto simp: digits_of_def ends_number_def)
qed

lemma show_nat_0: "show_nat 0 = ''0''"
  by (simp add: show_nat.simps char_of_eq_iff)

lemma whole_show_nat:
  assumes "ends_number rest"
  shows "(if hd (show_nat n @ rest) = CHR ''0'' then ''0'' else fst (digits_of (show_nat n @ rest))) = show_nat n"
proof (cases "n = 0")
  case True
  then show ?thesis by (simp add: show_nat_0)
next
  case False
  then show ?thesis using show_nat_leading [of n] digits_of_show_nat [OF assms] by simp
qed

lemma no_fraction: "ends_number rest \<Longrightarrow> fraction rest = ([], rest) \<and> exponent rest = ([], rest)"
  by (cases rest) (auto simp: fraction_def exponent_def ends_number_def)

lemma number_text_show_nat:
  assumes "ends_number rest" and "sign \<in> {[], ''-''}"
  shows "number_text (sign @ show_nat n @ rest) = Some (sign @ show_nat n, [], [], rest)"
proof -
  have "hd (show_nat n) \<noteq> CHR ''-''"
    using show_nat_is_digit [of "hd (show_nat n)" n] show_nat_nonempty [of n] by (auto simp: is_digit_def less_eq_char_def)
  with assms(2) have sign: "(if sign @ show_nat n @ rest \<noteq> [] \<and> hd (sign @ show_nat n @ rest) = CHR ''-'' then ''-'' else []) = sign"
    by (auto simp: show_nat_nonempty)
  have whole: "(if show_nat n @ rest \<noteq> [] \<and> hd (show_nat n @ rest) = CHR ''0'' then ''0''
      else fst (digits_of (show_nat n @ rest))) = show_nat n"
    using whole_show_nat [OF assms(1)] by simp
  have body: "drop (length sign) (sign @ show_nat n @ rest) = show_nat n @ rest" by simp
  show ?thesis
    unfolding number_text_def Let_def sign body whole using no_fraction [OF assms(1)] by simp
qed

lemma number_show_int:
  assumes "ends_number rest"
  shows "number (show_int i @ rest) = Some (PInt i, rest)"
proof -
  have "show_int i = (if i < 0 then ''-'' else []) @ show_nat (nat \<bar>i\<bar>)" by (simp add: show_int_def)
  then obtain sign n where i: "show_int i = sign @ show_nat n" "sign \<in> {[], ''-''}" by force
  then show ?thesis
    using number_text_show_nat [OF assms i(2)] parse_int_show_int [of i] by (simp add: number_def)
qed

lemma literal_show_int: "ends_number rest \<Longrightarrow> literal (show_int i @ rest) = Some (PInt i, rest)"
proof -
  assume ends: "ends_number rest"
  have "show_int i \<noteq> []" "hd (show_int i) \<noteq> CHR ''n''" "hd (show_int i) \<noteq> CHR ''t''" "hd (show_int i) \<noteq> CHR ''f''"
    using show_nat_is_digit [of "hd (show_nat (nat i))" "nat i"] show_nat_nonempty [of "nat i"]
    by (auto simp: show_int_def is_digit_def less_eq_char_def)
  then show ?thesis using number_show_int [OF ends, of i] by (cases "show_int i") (auto simp: literal_def)
qed

text \<open>What can follow a value: it does not continue a number.\<close>

lemma show_int_start:
  obtains c cs where "show_int i = c # cs" "c = CHR ''-'' \<or> is_digit c"
proof -
  obtain d ds where "show_nat (nat \<bar>i\<bar>) = d # ds" by (meson neq_Nil_conv show_nat_nonempty)
  moreover from this have "is_digit d" using show_nat_is_digit [of d "nat \<bar>i\<bar>"] by simp
  ultimately show thesis using that by (cases "i < 0") (simp_all add: show_int_def)
qed

lemma digit_start:
  "c = CHR ''-'' \<or> is_digit c \<Longrightarrow>
   \<not> json_space c \<and> c \<notin> {CHR 0x22, CHR ''['', CHR ''{'', CHR '']'', CHR ''}'', CHR '','', CHR '':''}"
  by (auto simp: json_space_def is_digit_def less_eq_char_def)

lemma json_dumps_start: "storable v \<Longrightarrow> \<exists>c cs. json_dumps v = c # cs \<and> \<not> json_space c \<and> c \<noteq> CHR '']'' \<and> c \<noteq> CHR ''}''"
proof (cases v)
  case (PInt i)
  obtain c cs where "show_int i = c # cs" "c = CHR ''-'' \<or> is_digit c" by (rule show_int_start)
  then show ?thesis using PInt digit_start [of c] by simp
qed (auto simp: json_space_def json_text_def)

lemma skip_dumps: "storable v \<Longrightarrow> skip_space (json_dumps v @ rest) = json_dumps v @ rest"
  using json_dumps_start [of v] by (auto simp: skip_space_def)

lemma skip_joined:
  "vs \<noteq> [] \<Longrightarrow> list_all storable vs \<Longrightarrow>
   skip_space (join '', '' (map json_dumps vs) @ rest) = join '', '' (map json_dumps vs) @ rest"
  by (cases vs rule: remdups_adj.cases) (auto simp: skip_dumps)

lemma json_value_scalar:
  assumes "storable v" and "ends_number rest" and "\<And>vs. v \<noteq> PList vs" and "\<And>d. v \<noteq> PDict d"
  shows "json_value (Suc n) (json_dumps v @ rest) = Some (v, rest)"
proof (cases v)
  case (PInt i)
  obtain c cs where i: "show_int i = c # cs" "c = CHR ''-'' \<or> is_digit c" by (rule show_int_start)
  then have "c \<noteq> CHR 0x22" "c \<noteq> CHR ''[''" "c \<noteq> CHR ''{''" using digit_start [of c] by blast+
  then show ?thesis using PInt literal_show_int [OF assms(2), of i] by (simp add: i)
qed (use assms in \<open>auto simp: literal_def json_text_append string_body_text\<close>)

lemma length_dumps: "storable v \<Longrightarrow> 0 < length (json_dumps v)"
  using json_dumps_start [of v] by auto

lemma join_dumps_Cons:
  "join '', '' (map f (x # y # zs)) = f x @ '', '' @ join '', '' (map f (y # zs))"
  by simp

lemma joined_start:
  "vs \<noteq> [] \<Longrightarrow> list_all storable vs \<Longrightarrow>
   \<exists>c cs. join '', '' (map json_dumps vs) = c # cs \<and> c \<noteq> CHR '']''"
  using json_dumps_start [of "hd vs"] by (cases vs rule: remdups_adj.cases) auto

lemma members_start:
  "d \<noteq> [] \<Longrightarrow> \<exists>cs. join '', '' (map (\<lambda>(k, v). json_text k @ '': '' @ json_dumps v) d) = CHR 0x22 # cs"
  by (cases d rule: remdups_adj.cases) (auto simp: json_text_def)

text \<open>The three parsers give back what the three kinds of text were written from.\<close>

lemma json_parts:
  "(storable v \<longrightarrow> length (json_dumps v) \<le> n \<longrightarrow> ends_number rest \<longrightarrow> json_value n (json_dumps v @ rest) = Some (v, rest)) \<and>
   (vs \<noteq> [] \<longrightarrow> list_all storable vs \<longrightarrow> length (join '', '' (map json_dumps vs)) < n \<longrightarrow>
      json_items n (join '', '' (map json_dumps vs) @ CHR '']'' # rest) = Some (vs, rest)) \<and>
   (d \<noteq> [] \<longrightarrow> list_all (\<lambda>(_, v). storable v) d \<longrightarrow>
      length (join '', '' (map (\<lambda>(k, v). json_text k @ '': '' @ json_dumps v) d)) < n \<longrightarrow>
      json_members n (join '', '' (map (\<lambda>(k, v). json_text k @ '': '' @ json_dumps v) d) @ CHR ''}'' # rest) = Some (d, rest))"
proof (induction n arbitrary: v vs d rest)
  case 0
  show ?case using json_dumps_start [of v] by auto
next
  case (Suc n)
  note IH = Suc.IH
  let ?member = "\<lambda>(k, v). json_text k @ '': '' @ json_dumps v"
  have valueI: "json_value n (json_dumps v @ rest) = Some (v, rest)"
    if "storable v" "length (json_dumps v) \<le> n" "ends_number rest" for v rest using IH that by blast
  have itemsI: "json_items n (join '', '' (map json_dumps vs) @ CHR '']'' # rest) = Some (vs, rest)"
    if "vs \<noteq> []" "list_all storable vs" "length (join '', '' (map json_dumps vs)) < n" for vs rest using IH that by blast
  have membersI: "json_members n (join '', '' (map ?member d) @ CHR ''}'' # rest) = Some (d, rest)"
    if "d \<noteq> []" "list_all (\<lambda>(_, v). storable v) d" "length (join '', '' (map ?member d)) < n" for d rest using IH that by blast
  show ?case
  proof (intro conjI impI)
    assume v: "storable v" "length (json_dumps v) \<le> Suc n" "ends_number rest"
    show "json_value (Suc n) (json_dumps v @ rest) = Some (v, rest)"
    proof (cases "(\<exists>vs. v = PList vs) \<or> (\<exists>d. v = PDict d)")
      case False
      then show ?thesis using json_value_scalar [OF v(1,3)] by blast
    next
      case True
      then show ?thesis
      proof (elim disjE exE)
        fix vs assume l: "v = PList vs"
        show ?thesis
        proof (cases "vs = []")
          case True
          then show ?thesis by (simp add: l skip_space_def json_space_def)
        next
          case False
          let ?j = "join '', '' (map json_dumps vs)"
          have ok: "list_all storable vs" "length ?j < n" using v l by simp_all
          obtain c cs where j: "?j = c # cs" "c \<noteq> CHR '']''"
            using joined_start [OF False ok(1)] by blast
          have "skip_space (?j @ CHR '']'' # rest) = ?j @ CHR '']'' # rest"
            using skip_joined [OF False ok(1)] .
          then show ?thesis using itemsI [OF False ok, of rest] j(2) by (simp add: l j(1))
        qed
      next
        fix d assume l: "v = PDict d"
        show ?thesis
        proof (cases "d = []")
          case True
          then show ?thesis by (simp add: l skip_space_def json_space_def)
        next
          case False
          let ?j = "join '', '' (map ?member d)"
          have ok: "list_all (\<lambda>(_, v). storable v) d" "length ?j < n" and keys: "distinct (map fst d)"
            using v l by simp_all
          obtain cs where j: "?j = CHR 0x22 # cs" using members_start [OF False] by blast
          then have "skip_space (?j @ CHR ''}'' # rest) = ?j @ CHR ''}'' # rest"
            by (simp add: skip_space_def json_space_def)
          then show ?thesis using membersI [OF False ok, of rest] dict_of_distinct [OF keys] by (simp add: l j [simplified])
        qed
      qed
    qed
  next
    assume vs: "vs \<noteq> []" "list_all storable vs" "length (join '', '' (map json_dumps vs)) < Suc n"
    then obtain v ws where w: "vs = v # ws" by (cases vs) simp_all
    show "json_items (Suc n) (join '', '' (map json_dumps vs) @ CHR '']'' # rest) = Some (vs, rest)"
    proof (cases ws)
      case Nil
      then show ?thesis using vs w valueI [of v "CHR '']'' # rest"]
        by (simp add: ends_number_def is_digit_def less_eq_char_def skip_space_def json_space_def)
    next
      case (Cons x xs)
      let ?more = "join '', '' (map json_dumps ws)"
      have shape: "join '', '' (map json_dumps vs) = json_dumps v @ '', '' @ ?more" by (simp add: w Cons)
      have ok: "storable v" "list_all storable ws" "ws \<noteq> []" using vs w Cons by simp_all
      have len: "length (json_dumps v) \<le> n" "length ?more < n"
        using vs(3) unfolding shape by simp_all
      have "json_value n (json_dumps v @ '', '' @ ?more @ CHR '']'' # rest) = Some (v, '', '' @ ?more @ CHR '']'' # rest)"
        using valueI [OF ok(1) len(1), of "'', '' @ ?more @ CHR '']'' # rest"]
        by (simp add: ends_number_def is_digit_def less_eq_char_def)
      moreover have "skip_space (CHR '' '' # ?more @ CHR '']'' # rest) = ?more @ CHR '']'' # rest"
        using skip_joined [OF ok(3,2), of "CHR '']'' # rest"] by (simp add: skip_space_def json_space_def)
      ultimately show ?thesis using itemsI [OF ok(3,2) len(2), of rest]
        unfolding shape by (simp add: w skip_space_def json_space_def)
    qed
  next
    assume d: "d \<noteq> []" "list_all (\<lambda>(_, v). storable v) d" "length (join '', '' (map ?member d)) < Suc n"
    then obtain k v e where w: "d = (k, v) # e" by (cases d) auto
    show "json_members (Suc n) (join '', '' (map ?member d) @ CHR ''}'' # rest) = Some (d, rest)"
    proof (cases e)
      case Nil
      have len: "length (json_dumps v) \<le> n" using d(3) by (simp add: w Nil)
      have "skip_space (CHR '' '' # json_dumps v @ CHR ''}'' # rest) = json_dumps v @ CHR ''}'' # rest"
        using skip_dumps [of v "CHR ''}'' # rest"] d(2) by (simp add: w skip_space_def json_space_def)
      then show ?thesis using d w Nil len valueI [of v "CHR ''}'' # rest"]
        by (simp add: json_text_append string_body_text ends_number_def is_digit_def less_eq_char_def
          skip_space_def json_space_def)
    next
      case (Cons x xs)
      let ?more = "join '', '' (map ?member e)"
      have shape: "join '', '' (map ?member d) = json_text k @ '': '' @ json_dumps v @ '', '' @ ?more"
        by (cases x) (simp add: w Cons)
      have ok: "storable v" "list_all (\<lambda>(_, v). storable v) e" "e \<noteq> []" using d w Cons by simp_all
      have len: "length (json_dumps v) \<le> n" "length ?more < n"
        using d(3) unfolding shape by simp_all
      have "json_value n (json_dumps v @ '', '' @ ?more @ CHR ''}'' # rest) = Some (v, '', '' @ ?more @ CHR ''}'' # rest)"
        using valueI [OF ok(1) len(1), of "'', '' @ ?more @ CHR ''}'' # rest"]
        by (simp add: ends_number_def is_digit_def less_eq_char_def)
      moreover have "skip_space (CHR '' '' # json_dumps v @ '', '' @ ?more @ CHR ''}'' # rest) =
          json_dumps v @ '', '' @ ?more @ CHR ''}'' # rest"
        using skip_dumps [OF ok(1), of "'', '' @ ?more @ CHR ''}'' # rest"] by (simp add: skip_space_def json_space_def)
      moreover obtain cs where "?more = CHR 0x22 # cs" using members_start [OF ok(3)] by blast
      then have "skip_space (CHR '' '' # ?more @ CHR ''}'' # rest) = ?more @ CHR ''}'' # rest"
        by (simp add: skip_space_def json_space_def)
      ultimately show ?thesis using membersI [OF ok(3,2) len(2), of rest]
        unfolding shape by (simp add: w json_text_append string_body_text skip_space_def json_space_def)
    qed
  qed
qed

theorem json_roundtrip: "storable v \<Longrightarrow> json_loads (json_dumps v) = Inr v"
proof -
  assume v: "storable v"
  have "json_value (2 * length (json_dumps v) + 1) (json_dumps v @ []) = Some (v, [])"
    using json_parts [of v "2 * length (json_dumps v) + 1" "[]"] v by (simp add: ends_number_def)
  then show ?thesis using skip_dumps [OF v, of "[]"] by (simp add: json_loads_def skip_space_def)
qed

subsection \<open>What a dump is written with\<close>

definition printable :: "char \<Rightarrow> bool" where
  "printable c \<longleftrightarrow> 32 \<le> (of_char c :: nat) \<and> (of_char c :: nat) < 127"

lemma hex_digit_printable: "n < 16 \<Longrightarrow> printable (hex_digit n)"
  by (auto simp: printable_def hex_digit_def)

lemma json_char_printable: "d \<in> set (json_char c) \<Longrightarrow> printable d"
proof (cases "json_plain c")
  case True
  assume "d \<in> set (json_char c)"
  then show ?thesis using True by (simp add: json_char_plain) (simp add: json_plain_def printable_def)
next
  case False
  assume d: "d \<in> set (json_char c)"
  have "(of_char c :: nat) div 16 < 16" using of_char_less [of c] by (simp add: less_mult_imp_div_less)
  then have hex: "printable (hex_digit (of_char c div 16))" "printable (hex_digit (of_char c mod 16))"
    by (simp_all add: hex_digit_printable)
  show ?thesis using False d hex
    by (auto simp: json_char_def Let_def printable_def split: if_splits)
qed

lemma json_text_printable: "d \<in> set (json_text s) \<Longrightarrow> printable d"
  using json_char_printable by (auto simp: json_text_def printable_def)

lemma show_int_printable: "d \<in> set (show_int i) \<Longrightarrow> printable d"
  using show_nat_digits by (fastforce simp: show_int_def printable_def split: if_splits)

lemma set_join: "d \<in> set (join sep ss) \<Longrightarrow> d \<in> set sep \<or> (\<exists>s \<in> set ss. d \<in> set s)"
  by (induction sep ss rule: join.induct) auto

lemma json_dumps_printable: "storable v \<Longrightarrow> d \<in> set (json_dumps v) \<Longrightarrow> printable d"
proof (induction v)
  case (PList vs)
  have "printable d" if "d \<in> set (join '', '' (map json_dumps vs))"
    using set_join [OF that] PList by (auto simp: printable_def list_all_iff)
  with PList.prems show ?case by (auto simp: printable_def)
next
  case (PDict kvs)
  have entry: "printable d" if "(k, v) \<in> set kvs" "d \<in> set (json_text k @ '': '' @ json_dumps v)" for k v
  proof -
    have "storable v" using that(1) PDict.prems(1) by (auto simp: list_all_iff)
    then show ?thesis using that PDict.IH [of "(k, v)" v] json_text_printable by (auto simp: printable_def)
  qed
  have "printable d" if "d \<in> set (join '', '' (map (\<lambda>(k, v). json_text k @ '': '' @ json_dumps v) kvs))"
    using set_join [OF that] entry by (auto simp: printable_def)
  with PDict.prems(2) show ?case by (auto simp: printable_def)
next
  case (PBool b)
  then show ?case by (cases b) (auto simp: printable_def)
qed (use show_int_printable json_text_printable in \<open>auto simp: printable_def\<close>)

end
