(* ===== verification/Host.thy ===== *)
theory Host
  imports Runlock Json Base64
begin

section \<open>The workstation (tools.py, kind.py, kube.py)\<close>

text \<open>
  The programs the automation starts and the rest of the Kubernetes calls. A \<open>host\<close> has the calls of the
  cluster client (\<open>cluster\<close>), the search path, the process calls of the operating system (a process is
  a number; \<open>communicate\<close> waits for its end and gives its output and exit code, or raises \<open>TimeoutExpired\<close>; \<open>next_line\<close> gives a line it printed, if one comes in time), the
  file system, the cryptography library, and the remaining resources of the cluster. Every start of a program
  is an event of the trail. Paths are POSIX texts.
\<close>

type_synonym conditions = "(string \<times> string) list option"

datatype secret_body = Opaque "(string, string) dict" | Tls "(string, string) dict"

record pod_spec =
  spec_labels :: "(string, string) dict"
  spec_image :: string
  spec_command :: "string list"
  run_as_non_root :: bool
  run_as_user :: int
  run_as_group :: int
  seccomp_profile :: string
  allow_privilege_escalation :: bool
  read_only_root :: bool
  dropped_capabilities :: "string list"
  mounts_token :: bool
  restart_policy :: string
  resource_requests :: "(string, string) dict"
  resource_limits :: "(string, string) dict"

text \<open>What a certificate is asked to be signed with, and what can be read from one.\<close>

record cert_request =
  cr_subject :: string
  cr_issuer :: string
  cr_key :: bytes
  cr_not_before :: real
  cr_not_after :: real
  cr_names :: "(string list \<times> string list) option"
  cr_authority :: bool
  cr_path_length :: "nat option"
  cr_usages :: "string list"
  cr_server_auth :: bool
  cr_issuer_certificate :: "bytes option"

record cert_view =
  cv_not_after :: real
  cv_names :: "(string list \<times> string list) option"
  cv_subject :: string

record 'k host =
  cluster :: "'k api"
  on_path :: "string \<Rightarrow> ('k, string option) act"
  in_tools_dir :: "string \<Rightarrow> ('k, string option) act"
  spawn :: "string list \<Rightarrow> ('k, nat) act"
  communicate :: "nat \<Rightarrow> string option \<Rightarrow> real option \<Rightarrow> ('k, string \<times> string \<times> int) act"
  next_line :: "nat \<Rightarrow> real \<Rightarrow> ('k, string option) act"
  poll_process :: "nat \<Rightarrow> ('k, int option) act"
  signal_group :: "nat \<Rightarrow> ('k, unit) act"
  taskkill :: "nat \<Rightarrow> ('k, unit) act"
  await_exit :: "nat \<Rightarrow> real \<Rightarrow> ('k, unit) act"
  kill_process :: "nat \<Rightarrow> ('k, unit) act"
  windows :: bool
  root_dir :: string
  read_text :: "string \<Rightarrow> ('k, string) act"
  list_nodes :: "('k, conditions list) act"
  read_namespace :: "string \<Rightarrow> ('k, (string, string) dict option) act"
  read_secret :: "string \<Rightarrow> string \<Rightarrow> ('k, (string, string) dict option) act"
  create_secret :: "string \<Rightarrow> string \<Rightarrow> (string, string) dict \<Rightarrow> secret_body \<Rightarrow> ('k, unit) act"
  replace_secret :: "string \<Rightarrow> string \<Rightarrow> (string, string) dict \<Rightarrow> secret_body \<Rightarrow> ('k, unit) act"
  random_char :: "string \<Rightarrow> ('k, char) act"
  uuid_hex :: "('k, string) act"
  create_pod :: "string \<Rightarrow> string \<Rightarrow> pod_spec \<Rightarrow> ('k, unit) act"
  read_pod_phase :: "string \<Rightarrow> string \<Rightarrow> ('k, string) act"
  read_pod_log :: "string \<Rightarrow> string \<Rightarrow> ('k, string) act"
  parse_yaml :: "string \<Rightarrow> pyval result"
  post_form :: "string \<Rightarrow> (string, string) dict \<Rightarrow> ('k, http_response) act"
  is_file :: "string \<Rightarrow> ('k, bool) act"
  is_dir :: "string \<Rightarrow> ('k, bool) act"
  path_exists :: "string \<Rightarrow> ('k, bool) act"
  read_bytes :: "string \<Rightarrow> ('k, bytes) act"
  write_bytes :: "string \<Rightarrow> bytes \<Rightarrow> ('k, unit) act"
  make_dirs :: "string \<Rightarrow> ('k, unit) act"
  remove_tree :: "string \<Rightarrow> ('k, unit) act"
  rglob :: "string \<Rightarrow> ('k, (string list \<times> bool) list) act"
  sha256_hex :: "bytes \<Rightarrow> string"
  new_private_key :: "('k, bytes) act"
  load_private_key :: "bytes \<Rightarrow> bytes result"
  sign_certificate :: "cert_request \<Rightarrow> bytes \<Rightarrow> ('k, bytes) act"
  view_certificate :: "bytes \<Rightarrow> cert_view result"
  directly_issued :: "bytes \<Rightarrow> bytes \<Rightarrow> bool"
  bind_port :: "int \<Rightarrow> ('k, bool) act"
  free_disk :: "('k, int) act"
  python_version :: "int \<times> int"
  delete_pod_at_once :: "string \<Rightarrow> string \<Rightarrow> ('k, unit) act"

subsection \<open>Places in the repository (paths.py)\<close>

text \<open>The root is the first parent folder of the program with a version manifest.\<close>

definition repo_root :: "(string \<Rightarrow> bool) \<Rightarrow> string list \<Rightarrow> string result" where
  "repo_root holds_file parents =
     (case filter (\<lambda>candidate. holds_file (candidate @ ''/deploy/versions.yaml'')) parents of
        [] \<Rightarrow> Inl RuntimeError
      | candidate # _ \<Rightarrow> Inr candidate)"

definition deploy_dir :: "'k host \<Rightarrow> string" where "deploy_dir h = root_dir h @ ''/deploy''"
definition charts_dir :: "'k host \<Rightarrow> string" where "charts_dir h = deploy_dir h @ ''/charts''"
definition local_values_dir :: "'k host \<Rightarrow> string" where "local_values_dir h = deploy_dir h @ ''/values/local''"
definition local_state_dir :: "'k host \<Rightarrow> string" where "local_state_dir h = root_dir h @ ''/.local''"
definition runs_dir :: "'k host \<Rightarrow> string" where "runs_dir h = root_dir h @ ''/.runs''"
definition project_tools_dir :: "'k host \<Rightarrow> string" where "project_tools_dir h = root_dir h @ ''/.tools/bin''"
definition scenarios_dir :: "'k host \<Rightarrow> string" where "scenarios_dir h = root_dir h @ ''/scenarios''"

definition write_file :: "'k host \<Rightarrow> string \<Rightarrow> bytes \<Rightarrow> ('k world, unit) act" where
  "write_file h path bs = effect (FileWritten path) (write_bytes h path bs)"

subsection \<open>Starting and stopping programs\<close>

record command_result =
  res_args :: "string list"
  returncode :: int
  stdout :: string
  stderr :: string

text \<open>The local folder is searched with the same rules, so it may answer for what the path lacks.\<close>

definition find_tool :: "'k host \<Rightarrow> string \<Rightarrow> ('k world, string option) act" where
  "find_tool h name =
     bindA (call (on_path h name)) (\<lambda>found.
       if found \<noteq> None \<and> found \<noteq> Some [] then ret found
       else bindA (call (in_tools_dir h name)) (\<lambda>local.
         ret (if local \<noteq> None \<and> local \<noteq> Some [] then local else None)))"

definition require_tool :: "'k host \<Rightarrow> string \<Rightarrow> ('k world, string) act" where
  "require_tool h name =
     bindA (find_tool h name) (\<lambda>tool. case tool of None \<Rightarrow> raise ToolError | Some path \<Rightarrow> ret path)"

text \<open>The name and the arguments of the event are those of the caller; the command starts with the path.\<close>

definition start_tool :: "'k host \<Rightarrow> string \<Rightarrow> string list \<Rightarrow> string list \<Rightarrow> ('k world, nat) act" where
  "start_tool h tool args command = effect (ToolStarted tool args) (spawn h command)"

definition terminate_tree :: "'k host \<Rightarrow> nat \<Rightarrow> real \<Rightarrow> ('k world, unit) act" where
  "terminate_tree h p timeout =
     bindA (call (poll_process h p)) (\<lambda>code.
       if code \<noteq> None then ret ()
       else bindA (if windows h then bindA (call (taskkill h p)) (\<lambda>_. ret True)
                   else catchA (bindA (call (signal_group h p)) (\<lambda>_. ret True))
                          (\<lambda>e. if e = ProcessLookupError then ret False else raise e)) (\<lambda>signalled.
         if \<not> signalled then ret ()
         else catchA (call (await_exit h p timeout))
                (\<lambda>e. if e = TimeoutExpired
                      then bindA (call (kill_process h p)) (\<lambda>_. call (await_exit h p timeout))
                      else raise e)))"

definition run_tool ::
  "'k host \<Rightarrow> string \<Rightarrow> string list \<Rightarrow> bool \<Rightarrow> string option \<Rightarrow> real option \<Rightarrow> ('k world, command_result) act" where
  "run_tool h tool args check input timeout =
     bindA (require_tool h tool) (\<lambda>executable.
     bindA (start_tool h tool args (executable # args)) (\<lambda>p.
     bindA (catchA (call (communicate h p input timeout))
              (\<lambda>e. if e = TimeoutExpired then bindA (terminate_tree h p 10) (\<lambda>_. raise e) else raise e)) (\<lambda>(out, err, code).
       let result = \<lparr>res_args = executable # args, returncode = code, stdout = out, stderr = err\<rparr>
       in if check \<and> code \<noteq> 0 then raise ToolError else ret result)))"

text \<open>A program whose failure is an answer: \<open>check=False\<close>.\<close>

abbreviation ask_tool :: "'k host \<Rightarrow> string \<Rightarrow> string list \<Rightarrow> real option \<Rightarrow> ('k world, command_result) act" where
  "ask_tool h tool args timeout \<equiv> run_tool h tool args False None timeout"

abbreviation do_tool :: "'k host \<Rightarrow> string \<Rightarrow> string list \<Rightarrow> real option \<Rightarrow> ('k world, command_result) act" where
  "do_tool h tool args timeout \<equiv> run_tool h tool args True None timeout"

subsection \<open>The guard and kubectl\<close>

definition CLUSTER_NAME :: string where "CLUSTER_NAME = ''txplatform''"

definition PLATFORM_NAMESPACES :: "string list" where
  "PLATFORM_NAMESPACES = [NS_GATEWAY, NS_APP, NS_OBSERVABILITY]"

definition context_server :: "'k host \<Rightarrow> ('k world, string) act" where
  "context_server h =
     bindA (ask_tool h ''kubectl''
              [''config'', ''view'', ''--minify'', ''--context'', CONTEXT, ''-o'', ''jsonpath={.clusters[0].cluster.server}'']
              (Some 30)) (\<lambda>result.
       let server = strip (stdout result) in
       if returncode result \<noteq> 0 \<or> server = [] then raise ContextGuardError else ret server)"

definition guard :: "'k host \<Rightarrow> ('k world, unit) act" where
  "guard h = bindA (context_server h) (\<lambda>server. liftE (check_context_is_local CONTEXT server))"

definition kubectl :: "'k host \<Rightarrow> string list \<Rightarrow> string option \<Rightarrow> real option \<Rightarrow> ('k world, command_result) act" where
  "kubectl h args input timeout = run_tool h ''kubectl'' ([''--context'', CONTEXT] @ args) True input timeout"

definition node_ready :: "conditions \<Rightarrow> bool" where
  "node_ready cs \<longleftrightarrow> (case cs of None \<Rightarrow> False | Some l \<Rightarrow> (''Ready'', ''True'') \<in> set l)"

definition nodes_ready :: "'k host \<Rightarrow> ('k world, bool) act" where
  "nodes_ready h = bindA (call (list_nodes h)) (\<lambda>nodes. ret (nodes \<noteq> [] \<and> list_all node_ready nodes))"

definition wait_nodes_ready :: "'k host \<Rightarrow> ('k world, unit) act" where
  "wait_nodes_ready h = wait_for (cluster h) (truth (nodes_ready h)) 300 2"

definition namespace_exists :: "'k host \<Rightarrow> string \<Rightarrow> ('k world, bool) act" where
  "namespace_exists h name =
     catchA (bindA (call (read_namespace h name)) (\<lambda>_. ret True))
       (\<lambda>e. if e = ApiException 404 then ret False else raise e)"

subsection \<open>The kind cluster\<close>

definition cluster_exists :: "'k host \<Rightarrow> ('k world, bool) act" where
  "cluster_exists h =
     bindA (ask_tool h ''kind'' [''get'', ''clusters''] None) (\<lambda>result.
       ret (CLUSTER_NAME \<in> set (words_of (stdout result))))"

text \<open>The image of the nodes is the pinned one of the manifest.\<close>

definition create_cluster :: "'k host \<Rightarrow> string \<Rightarrow> ('k world, unit) act" where
  "create_cluster h node_image =
     bindA (do_tool h ''kind''
              [''create'', ''cluster'', ''--name'', CLUSTER_NAME, ''--image'', node_image, ''--config'',
               deploy_dir h @ ''/kind/cluster.yaml'', ''--wait'', ''180s''] (Some 900)) (\<lambda>_. ret ())"

definition delete_cluster :: "'k host \<Rightarrow> ('k world, unit) act" where
  "delete_cluster h =
     bindA (do_tool h ''kind'' [''delete'', ''cluster'', ''--name'', CLUSTER_NAME] (Some 600)) (\<lambda>_. ret ())"

definition stripped_lines :: "string \<Rightarrow> string list" where
  "stripped_lines text = map strip (filter (\<lambda>line. strip line \<noteq> []) (splitlines text))"

definition node_containers :: "'k host \<Rightarrow> ('k world, string list) act" where
  "node_containers h =
     bindA (ask_tool h ''kind'' [''get'', ''nodes'', ''--name'', CLUSTER_NAME] None) (\<lambda>result.
       ret (stripped_lines (stdout result)))"

definition load_image :: "'k host \<Rightarrow> string \<Rightarrow> ('k world, unit) act" where
  "load_image h img =
     bindA (do_tool h ''kind'' [''load'', ''docker-image'', img, ''--name'', CLUSTER_NAME] (Some 900)) (\<lambda>_. ret ())"

definition host_port_bindings :: "'k host \<Rightarrow> ('k world, string list) act" where
  "host_port_bindings h =
     bindA (ask_tool h ''docker'' [''port'', CLUSTER_NAME @ ''-control-plane''] None) (\<lambda>result.
       ret (stripped_lines (stdout result)))"

subsection \<open>What running a program does to the trail\<close>

lemma only_start: "ToolStarted tool args \<in> evs \<Longrightarrow> steps (only evs) (start_tool h tool args command)"
  by (simp add: start_tool_def only_effect)

lemma only_terminate: "steps (only evs) (terminate_tree h p timeout)"
  by (auto simp: terminate_tree_def intro!: few.steps_intros only_call)

lemma only_require: "steps (only evs) (require_tool h tool)"
  by (auto simp: require_tool_def find_tool_def intro!: few.steps_intros only_call split: option.splits)

lemma only_run_tool: "ToolStarted tool args \<in> evs \<Longrightarrow> steps (only evs) (run_tool h tool args check input timeout)"
  by (auto simp: run_tool_def Let_def intro!: few.steps_intros only_call only_start only_terminate only_require
    split: prod.splits)

subsection \<open>A host for the examples\<close>

text \<open>A cluster and a host that answer nothing, to be filled in by the examples.\<close>

definition blank_api :: "'k api" where
  "blank_api =
     \<lparr>read_workload = (\<lambda>_ _ _. raise (ApiException 404)), list_pods = (\<lambda>_ _. ret []),
      read_pod_uid = (\<lambda>_ _. raise (ApiException 404)), delete_pod_call = (\<lambda>_ _. ret ()),
      patch_restart = (\<lambda>_ _ _ _. ret ()), patch_scale = (\<lambda>_ _ _ _. ret ()),
      http = (\<lambda>_ _ _ _ _. raise HTTPError), fetch_token = (\<lambda>_. raise HTTPError),
      traffic_network = ret (\<lambda>_ _ _ _. (Inl [], 0, 0), \<lambda>_. Inl HTTPError),
      read_lease = raise (ApiException 404), create_lease = (\<lambda>_. ret ()), replace_lease = (\<lambda>_. ret ()),
      delete_lease = ret (), own_identity = ''host/1'', wall_clock = ret 0, monotonic_clock = ret 0,
      time_stamp = ret ''20250101T000000Z'', utc_text = (\<lambda>_. ''2025-01-01T00:00:00Z''),
      random_bytes = ret [0, 0], sleep_for = (\<lambda>_. ret ())\<rparr>"

definition blank_host :: "'k host" where
  "blank_host =
     \<lparr>cluster = blank_api, on_path = (\<lambda>name. ret (Some (''/usr/bin/'' @ name))), in_tools_dir = (\<lambda>_. ret None),
      spawn = (\<lambda>_. ret 1), communicate = (\<lambda>_ _ _. ret ([], [], 0)), next_line = (\<lambda>_ _. ret None), poll_process = (\<lambda>_. ret (Some 0)),
      signal_group = (\<lambda>_. ret ()), taskkill = (\<lambda>_. ret ()), await_exit = (\<lambda>_ _. ret ()), kill_process = (\<lambda>_. ret ()),
      windows = False, root_dir = ''/repo'', read_text = (\<lambda>_. raise (KeyError [])), list_nodes = ret [],
      read_namespace = (\<lambda>_. raise (ApiException 404)), read_secret = (\<lambda>_ _. raise (ApiException 404)),
      create_secret = (\<lambda>_ _ _ _. ret ()), replace_secret = (\<lambda>_ _ _ _. ret ()), random_char = (\<lambda>s. ret (hd s)),
      uuid_hex = ret ''0123456789abcdef0123456789abcdef'', create_pod = (\<lambda>_ _ _. ret ()), read_pod_phase = (\<lambda>_ _. ret ''Succeeded''),
      read_pod_log = (\<lambda>_ _. ret []), parse_yaml = (\<lambda>_. Inl ValueError), post_form = (\<lambda>_ _. raise HTTPError),
      is_file = (\<lambda>_. ret False), is_dir = (\<lambda>_. ret False), path_exists = (\<lambda>_. ret False),
      read_bytes = (\<lambda>_. raise (KeyError [])), write_bytes = (\<lambda>_ _. ret ()), make_dirs = (\<lambda>_. ret ()),
      remove_tree = (\<lambda>_. ret ()), rglob = (\<lambda>_. ret []), sha256_hex = (\<lambda>_. replicate 64 CHR ''0''),
      new_private_key = ret [], load_private_key = Inr, sign_certificate = (\<lambda>_ _. ret []),
      view_certificate = (\<lambda>_. Inl ValueError), directly_issued = (\<lambda>_ _. False), bind_port = (\<lambda>_. ret False),
      free_disk = ret 0, python_version = (3, 12), delete_pod_at_once = (\<lambda>_ _. ret ())\<rparr>"

end
