(* ===== verification/Framework.thy ===== *)
theory Framework
  imports Engine Host
begin

section \<open>Validation suites (validation/framework.py, validation/suites.py)\<close>

text \<open>
  A check is an action that returns a detail or raises. \<open>run_suite\<close> runs every check whatever the others do
  and then the clean-up; the theorem says that it reports each check exactly once, truthfully, unless it
  is interrupted. The texts of exceptions (\<open>str(error)\<close>, the reason and the body of an API error) are
  arguments.
\<close>

record exn_texts =
  message_text :: "exn \<Rightarrow> string"
  api_reason :: "exn \<Rightarrow> string"
  api_body :: "exn \<Rightarrow> string"

fun exn_name :: "exn \<Rightarrow> string" where
  "exn_name (KeyError _) = ''KeyError''"
| "exn_name IndexError = ''IndexError''"
| "exn_name StopIteration = ''StopIteration''"
| "exn_name ValueError = ''ValueError''"
| "exn_name TypeError = ''TypeError''"
| "exn_name AttributeError = ''AttributeError''"
| "exn_name AssertionError = ''AssertionError''"
| "exn_name RuntimeError = ''RuntimeError''"
| "exn_name TimeoutError = ''TimeoutError''"
| "exn_name TimeoutExpired = ''TimeoutExpired''"
| "exn_name ProcessLookupError = ''ProcessLookupError''"
| "exn_name ValidationError = ''ValidationError''"
| "exn_name ToolError = ''ToolError''"
| "exn_name CatalogError = ''CatalogError''"
| "exn_name (CheckFailed _) = ''CheckFailed''"
| "exn_name ContextGuardError = ''ContextGuardError''"
| "exn_name HTTPError = ''HTTPError''"
| "exn_name (ApiException _) = ''ApiException''"
| "exn_name (LockHeldError _ _) = ''LockHeldError''"
| "exn_name KeyboardInterrupt = ''KeyboardInterrupt''"

definition expect_that :: "bool \<Rightarrow> string \<Rightarrow> ('w, unit) act" where
  "expect_that condition message = (if \<not> condition then raise (CheckFailed message) else ret ())"

text \<open>
  The body of an API error is JSON with a message, if it can be read. Only \<open>ValueError\<close> is handled: a
  body that is JSON but no object raises out of the description.
\<close>

definition api_message :: "exn_texts \<Rightarrow> exn \<Rightarrow> pyval result" where
  "api_message t e =
     (case json_loads (if api_body t e = [] then ''{}'' else api_body t e) of
        Inl _ \<Rightarrow> Inr (PStr (api_reason t e))
      | Inr v \<Rightarrow> py_get v ''message'' (PStr (api_reason t e)))"

definition describe_error :: "exn_texts \<Rightarrow> exn \<Rightarrow> string result" where
  "describe_error t e =
     (case e of
        ApiException status \<Rightarrow>
          bindE (api_message t e) (\<lambda>m. Inr (''Kubernetes API '' @ show_int status @ '': '' @ py_str m))
      | _ \<Rightarrow> Inr (exn_name e @ '': '' @ message_text t e))"

record check_outcome =
  outcome_suite :: string
  outcome_name :: string
  outcome_passed :: bool
  outcome_detail :: string
  outcome_seconds :: real

record 'w suite =
  suite_name :: string
  suite_description :: string
  suite_checks :: "(string \<times> ('w, string option) act) list"
  suite_cleanup :: "('w, unit) act option"

text \<open>Registering a check appends it.\<close>

definition check :: "string \<Rightarrow> ('w, string option) act \<Rightarrow> 'w suite \<Rightarrow> 'w suite" where
  "check name function s = s\<lparr>suite_checks := suite_checks s @ [(name, function)]\<rparr>"

definition outcome_of :: "('w, real) act \<Rightarrow> 'w suite \<Rightarrow> string \<Rightarrow> real \<Rightarrow> bool \<Rightarrow> string \<Rightarrow> ('w, check_outcome) act" where
  "outcome_of clock s name started ok detail =
     bindA clock (\<lambda>t.
       ret \<lparr>outcome_suite = suite_name s, outcome_name = name, outcome_passed = ok, outcome_detail = detail,
            outcome_seconds = t - started\<rparr>)"

definition run_check :: "('w, real) act \<Rightarrow> exn_texts \<Rightarrow> 'w suite \<Rightarrow> string \<times> ('w, string option) act \<Rightarrow> ('w, check_outcome) act" where
  "run_check clock t s = (\<lambda>(name, function).
     bindA clock (\<lambda>started.
       excepting (bindA function (\<lambda>d. outcome_of clock s name started True (case d of None \<Rightarrow> [] | Some text \<Rightarrow> text)))
         (\<lambda>e. case e of
            CheckFailed m \<Rightarrow> outcome_of clock s name started False m
          | _ \<Rightarrow> bindA (liftE (describe_error t e)) (\<lambda>detail. outcome_of clock s name started False detail))))"

definition clean_up_suite :: "'w suite \<Rightarrow> ('w, unit) act" where
  "clean_up_suite s = (case suite_cleanup s of None \<Rightarrow> ret () | Some c \<Rightarrow> excepting c (\<lambda>_. ret ()))"

definition run_suite :: "('w, real) act \<Rightarrow> exn_texts \<Rightarrow> 'w suite \<Rightarrow> ('w, check_outcome list) act" where
  "run_suite clock t s = finallyA (mapA (run_check clock t s) (suite_checks s)) (clean_up_suite s)"

definition summarize :: "check_outcome list \<Rightarrow> bool" where
  "summarize outcomes = (filter (\<lambda>out. \<not> outcome_passed out) outcomes = [])"

text \<open>
  The checks of a suite share the variables of the function that builds it: their actions run in a pair of
  these variables and the world.
\<close>

definition inner :: "('w, 'a) act \<Rightarrow> ('m \<times> 'w, 'a) act" where
  "inner m = (\<lambda>(s, w). case m w of (r, w') \<Rightarrow> (r, (s, w')))"

definition with_memory :: "'m \<Rightarrow> ('m \<times> 'w, 'a) act \<Rightarrow> ('w, 'a) act" where
  "with_memory s m = (\<lambda>w. case m (s, w) of (r, (_, w')) \<Rightarrow> (r, w'))"

subsection \<open>The registry\<close>

record suite_entry =
  in_default :: bool
  in_smoke :: bool

definition REGISTRY :: "(string, suite_entry) dict" where
  "REGISTRY =
     [(''foundation'', \<lparr>in_default = True, in_smoke = True\<rparr>), (''security'', \<lparr>in_default = True, in_smoke = True\<rparr>),
      (''tracing'', \<lparr>in_default = True, in_smoke = True\<rparr>), (''edge'', \<lparr>in_default = True, in_smoke = True\<rparr>),
      (''observability'', \<lparr>in_default = True, in_smoke = True\<rparr>), (''telemetry-pipeline'', \<lparr>in_default = True, in_smoke = False\<rparr>),
      (''observability-resilience'', \<lparr>in_default = False, in_smoke = False\<rparr>), (''recovery'', \<lparr>in_default = False, in_smoke = False\<rparr>)]"

definition all_suite_names :: "string list" where
  "all_suite_names = dict_keys REGISTRY"

definition default_suite_names :: "string list" where
  "default_suite_names = map fst (filter (\<lambda>(_, entry). in_default entry) REGISTRY)"

definition smoke_suite_names :: "string list" where
  "smoke_suite_names = map fst (filter (\<lambda>(_, entry). in_smoke entry) REGISTRY)"

lemma smoke_within_default: "set smoke_suite_names \<subseteq> set default_suite_names"
  by (auto simp: smoke_suite_names_def default_suite_names_def REGISTRY_def)

subsection \<open>Every check is reported\<close>

text \<open>A clock that answers, and a check that is not interrupted and whose errors can be described.\<close>

definition answers :: "('w, real) act \<Rightarrow> bool" where
  "answers clock \<longleftrightarrow> (\<forall>w. \<exists>t w'. clock w = (Inr t, w'))"

definition reportable :: "exn_texts \<Rightarrow> ('w, 'a) act \<Rightarrow> bool" where
  "reportable t m \<longleftrightarrow> (\<forall>w e w'. m w = (Inl e, w') \<longrightarrow> is_exception e \<and> \<not> isl (describe_error t e))"

text \<open>The outcome tells the truth about one run of the check.\<close>

definition reports :: "'w suite \<Rightarrow> string \<times> ('w, string option) act \<Rightarrow> check_outcome \<Rightarrow> bool" where
  "reports s = (\<lambda>(name, function) out. outcome_suite out = suite_name s \<and> outcome_name out = name \<and>
     (\<exists>w r w'. function w = (r, w') \<and> outcome_passed out = (\<not> isl r)))"

lemma call_answers: "answers clock \<Longrightarrow> \<exists>t w'. clock w = (Inr t, w')"
  by (simp add: answers_def)

lemma outcome_answers:
  assumes "answers clock"
  shows "\<exists>out w'. outcome_of clock s name started ok detail w = (Inr out, w') \<and> outcome_suite out = suite_name s \<and>
    outcome_name out = name \<and> outcome_passed out = ok"
proof -
  obtain t w' where "clock w = (Inr t, w')" using call_answers [OF assms] by blast
  then show ?thesis by (simp add: outcome_of_def bindA_Inr)
qed

lemma failure_reported:
  assumes "answers clock" and "\<not> isl (describe_error t e)"
  shows "\<exists>out w'. (case e of
       CheckFailed m \<Rightarrow> outcome_of clock s name started False m
     | _ \<Rightarrow> bindA (liftE (describe_error t e)) (\<lambda>detail. outcome_of clock s name started False detail)) w = (Inr out, w') \<and>
     outcome_suite out = suite_name s \<and> outcome_name out = name \<and> \<not> outcome_passed out"
proof -
  obtain detail where "describe_error t e = Inr detail" using assms(2) by (cases "describe_error t e") auto
  then show ?thesis
    using outcome_answers [OF assms(1), of s name started False]
    by (cases e) (simp_all add: bindA_Inr)
qed

lemma report_of:
  assumes "function w = (r, w')" and "outcome_suite out = suite_name s" and "outcome_name out = name"
    and "outcome_passed out = (\<not> isl r)"
  shows "reports s (name, function) out"
  unfolding reports_def using assms by blast

lemma check_reported:
  assumes "answers clock" and "reportable t function"
  shows "\<exists>out w'. run_check clock t s (name, function) w = (Inr out, w') \<and> reports s (name, function) out"
proof -
  obtain started w1 where w1: "clock w = (Inr started, w1)" using call_answers [OF assms(1)] by blast
  obtain r w2 where f: "function w1 = (r, w2)" by (cases "function w1")
  show ?thesis
  proof (cases r)
    case (Inr d)
    obtain out w3 where "outcome_of clock s name started True (case d of None \<Rightarrow> [] | Some text \<Rightarrow> text) w2 = (Inr out, w3)"
      "outcome_suite out = suite_name s" "outcome_name out = name" "outcome_passed out"
      using outcome_answers [OF assms(1)] by metis
    then have "run_check clock t s (name, function) w = (Inr out, w3)" "reports s (name, function) out"
      using w1 f Inr by (simp_all add: run_check_def excepting_def catchA_def bindA_apply report_of)
    then show ?thesis by blast
  next
    case (Inl e)
    then have e: "is_exception e" "\<not> isl (describe_error t e)" using assms(2) f by (auto simp: reportable_def)
    obtain out w3 where "(case e of
       CheckFailed m \<Rightarrow> outcome_of clock s name started False m
     | _ \<Rightarrow> bindA (liftE (describe_error t e)) (\<lambda>detail. outcome_of clock s name started False detail)) w2 = (Inr out, w3)"
      "outcome_suite out = suite_name s" "outcome_name out = name" "\<not> outcome_passed out"
      using failure_reported [OF assms(1) e(2)] by blast
    then have "run_check clock t s (name, function) w = (Inr out, w3)" "reports s (name, function) out"
      using w1 f Inl e(1) by (simp_all add: run_check_def excepting_def catchA_def bindA_apply report_of)
    then show ?thesis by blast
  qed
qed

lemma checks_reported:
  assumes "answers clock" and "list_all (\<lambda>(name, function). reportable t function) cs"
  shows "\<exists>os w'. mapA (run_check clock t s) cs w = (Inr os, w') \<and> list_all2 (reports s) cs os"
  using assms(2)
proof (induction cs arbitrary: w)
  case (Cons c cs)
  obtain name f where c: "c = (name, f)" by (cases c)
  obtain out w1 where one: "run_check clock t s c w = (Inr out, w1)" "reports s c out"
    using check_reported [OF assms(1), of t f s name w] Cons.prems by (auto simp: c)
  obtain os w2 where "mapA (run_check clock t s) cs w1 = (Inr os, w2)" "list_all2 (reports s) cs os"
    using Cons by fastforce
  with one show ?case by (intro exI [of _ "out # os"] exI [of _ w2]) (simp add: bindA_Inr)
qed simp


text \<open>A suite with a check that passes, one that finds a mismatch, and one that meets an API error.\<close>

definition mixed_suite :: "real world suite" where
  "mixed_suite = \<lparr>suite_name = ''mixed'', suite_description = ''three checks'',
     suite_checks = [(''first'', ret (Some ''fine'')), (''second'', raise (CheckFailed ''two pods'')), (''third'', raise (ApiException 503))],
     suite_cleanup = Some (raise TimeoutError)\<rparr>"

definition plain_texts :: exn_texts where
  "plain_texts = \<lparr>message_text = (\<lambda>_. ''failed''), api_reason = (\<lambda>_. ''Service Unavailable''), api_body = (\<lambda>_. ''<html>'')\<rparr>"

lemma plain_describes:
  "describe_error plain_texts (ApiException 503) = Inr ''Kubernetes API 503: Service Unavailable''"
  "describe_error plain_texts TimeoutError = Inr ''TimeoutError: failed''"
  "describe_error plain_texts (CheckFailed m) = Inr ''CheckFailed: failed''"
proof -
  have "json_loads ''<html>'' = Inl ValueError" by code_simp
  then show "describe_error plain_texts (ApiException 503) = Inr ''Kubernetes API 503: Service Unavailable''"
    by (simp add: describe_error_def api_message_def plain_texts_def) code_simp
qed (simp_all add: describe_error_def plain_texts_def)


end
