(* ===== verification/Versions.thy ===== *)
theory Versions
  imports Host
begin

section \<open>The version manifest (versions.py)\<close>

text \<open>
  \<open>deploy/versions.yaml\<close> is read with the YAML library, which is a field of the host, and validated as
  the pydantic models do: every field present, none besides, texts where texts are declared, and the
  pins of images. Validation collects all errors before it raises; the model keeps only that it raised.
  The manifest is cached after its first load, which is the same as reading it again while the file
  stays as it is.
\<close>

record tool_versions =
  kind_version :: string
  helm_version :: string
  kubectl_minor :: string
  dotnet_sdk_major :: string
  python_minimum :: string

record chart_pin =
  chart_repository :: string
  chart_name :: string
  chart_version :: string

record image_versions =
  kong_gateway :: string
  kong_controller :: string
  keycloak_image :: string
  jaeger_image :: string
  index_cleaner_image :: string
  opensearch_image :: string
  prometheus_image :: string
  probe_image :: string
  dotnet_sdk :: string
  dotnet_runtime :: string

record version_manifest =
  schema_version :: int
  tools :: tool_versions
  node_image :: string
  gateway_api_version :: string
  standard_crds :: string
  kong_chart :: chart_pin
  opensearch_chart :: chart_pin
  prometheus_chart :: chart_pin
  images :: image_versions

subsection \<open>Pins\<close>

definition require_digest :: "string \<Rightarrow> string result" where
  "require_digest v = (if \<not> sublist ''@sha256:'' v then Inl ValueError else Inr v)"

text \<open>\<open>value.rsplit("/", 1)[-1]\<close>: what follows the last slash.\<close>

definition image_base :: "string \<Rightarrow> string" where
  "image_base v = snd (rpartition CHR ''/'' v)"

definition require_tag :: "string \<Rightarrow> string result" where
  "require_tag v =
     (let name = image_base v in
      if CHR '':'' \<notin> set name \<and> CHR ''@'' \<notin> set name then Inl ValueError
      else if suffix '':latest'' name then Inl ValueError
      else Inr v)"

definition split_image :: "string \<Rightarrow> string \<times> string" where
  "split_image img = rpartition CHR '':'' img"

subsection \<open>Validation\<close>

text \<open>\<open>extra="forbid"\<close> and no defaults: exactly the declared fields.\<close>

definition model_fields :: "string list \<Rightarrow> pyval \<Rightarrow> attrs result" where
  "model_fields names v = (case v of
     PDict d \<Rightarrow> if set (map fst d) = set names then Inr d else Inl ValidationError
   | _ \<Rightarrow> Inl ValidationError)"

definition str_field :: "attrs \<Rightarrow> string \<Rightarrow> string result" where
  "str_field d k = (case attr d k of PStr s \<Rightarrow> Inr s | _ \<Rightarrow> Inl ValidationError)"

text \<open>Integer fields also take what converts without loss.\<close>

definition int_field :: "attrs \<Rightarrow> string \<Rightarrow> int result" where
  "int_field d k = (case attr d k of
     PInt i \<Rightarrow> Inr i
   | PBool b \<Rightarrow> Inr (of_bool b)
   | PFloat r \<Rightarrow> if r = of_int \<lfloor>r\<rfloor> then Inr \<lfloor>r\<rfloor> else Inl ValidationError
   | PStr s \<Rightarrow> (case parse_int s of Inr i \<Rightarrow> Inr i | Inl _ \<Rightarrow> Inl ValidationError)
   | _ \<Rightarrow> Inl ValidationError)"

definition pinned_field :: "(string \<Rightarrow> string result) \<Rightarrow> attrs \<Rightarrow> string \<Rightarrow> string result" where
  "pinned_field rule d k =
     bindE (str_field d k) (\<lambda>s. case rule s of Inl _ \<Rightarrow> Inl ValidationError | Inr v \<Rightarrow> Inr v)"

definition validate_tools :: "pyval \<Rightarrow> tool_versions result" where
  "validate_tools v =
     bindE (model_fields [''kind'', ''helm'', ''kubectlMinor'', ''dotnetSdkMajor'', ''pythonMinimum''] v) (\<lambda>d.
     bindE (mapE (str_field d) [''kind'', ''helm'', ''kubectlMinor'', ''dotnetSdkMajor'', ''pythonMinimum'']) (\<lambda>texts.
     Inr \<lparr>kind_version = texts ! 0, helm_version = texts ! 1, kubectl_minor = texts ! 2,
          dotnet_sdk_major = texts ! 3, python_minimum = texts ! 4\<rparr>))"

definition validate_kubernetes :: "pyval \<Rightarrow> string result" where
  "validate_kubernetes v =
     bindE (model_fields [''nodeImage''] v) (\<lambda>d. pinned_field require_digest d ''nodeImage'')"

definition validate_gateway_api :: "pyval \<Rightarrow> (string \<times> string) result" where
  "validate_gateway_api v =
     bindE (model_fields [''version'', ''standardCrds''] v) (\<lambda>d.
     bindE (str_field d ''version'') (\<lambda>a. bindE (str_field d ''standardCrds'') (\<lambda>b. Inr (a, b))))"

definition validate_chart :: "pyval \<Rightarrow> chart_pin result" where
  "validate_chart v =
     bindE (model_fields [''repository'', ''chart'', ''version''] v) (\<lambda>d.
     bindE (str_field d ''repository'') (\<lambda>a. bindE (str_field d ''chart'') (\<lambda>b.
     bindE (str_field d ''version'') (\<lambda>c.
     Inr \<lparr>chart_repository = a, chart_name = b, chart_version = c\<rparr>))))"

definition validate_charts :: "pyval \<Rightarrow> (chart_pin \<times> chart_pin \<times> chart_pin) result" where
  "validate_charts v =
     bindE (model_fields [''kong'', ''opensearch'', ''prometheus''] v) (\<lambda>d.
     bindE (validate_chart (attr d ''kong'')) (\<lambda>a. bindE (validate_chart (attr d ''opensearch'')) (\<lambda>b.
     bindE (validate_chart (attr d ''prometheus'')) (\<lambda>c. Inr (a, b, c)))))"

definition IMAGE_FIELDS :: "string list" where
  "IMAGE_FIELDS = [''kongGateway'', ''kongIngressController'', ''keycloak'', ''jaeger'', ''jaegerIndexCleaner'',
     ''opensearch'', ''prometheus'', ''probe'', ''dotnetSdk'', ''dotnetRuntime'']"

definition validate_images :: "pyval \<Rightarrow> image_versions result" where
  "validate_images v =
     bindE (model_fields IMAGE_FIELDS v) (\<lambda>d.
     bindE (mapE (pinned_field require_tag d) IMAGE_FIELDS) (\<lambda>im.
     Inr \<lparr>kong_gateway = im ! 0, kong_controller = im ! 1, keycloak_image = im ! 2, jaeger_image = im ! 3,
          index_cleaner_image = im ! 4, opensearch_image = im ! 5, prometheus_image = im ! 6,
          probe_image = im ! 7, dotnet_sdk = im ! 8, dotnet_runtime = im ! 9\<rparr>))"

definition validate_manifest :: "pyval \<Rightarrow> version_manifest result" where
  "validate_manifest v =
     bindE (model_fields [''schemaVersion'', ''tools'', ''kubernetes'', ''gatewayApi'', ''charts'', ''images''] v) (\<lambda>d.
     bindE (int_field d ''schemaVersion'') (\<lambda>n.
     bindE (validate_tools (attr d ''tools'')) (\<lambda>t.
     bindE (validate_kubernetes (attr d ''kubernetes'')) (\<lambda>k.
     bindE (validate_gateway_api (attr d ''gatewayApi'')) (\<lambda>(g, crds).
     bindE (validate_charts (attr d ''charts'')) (\<lambda>(kong, opensearch, prometheus).
     bindE (validate_images (attr d ''images'')) (\<lambda>im.
     Inr \<lparr>schema_version = n, tools = t, node_image = k, gateway_api_version = g, standard_crds = crds,
          kong_chart = kong, opensearch_chart = opensearch, prometheus_chart = prometheus, images = im\<rparr>)))))))"

definition parse_manifest :: "(string \<Rightarrow> pyval result) \<Rightarrow> string \<Rightarrow> version_manifest result" where
  "parse_manifest yaml text = bindE (yaml text) validate_manifest"

definition load_manifest :: "'k host \<Rightarrow> ('k world, version_manifest) act" where
  "load_manifest h =
     bindA (call (read_text h (deploy_dir h @ ''/versions.yaml''))) (\<lambda>text. liftE (parse_manifest (parse_yaml h) text))"

lemma only_load_manifest: "steps (only evs) (load_manifest h)"
  by (auto simp: load_manifest_def intro!: few.steps_intros only_call)

subsection \<open>What an accepted manifest pins\<close>

lemma require_tag_iff:
  "require_tag v = Inr u \<longleftrightarrow>
     u = v \<and> (CHR '':'' \<in> set (image_base v) \<or> CHR ''@'' \<in> set (image_base v)) \<and> \<not> suffix '':latest'' (image_base v)"
  by (auto simp: require_tag_def Let_def)

lemma image_base_split:
  "\<exists>path. v = path @ image_base v \<and> CHR ''/'' \<notin> set (image_base v)"
proof (cases "CHR ''/'' \<in> set v")
  case True
  then obtain p t where "v = p @ CHR ''/'' # t" "CHR ''/'' \<notin> set t" "rpartition CHR ''/'' v = (p, t)"
    by (rule rpartition_split)
  then show ?thesis by (intro exI [of _ "p @ ''/''"]) (simp add: image_base_def)
qed (simp add: image_base_def rpartition_no_sep)

text \<open>
  An image with a colon after its last slash is split at that colon or a later one, so the port of a
  registry never becomes a tag and joining the parts gives the image again.
\<close>

lemma split_image_base:
  assumes "CHR '':'' \<in> set (image_base v)"
  shows "\<exists>repository tag. split_image v = (repository, tag) \<and> v = repository @ CHR '':'' # tag \<and>
    CHR ''/'' \<notin> set tag \<and> CHR '':'' \<notin> set tag"
proof -
  obtain path where v: "v = path @ image_base v" "CHR ''/'' \<notin> set (image_base v)"
    using image_base_split by blast
  obtain n t where b: "image_base v = n @ CHR '':'' # t" "CHR '':'' \<notin> set t"
    using rpartition_split [OF assms] by metis
  have "v = (path @ n) @ CHR '':'' # t" using v(1) b(1) by simp
  then have "split_image v = (path @ n, t)" unfolding split_image_def using rpartition_append [OF b(2)] by metis
  moreover have "CHR ''/'' \<notin> set t" using v(2) b(1) by simp
  ultimately show ?thesis using \<open>v = (path @ n) @ CHR '':'' # t\<close> b(2) by blast
qed

lemma pinned_fieldD: "pinned_field rule d k = Inr v \<Longrightarrow> \<exists>s. str_field d k = Inr s \<and> rule s = Inr v"
  by (cases "str_field d k") (auto simp: pinned_field_def split: sum.splits)

definition images_of :: "image_versions \<Rightarrow> string list" where
  "images_of im = [kong_gateway im, kong_controller im, keycloak_image im, jaeger_image im, index_cleaner_image im,
     opensearch_image im, prometheus_image im, probe_image im, dotnet_sdk im, dotnet_runtime im]"

lemma length_fields: "length IMAGE_FIELDS = 10"
  by (simp add: IMAGE_FIELDS_def)

lemma validated_images:
  assumes "validate_images v = Inr im" and "i \<in> set (images_of im)"
  shows "require_tag i = Inr i"
proof -
  obtain d vs where vs: "mapE (pinned_field require_tag d) IMAGE_FIELDS = Inr vs"
    and im: "im = \<lparr>kong_gateway = vs ! 0, kong_controller = vs ! 1, keycloak_image = vs ! 2, jaeger_image = vs ! 3,
          index_cleaner_image = vs ! 4, opensearch_image = vs ! 5, prometheus_image = vs ! 6,
          probe_image = vs ! 7, dotnet_sdk = vs ! 8, dotnet_runtime = vs ! 9\<rparr>"
    using assms(1) by (auto simp: validate_images_def bindE_Inr_iff)
  have tagged: "require_tag (vs ! n) = Inr (vs ! n)" if "n < 10" for n
  proof -
    have "pinned_field require_tag d (IMAGE_FIELDS ! n) = Inr (vs ! n)"
      using list_all2_nthD [OF conjunct2 [OF mapE_InrD [OF vs]], of n] that by (simp add: length_fields)
    then show ?thesis using pinned_fieldD require_tag_iff by metis
  qed
  have "i \<in> (!) vs ` {0, 1, 2, 3, 4, 5, 6, 7, 8, 9}" using assms(2) unfolding im images_of_def by auto
  then show ?thesis using tagged by auto
qed

lemma validated_parts:
  assumes "validate_manifest v = Inr m"
  shows "\<exists>d. validate_images (attr d ''images'') = Inr (images m)" and "\<exists>d. validate_kubernetes (attr d ''kubernetes'') = Inr (node_image m)"
  using assms by (auto simp: validate_manifest_def bindE_Inr_iff split: prod.splits)

text \<open>
  A validated manifest pins what is deployed: the node image has a digest, no image floats
  with \<open>latest\<close>, and \<open>split_image\<close> takes every image with a colon in its last part to a repository and a
  tag that make up the image, where the tag has no slash (the port of a registry is not mistaken for one).
\<close>

theorem manifest_pins_images:
  assumes "validate_manifest v = Inr m" and "i \<in> set (images_of (images m))" and "CHR '':'' \<in> set (image_base i)"
  shows "sublist ''@sha256:'' (node_image m) \<and>
    (\<exists>repository tag. split_image i = (repository, tag) \<and> i = repository @ CHR '':'' # tag \<and>
       CHR ''/'' \<notin> set tag \<and> tag \<noteq> ''latest'')"
proof -
  obtain d where "validate_images (attr d ''images'') = Inr (images m)" using validated_parts(1) [OF assms(1)] by blast
  then have "require_tag i = Inr i" using validated_images assms(2) by blast
  then have floats: "\<not> suffix '':latest'' (image_base i)" by (simp add: require_tag_iff)
  obtain repository tag where split: "split_image i = (repository, tag)" "i = repository @ CHR '':'' # tag"
    "CHR ''/'' \<notin> set tag" "CHR '':'' \<notin> set tag"
    using split_image_base [OF assms(3)] by blast
  have "tag \<noteq> ''latest''"
  proof
    assume "tag = ''latest''"
    obtain path where path: "i = path @ image_base i" using image_base_split by blast
    have "suffix '':latest'' i" unfolding split(2) \<open>tag = _\<close> by (simp add: suffix_def)
    moreover have "suffix (image_base i) i" using path by (metis suffix_def)
    ultimately have "suffix '':latest'' (image_base i) \<or> suffix (image_base i) '':latest''"
      by (metis suffix_same_cases)
    then show False using floats assms(3) \<open>tag = _\<close> by (auto simp: suffix_Cons)
  qed
  moreover obtain e where "validate_kubernetes (attr e ''kubernetes'') = Inr (node_image m)"
    using validated_parts(2) [OF assms(1)] by blast
  then have "sublist ''@sha256:'' (node_image m)"
    using pinned_fieldD [of require_digest _ "''nodeImage''"]
    by (fastforce simp: validate_kubernetes_def bindE_Inr_iff require_digest_def split: if_splits)
  ultimately show ?thesis using split by blast
qed

text \<open>The shape of \<open>deploy/versions.yaml\<close> with an image from a registry that has a port.\<close>

definition sample_manifest :: pyval where
  "sample_manifest = PDict
     [(''schemaVersion'', PInt 1),
      (''tools'', PDict [(''kind'', PStr ''v0.29.0''), (''helm'', PStr ''v3''), (''kubectlMinor'', PStr ''1.33''),
         (''dotnetSdkMajor'', PStr ''10''), (''pythonMinimum'', PStr ''3.12'')]),
      (''kubernetes'', PDict [(''nodeImage'', PStr ''kindest/node:v1.33.1@sha256:050072256b9a'')]),
      (''gatewayApi'', PDict [(''version'', PStr ''v1.3.0''), (''standardCrds'', PStr ''deploy/crds.yaml'')]),
      (''charts'', PDict (map (\<lambda>c. (c, PDict [(''repository'', PStr ''https://charts''), (''chart'', PStr c), (''version'', PStr ''1.0.0'')]))
         [''kong'', ''opensearch'', ''prometheus''])),
      (''images'', PDict (map (\<lambda>i. (i, PStr (''localhost:5000/'' @ i @ '':1.2''))) IMAGE_FIELDS))]"

definition sample_versions :: version_manifest where
  "sample_versions = (case validate_manifest sample_manifest of Inr m \<Rightarrow> m | Inl _ \<Rightarrow> undefined)"

lemma sample_validates: "validate_manifest sample_manifest = Inr sample_versions"
proof -
  have "\<not> isl (validate_manifest sample_manifest)" by code_simp
  then show ?thesis by (cases "validate_manifest sample_manifest") (simp_all add: sample_versions_def)
qed

theorem manifest_pins_images_witness:
  "\<exists>repository tag. split_image ''localhost:5000/keycloak:1.2'' = (repository, tag) \<and>
     ''localhost:5000/keycloak:1.2'' = repository @ CHR '':'' # tag \<and> CHR ''/'' \<notin> set tag \<and> tag \<noteq> ''latest''"
proof -
  have "''localhost:5000/keycloak:1.2'' \<in> set (images_of (images sample_versions))"
    "CHR '':'' \<in> set (image_base ''localhost:5000/keycloak:1.2'')"
    unfolding sample_versions_def by code_simp+
  from manifest_pins_images [OF sample_validates this] show ?thesis by blast
qed

end
