(* ===== verification/Probes.thy ===== *)
theory Probes
  imports Versions
begin

section \<open>Network probes (probes.py)\<close>

text \<open>
  A probe is a pod that carries the labels of a network identity, runs one shell script and is deleted
  again. The scripts are texts for the shell of the probe image; the first part models the fragment of the
  shell they use, its text and what it prints, so that the theorems can say what a script tells the code
  that parses its output.
\<close>

subsection \<open>The shell of the scripts\<close>

datatype sh =
    Nc int string int
  | Wget int string
  | Echo string
  | EchoStatus string
  | Then sh sh
  | IfElse sh sh sh

text \<open>How a command is written. Texts in double quotes contain nothing the shell expands.\<close>

fun sh_text :: "sh \<Rightarrow> string" where
  "sh_text (Nc wait host port) = ''nc -z -w '' @ show_int wait @ '' '' @ host @ '' '' @ show_int port"
| "sh_text (Wget wait url) = ''wget -q -O - -T '' @ show_int wait @ '' '' @ CHR 0x22 # url @ [CHR 0x22]"
| "sh_text (Echo text) = (if text = [] then ''echo'' else ''echo '' @ CHR 0x22 # text @ [CHR 0x22])"
| "sh_text (EchoStatus text) = ''echo '' @ CHR 0x22 # text @ '' $?'' @ [CHR 0x22]"
| "sh_text (Then a b) = sh_text a @ ''; '' @ sh_text b"
| "sh_text (IfElse c a b) = ''if '' @ sh_text c @ ''; then '' @ sh_text a @ ''; else '' @ sh_text b @ ''; fi''"

text \<open>
  What a pod can reach, and what \<open>wget\<close> exits with and prints. A command maps the status \<open>$?\<close> before it to
  the status after it and what it prints.
\<close>

record net =
  reach :: "string \<Rightarrow> int \<Rightarrow> bool"
  fetch :: "string \<Rightarrow> int \<times> string"

fun sh_run :: "net \<Rightarrow> sh \<Rightarrow> int \<Rightarrow> int \<times> string" where
  "sh_run n (Nc _ host port) _ = (if reach n host port then 0 else 1, [])"
| "sh_run n (Wget _ url) _ = fetch n url"
| "sh_run n (Echo text) _ = (0, text @ [newline])"
| "sh_run n (EchoStatus text) status = (0, text @ '' '' @ show_int status @ [newline])"
| "sh_run n (Then a b) status =
     (let (s1, out1) = sh_run n a status; (s2, out2) = sh_run n b s1 in (s2, out1 @ out2))"
| "sh_run n (IfElse c a b) status =
     (let (s1, out1) = sh_run n c status; (s2, out2) = sh_run n (if s1 = 0 then a else b) s1 in (s2, out1 @ out2))"

text \<open>A script is a list of lines.\<close>

definition script_text :: "sh list \<Rightarrow> string" where
  "script_text lines = join [newline] (map sh_text lines)"

fun script_output :: "net \<Rightarrow> int \<Rightarrow> sh list \<Rightarrow> string" where
  "script_output n status [] = []"
| "script_output n status (c # cs) = (let (s, out) = sh_run n c status in out @ script_output n s cs)"

subsection \<open>TCP probes\<close>

record target =
  target_host :: string
  target_port :: int

definition target_text :: "target \<Rightarrow> string" where
  "target_text t = target_host t @ CHR '':'' # show_int (target_port t)"

definition build_probe_script :: "target list \<Rightarrow> int \<Rightarrow> string" where
  "build_probe_script targets connect_timeout =
     join [newline] (map (\<lambda>t.
       ''if nc -z -w '' @ show_int connect_timeout @ '' '' @ target_host t @ '' '' @ show_int (target_port t) @
       ''; then echo '' @ CHR 0x22 # ''PROBE OK '' @ target_text t @ CHR 0x22 #
       ''; else echo '' @ CHR 0x22 # ''PROBE BLOCKED '' @ target_text t @ CHR 0x22 # ''; fi'') targets)"

definition probe_line :: "(string, bool) dict \<Rightarrow> string \<Rightarrow> (string, bool) dict" where
  "probe_line results line =
     (case words_of (strip line) of
        [a, b, t] \<Rightarrow> if a = ''PROBE'' \<and> b \<in> {''OK'', ''BLOCKED''} then dict_put t (b = ''OK'') results else results
      | _ \<Rightarrow> results)"

definition parse_probe_output :: "string \<Rightarrow> (string, bool) dict" where
  "parse_probe_output text = foldl probe_line [] (splitlines text)"

subsection \<open>HTTP probes\<close>

definition begin_marker :: "nat \<Rightarrow> string" where "begin_marker i = ''PROBE-HTTP-BEGIN '' @ show_nat i"
definition end_marker :: "nat \<Rightarrow> string" where "end_marker i = ''PROBE-HTTP-END '' @ show_nat i"

definition build_http_probe_script :: "string list \<Rightarrow> int \<Rightarrow> string" where
  "build_http_probe_script urls timeout =
     join [newline] (concat (map (\<lambda>(i, url).
       [''echo '' @ CHR 0x22 # begin_marker i @ [CHR 0x22],
        ''wget -q -O - -T '' @ show_int timeout @ '' '' @ CHR 0x22 # url @ CHR 0x22 # ''; echo; echo '' @
        CHR 0x22 # end_marker i @ '' $?'' @ [CHR 0x22]])
       (enumerate 0 urls)))"

text \<open>\<open>s.find(sub, start)\<close>, with \<open>None\<close> for -1.\<close>

fun find_sub :: "string \<Rightarrow> string \<Rightarrow> nat option" where
  "find_sub sub [] = (if sub = [] then Some 0 else None)"
| "find_sub sub (c # cs) = (if prefix sub (c # cs) then Some 0 else map_option Suc (find_sub sub cs))"

definition find_from :: "string \<Rightarrow> string \<Rightarrow> nat \<Rightarrow> nat option" where
  "find_from s sub start = map_option (\<lambda>i. start + i) (find_sub sub (drop start s))"

definition probe_result :: "string \<Rightarrow> nat \<Rightarrow> bool \<times> string" where
  "probe_result text i =
     (case find_sub (begin_marker i @ [newline]) text of
        None \<Rightarrow> (False, [])
      | Some b \<Rightarrow>
          (case find_from text (end_marker i @ '' '') b of
             None \<Rightarrow> (False, [])
           | Some e \<Rightarrow>
               let from = b + length (begin_marker i @ [newline]);
                   body = strip (take (e - from) (drop from text));
                   exit_code = strip (takeWhile (\<lambda>c. c \<noteq> newline) (drop (e + length (end_marker i @ '' '')) text))
               in (exit_code = ''0'', body)))"

definition parse_http_probe_output :: "string \<Rightarrow> nat \<Rightarrow> (bool \<times> string) list" where
  "parse_http_probe_output text n = map (probe_result text) [0..<n]"

subsection \<open>The pod of a probe\<close>

definition IDENTITY_LABEL :: string where "IDENTITY_LABEL = ''txplatform.io/network-identity''"

text \<open>The extra labels override the two of every probe; an absent or empty identity adds no label.\<close>

definition probe_labels :: "string option \<Rightarrow> (string, string) dict \<Rightarrow> (string, string) dict" where
  "probe_labels ident extra =
     (let labels = foldl (\<lambda>d (k, v). dict_put k v d)
            [(''app.kubernetes.io/part-of'', ''txplatform''), (''txplatform.io/probe'', ''true'')] extra in
      case ident of None \<Rightarrow> labels | Some i \<Rightarrow> if i = [] then labels else dict_put IDENTITY_LABEL i labels)"

definition probe_spec :: "(string, string) dict \<Rightarrow> string \<Rightarrow> string \<Rightarrow> pod_spec" where
  "probe_spec labels img script =
     \<lparr>spec_labels = labels, spec_image = img, spec_command = [''sh'', ''-c'', script], run_as_non_root = True,
      run_as_user = 65534, run_as_group = 65534, seccomp_profile = ''RuntimeDefault'',
      allow_privilege_escalation = False, read_only_root = True, dropped_capabilities = [''ALL''],
      mounts_token = False, restart_policy = ''Never'',
      resource_requests = [(''cpu'', ''10m''), (''memory'', ''8Mi'')],
      resource_limits = [(''cpu'', ''100m''), (''memory'', ''32Mi'')]\<rparr>"

definition probe_finished :: "'k host \<Rightarrow> string \<Rightarrow> string \<Rightarrow> ('k world, bool) act" where
  "probe_finished h ns name =
     bindA (call (read_pod_phase h name ns)) (\<lambda>phase. ret (phase \<in> {''Succeeded'', ''Failed''}))"

definition delete_probe :: "'k host \<Rightarrow> string \<Rightarrow> string \<Rightarrow> ('k world, unit) act" where
  "delete_probe h ns name =
     catchA (effect (ProbeDeleted ns name) (delete_pod_at_once h name ns))
       (\<lambda>e. case e of ApiException _ \<Rightarrow> ret () | _ \<Rightarrow> raise e)"

text \<open>What the two kinds of probe share: create the pod, wait for it, read its log, and delete it in any case.\<close>

definition in_probe_pod ::
  "'k host \<Rightarrow> string \<Rightarrow> string \<Rightarrow> (string, string) dict \<Rightarrow> string \<Rightarrow> real \<Rightarrow> (string \<Rightarrow> 'a result) \<Rightarrow> ('k world, 'a) act" where
  "in_probe_pod h ns kind labels script deadline evaluate =
     bindA (call (uuid_hex h)) (\<lambda>uuid.
     bindA (load_manifest h) (\<lambda>pins.
       let name = kind @ CHR ''-'' # take 8 uuid in
       bindA (effect (ProbeCreated ns name) (create_pod h ns name (probe_spec labels (probe_image (images pins)) script))) (\<lambda>_.
       finallyA
         (bindA (wait_for (cluster h) (truth (probe_finished h ns name)) deadline 1) (\<lambda>_.
          bindA (call (read_pod_log h name ns)) (\<lambda>logs. liftE (evaluate logs))))
         (delete_probe h ns name))))"

definition probe_answers :: "target list \<Rightarrow> string \<Rightarrow> (string, bool) dict result" where
  "probe_answers targets logs =
     (let results = parse_probe_output logs in
      if list_ex (\<lambda>t. dict_get results (target_text t) = None) targets then Inl RuntimeError else Inr results)"

definition run_tcp_probe ::
  "'k host \<Rightarrow> string \<Rightarrow> string option \<Rightarrow> target list \<Rightarrow> (string, string) dict \<Rightarrow> int \<Rightarrow> ('k world, (string, bool) dict) act" where
  "run_tcp_probe h ns ident targets extra connect_timeout =
     in_probe_pod h ns ''netprobe'' (probe_labels ident extra) (build_probe_script targets connect_timeout)
       (90 + of_nat (length targets) * of_int (connect_timeout + 2)) (probe_answers targets)"

definition run_http_probe ::
  "'k host \<Rightarrow> string \<Rightarrow> string option \<Rightarrow> string list \<Rightarrow> int \<Rightarrow> ('k world, (bool \<times> string) list) act" where
  "run_http_probe h ns ident urls timeout =
     in_probe_pod h ns ''httpprobe'' (probe_labels ident []) (build_http_probe_script urls timeout)
       (90 + of_nat (length urls) * of_int (timeout + 2)) (\<lambda>logs. Inr (parse_http_probe_output logs (length urls)))"

text \<open>Waiting for pods to disappear gives up silently at the deadline; the bound is the one of \<open>wait_for\<close>.\<close>

fun gone_poll :: "nat \<Rightarrow> 'k host \<Rightarrow> string \<Rightarrow> string \<Rightarrow> real \<Rightarrow> ('k world, unit) act" where
  "gone_poll 0 h ns sel deadline = ret ()"
| "gone_poll (Suc n) h ns sel deadline =
     bindA (call (monotonic_clock (cluster h))) (\<lambda>t.
       if t < deadline
       then bindA (call (list_pods (cluster h) ns sel)) (\<lambda>pods.
              if pods = [] then ret ()
              else bindA (call (sleep_for (cluster h) 1)) (\<lambda>_. gone_poll n h ns sel deadline))
       else ret ())"

definition wait_until_gone :: "'k host \<Rightarrow> string \<Rightarrow> string \<Rightarrow> real \<Rightarrow> ('k world, unit) act" where
  "wait_until_gone h ns sel timeout =
     bindA (call (monotonic_clock (cluster h))) (\<lambda>t. gone_poll (polls timeout 1) h ns sel (t + timeout))"

subsection \<open>What the TCP script reports is what was reachable\<close>

definition probe_command :: "int \<Rightarrow> target \<Rightarrow> sh" where
  "probe_command wait t =
     IfElse (Nc wait (target_host t) (target_port t)) (Echo (''PROBE OK '' @ target_text t)) (Echo (''PROBE BLOCKED '' @ target_text t))"

lemma build_probe_script_text: "build_probe_script targets wait = script_text (map (probe_command wait) targets)"
  by (simp add: build_probe_script_def script_text_def probe_command_def comp_def)

definition answer_line :: "net \<Rightarrow> target \<Rightarrow> string" where
  "answer_line n t = ''PROBE '' @ (if reach n (target_host t) (target_port t) then ''OK'' else ''BLOCKED'') @ '' '' @ target_text t"

lemma probe_output:
  "script_output n status (map (probe_command wait) targets) = concat (map (\<lambda>t. answer_line n t @ [newline]) targets)"
  by (induction targets arbitrary: status) (simp_all add: probe_command_def answer_line_def)

definition plain_word :: "string \<Rightarrow> bool" where
  "plain_word s \<longleftrightarrow> list_all (\<lambda>c. \<not> is_space c) s"

lemma break_is_space: "is_break c \<Longrightarrow> is_space c"
  by (auto simp: is_break_def is_space_def)

lemma words_acc_word:
  "plain_word u \<Longrightarrow> words_acc acc (u @ CHR '' '' # s) = (if rev acc @ u = [] then [] else [rev acc @ u]) @ words_acc [] s"
proof (induction u arbitrary: acc)
  case Nil
  have "is_space CHR '' ''" by code_simp
  then show ?case by simp
qed (simp add: plain_word_def)

lemma words_acc_last: "plain_word u \<Longrightarrow> words_acc acc u = (if rev acc @ u = [] then [] else [rev acc @ u])"
  by (induction u arbitrary: acc) (auto simp: plain_word_def)

lemma strip_plain_ends:
  assumes "s \<noteq> []" and "\<not> is_space (hd s)" and "\<not> is_space (last s)"
  shows "strip s = s"
proof -
  have "lstrip s = s" using assms(1,2) by (cases s) (simp_all add: lstrip_def)
  moreover have "lstrip (rev s) = rev s" using assms(1,3) by (cases s rule: rev_cases) (simp_all add: lstrip_def)
  ultimately show ?thesis by (simp add: strip_def)
qed

lemma digits_plain: "plain_word (show_int i)"
proof -
  have "\<not> is_space c" if "is_digit c" for c
    using that by (auto simp: is_digit_def is_space_def less_eq_char_def)
  moreover have "\<not> is_space CHR ''-''" by code_simp
  ultimately show ?thesis
    by (auto simp: plain_word_def show_int_def list_all_iff dest!: show_nat_is_digit)
qed

lemma target_plain: "plain_word (target_host t) \<Longrightarrow> plain_word (target_text t)"
proof -
  have "\<not> is_space CHR '':''" by code_simp
  then show "plain_word (target_host t) \<Longrightarrow> plain_word (target_text t)"
    using digits_plain [of "target_port t"] by (simp add: target_text_def plain_word_def)
qed

lemma answer_words:
  assumes "plain_word (target_host t)"
  shows "words_of (strip (answer_line n t)) =
    [''PROBE'', if reach n (target_host t) (target_port t) then ''OK'' else ''BLOCKED'', target_text t]"
proof -
  have plain: "plain_word (target_text t)" using assms by (rule target_plain)
  have ne: "target_text t \<noteq> []" by (simp add: target_text_def)
  have words: "plain_word ''PROBE''" "plain_word ''OK''" "plain_word ''BLOCKED''" "\<not> is_space CHR ''P''"
    unfolding plain_word_def by code_simp+
  have "\<not> is_space (last (target_text t))" using plain ne by (simp add: plain_word_def list_all_iff)
  then have "strip (answer_line n t) = answer_line n t"
    using ne words(4) by (intro strip_plain_ends) (simp_all add: answer_line_def)
  moreover have "words_acc [] (''PROBE'' @ CHR '' '' # v @ CHR '' '' # target_text t) = [''PROBE'', v, target_text t]"
    if "plain_word v" "v \<noteq> []" for v
    using words(1) plain ne that by (simp only: words_acc_word words_acc_last) simp
  ultimately show ?thesis
    using words(2,3) by (auto simp: words_of_def answer_line_def)
qed

lemma answer_lines:
  "list_all (\<lambda>t. plain_word (target_host t)) targets \<Longrightarrow>
   splitlines (concat (map (\<lambda>t. answer_line n t @ [newline]) targets)) = map (answer_line n) targets"
proof (induction targets)
  case Nil
  show ?case by (simp add: splitlines_def)
next
  case (Cons t ts)
  have "plain_word (target_text t)" using Cons.prems by (simp add: target_plain)
  moreover have "\<not> is_break CHR '' ''" by code_simp
  moreover have "list_all (\<lambda>c. \<not> is_break c) ''PROBEOKBLOCKED''" by code_simp
  ultimately have "\<forall>c \<in> set (answer_line n t). \<not> is_break c"
    by (auto simp: answer_line_def plain_word_def list_all_iff dest: break_is_space)
  then show ?case using Cons by (simp add: splitlines_line)
qed

lemma target_text_inj: "target_text t = target_text u \<Longrightarrow> target_host t = target_host u \<and> target_port t = target_port u"
proof -
  have colon: "CHR '':'' \<notin> set (show_int i)" for i
    using digits_plain [of i] by (auto simp: show_int_def dest!: show_nat_is_digit) (simp_all add: is_digit_def less_eq_char_def)
  assume "target_text t = target_text u"
  then have "rpartition CHR '':'' (target_text t) = rpartition CHR '':'' (target_text u)" by simp
  then have "target_host t = target_host u" "show_int (target_port t) = show_int (target_port u)"
    using colon by (simp_all add: target_text_def rpartition_append)
  then show ?thesis by (metis parse_int_show_int sum.inject(2))
qed

definition reported :: "net \<Rightarrow> target list \<Rightarrow> (string, bool) dict" where
  "reported n targets = foldl (\<lambda>d t. dict_put (target_text t) (reach n (target_host t) (target_port t)) d) [] targets"

lemma reported_snoc:
  "reported n (ts @ [t]) = dict_put (target_text t) (reach n (target_host t) (target_port t)) (reported n ts)"
  by (simp add: reported_def)

lemma reported_get:
  "t \<in> set ts \<Longrightarrow> dict_get (reported n ts) (target_text t) = Some (reach n (target_host t) (target_port t))"
proof (induction ts rule: rev_induct)
  case (snoc u ts)
  then show ?case using target_text_inj [of t u]
    by (cases "target_text t = target_text u") (auto simp: reported_snoc dict_get_put)
qed simp

lemma reported_keys: "dict_get (reported n ts) key \<noteq> None \<longleftrightarrow> key \<in> target_text ` set ts"
  by (induction ts rule: rev_induct) (auto simp: reported_snoc dict_get_put reported_def)

lemma probe_answers_reported:
  assumes "list_all (\<lambda>t. plain_word (target_host t)) targets"
  shows "probe_answers targets (script_output n 0 (map (probe_command wait) targets)) = Inr (reported n targets)"
proof -
  have read: "probe_line d (answer_line n t) = dict_put (target_text t) (reach n (target_host t) (target_port t)) d"
    if "plain_word (target_host t)" for d t
    using answer_words [OF that] by (simp add: probe_line_def)
  have "foldl probe_line d (map (answer_line n) ts) =
      foldl (\<lambda>d t. dict_put (target_text t) (reach n (target_host t) (target_port t)) d) d ts"
    if "list_all (\<lambda>t. plain_word (target_host t)) ts" for d ts
    using that by (induction ts arbitrary: d) (simp_all add: read)
  then have "parse_probe_output (script_output n 0 (map (probe_command wait) targets)) = reported n targets"
    using assms by (simp add: parse_probe_output_def probe_output answer_lines reported_def)
  moreover have "\<not> list_ex (\<lambda>t. dict_get (reported n targets) (target_text t) = None) targets"
    by (auto simp: list_ex_iff reported_get)
  ultimately show ?thesis by (simp only: probe_answers_def Let_def if_False)
qed

text \<open>
  Property C20. A TCP probe reports the truth: whatever the network lets through, what the pod prints when the
  shell runs the script that was built for the targets is read back as one answer per target, which says
  whether that target was reachable, and as nothing else; so the probe is not rejected as incomplete.
\<close>

theorem tcp_probe_roundtrip:
  assumes "list_all (\<lambda>t. plain_word (target_host t)) targets"
  shows "\<exists>script results. build_probe_script targets wait = script_text script \<and>
    probe_answers targets (script_output n 0 script) = Inr results \<and>
    list_all (\<lambda>t. dict_get results (target_text t) = Some (reach n (target_host t) (target_port t))) targets \<and>
    {key. dict_get results key \<noteq> None} = set (map target_text targets)"
proof (intro exI conjI)
  show "build_probe_script targets wait = script_text (map (probe_command wait) targets)" by (rule build_probe_script_text)
  show "probe_answers targets (script_output n 0 (map (probe_command wait) targets)) = Inr (reported n targets)"
    using assms by (rule probe_answers_reported)
  show "list_all (\<lambda>t. dict_get (reported n targets) (target_text t) = Some (reach n (target_host t) (target_port t))) targets"
    by (simp add: list_all_iff reported_get)
  show "{key. dict_get (reported n targets) key \<noteq> None} = set (map target_text targets)"
    by (simp only: reported_keys set_map Collect_mem_eq)
qed

definition sample_targets :: "target list" where
  "sample_targets = [\<lparr>target_host = ''kafka'', target_port = 9092\<rparr>, \<lparr>target_host = ''kafka'', target_port = 9093\<rparr>,
     \<lparr>target_host = ''10.0.0.7'', target_port = 443\<rparr>]"

theorem tcp_probe_roundtrip_witness:
  "\<exists>script results. build_probe_script sample_targets 3 = script_text script \<and>
    probe_answers sample_targets (script_output \<lparr>reach = (\<lambda>_ p. p = 443), fetch = (\<lambda>_. (0, []))\<rparr> 0 script) = Inr results \<and>
    map (\<lambda>t. dict_get results (target_text t)) sample_targets = [Some False, Some False, Some True]"
proof -
  let ?n = "\<lparr>reach = (\<lambda>_ p. p = 443), fetch = (\<lambda>_. (0, []))\<rparr>"
  have "list_all (\<lambda>t. plain_word (target_host t)) sample_targets" unfolding sample_targets_def plain_word_def by code_simp
  from tcp_probe_roundtrip [OF this, of 3 ?n] obtain script results
    where "build_probe_script sample_targets 3 = script_text script" "probe_answers sample_targets (script_output ?n 0 script) = Inr results"
    and "list_all (\<lambda>t. dict_get results (target_text t) = Some (reach ?n (target_host t) (target_port t))) sample_targets"
    by blast
  moreover from this(3) have "map (\<lambda>t. dict_get results (target_text t)) sample_targets = [Some False, Some False, Some True]"
    by (simp add: sample_targets_def)
  ultimately show ?thesis by (intro exI conjI)
qed

subsection \<open>What the HTTP script reports\<close>

definition http_commands :: "int \<Rightarrow> nat \<times> string \<Rightarrow> sh list" where
  "http_commands wait = (\<lambda>(i, url). [Echo (begin_marker i), Then (Wget wait url) (Then (Echo []) (EchoStatus (end_marker i)))])"

lemma http_texts:
  "map sh_text (http_commands wait (i, url)) =
    [''echo '' @ CHR 0x22 # begin_marker i @ [CHR 0x22],
     ''wget -q -O - -T '' @ show_int wait @ '' '' @ CHR 0x22 # url @ CHR 0x22 # ''; echo; echo '' @
     CHR 0x22 # end_marker i @ '' $?'' @ [CHR 0x22]]"
  by (simp add: http_commands_def begin_marker_def end_marker_def)

lemma build_http_script_text:
  "build_http_probe_script urls wait = script_text (concat (map (http_commands wait) (enumerate 0 urls)))"
  unfolding build_http_probe_script_def script_text_def map_concat map_map comp_def
  by (rule arg_cong [where f = "\<lambda>ls. join [newline] (concat ls)"], rule map_cong [OF refl]) (auto simp only: http_texts split: prod.splits)

lemma find_sub_here: "find_sub sub (sub @ s) = Some 0"
proof (cases "sub @ s")
  case (Cons c cs)
  then have "prefix sub (c # cs)" by (metis prefixI)
  then show ?thesis by (simp add: Cons)
qed simp

lemma find_sub_after:
  assumes "\<not> sublist sub (pre @ butlast sub)" and "sub \<noteq> []"
  shows "find_sub sub (pre @ sub @ s) = Some (length pre)"
  using assms(1)
proof (induction pre)
  case Nil
  show ?case using find_sub_here [of sub s] by simp
next
  case (Cons c pre)
  have "\<not> prefix sub (c # pre @ sub @ s)"
  proof
    assume p: "prefix sub (c # pre @ sub @ s)"
    have whole: "c # pre @ sub @ s = (c # pre @ butlast sub) @ last sub # s" using assms(2) by simp
    have "length sub \<le> length (c # pre @ butlast sub)" using assms(2) by simp
    moreover have "prefix (c # pre @ butlast sub) (c # pre @ sub @ s)" unfolding whole by (rule prefixI) simp
    ultimately have "prefix sub (c # pre @ butlast sub)" using p by (metis prefix_length_prefix)
    then show False using Cons.prems by (auto dest: prefix_imp_sublist)
  qed
  moreover have "\<not> sublist sub (pre @ butlast sub)"
    using Cons.prems by (auto simp: sublist_Cons_right)
  ultimately show ?case using Cons.IH by simp
qed

lemma sublist_lines:
  assumes "c \<notin> set sub"
  shows "sublist sub (u @ c # v) \<longleftrightarrow> sublist sub u \<or> sublist sub v"
proof -
  have "prefix xs (c # v) \<longleftrightarrow> xs = []" if "c \<notin> set xs" for xs using that by (cases xs) auto
  moreover have "c \<notin> set xs1 \<and> c \<notin> set xs2" if "sub = xs1 @ xs2" for xs1 xs2 using assms that by simp
  ultimately show ?thesis
    using assms by (auto simp: sublist_append sublist_Cons_right intro: suffix_imp_sublist)
qed

lemma strip_newline: "strip (s @ [newline]) = strip s"
proof -
  have nl: "is_space newline" by code_simp
  show ?thesis
  proof (cases "\<forall>c \<in> set s. is_space c")
    case True
    then have "lstrip s = []" "lstrip (s @ [newline]) = []"
      using nl by (auto simp: lstrip_def dropWhile_eq_Nil_conv)
    then show ?thesis by (simp add: strip_def)
  next
    case False
    then have "lstrip (s @ [newline]) = lstrip s @ [newline]"
      by (auto simp: lstrip_def dropWhile_append)
    then show ?thesis using nl by (simp add: strip_def) (simp add: lstrip_def)
  qed
qed

text \<open>
  An HTTP probe never reports a failure: the script prints \<open>$?\<close> after an \<open>echo\<close>, so it prints
  the status of the echo. Whatever \<open>wget\<close> exits with, the page it fetched is reported as a success.
\<close>

theorem http_probe_ignores_exit_code:
  assumes "\<not> sublist (end_marker 0 @ '' '') body"
  shows "\<exists>script. build_http_probe_script [url] wait = script_text script \<and>
    parse_http_probe_output (script_output \<lparr>reach = r, fetch = (\<lambda>_. (code, body))\<rparr> 0 script) 1 = [(True, strip body)]"
proof (intro exI conjI)
  let ?script = "http_commands wait (0, url)"
  show "build_http_probe_script [url] wait = script_text ?script" by (simp add: build_http_script_text)
  let ?mark = "end_marker 0 @ '' ''" and ?first = "begin_marker 0 @ [newline]"
  let ?text = "script_output \<lparr>reach = r, fetch = (\<lambda>_. (code, body))\<rparr> 0 ?script"
  let ?pre = "?first @ body @ [newline]"
  have printed: "?text = ?pre @ ?mark @ ''0'' @ [newline]"
    by (simp add: http_commands_def show_int_def show_nat_0)
  have marks: "newline \<notin> set ?mark" "\<not> sublist ?mark (begin_marker 0)" "?mark \<noteq> []"
    unfolding end_marker_def begin_marker_def newline_def by code_simp+
  have "\<not> sublist ?mark (butlast ?mark)" by (auto dest: sublist_length_le)
  then have "\<not> sublist ?mark (begin_marker 0 @ newline # body @ newline # butlast ?mark)"
    using marks(2) assms sublist_lines [OF marks(1), of "begin_marker 0" "body @ newline # butlast ?mark"]
      sublist_lines [OF marks(1), of body "butlast ?mark"] by blast
  then have "find_sub ?mark ?text = Some (length ?pre)"
    unfolding printed using find_sub_after [of ?mark ?pre "''0'' @ [newline]"] marks(3) by simp
  moreover have "find_sub ?first ?text = Some 0" unfolding printed using find_sub_here [of ?first] by simp
  moreover have "strip (takeWhile (\<lambda>c. c \<noteq> newline) (''0'' @ [newline])) = ''0''"
    unfolding newline_def by code_simp
  moreover have "strip (body @ [newline]) = strip body" by (rule strip_newline)
  moreover have "drop (length ?pre + length ?mark) ?text = ''0'' @ [newline]"
    unfolding printed by (metis append_assoc append_eq_conv_conj length_append)
  moreover have "take (length ?pre - length ?first) (drop (length ?first) ?text) = body @ [newline]"
    unfolding printed by simp
  ultimately have "probe_result ?text 0 = (True, strip body)"
    by (simp only: probe_result_def find_from_def drop_0 option.case option.map Let_def add_0 prod.inject simp_thms)
  then show "parse_http_probe_output ?text 1 = [(True, strip body)]" by (simp add: parse_http_probe_output_def)
qed

theorem http_probe_ignores_exit_code_witness:
  "\<exists>script. build_http_probe_script [''http://jaeger:16686''] 5 = script_text script \<and>
    parse_http_probe_output (script_output \<lparr>reach = (\<lambda>_ _. False), fetch = (\<lambda>_. (1, []))\<rparr> 0 script) 1 = [(True, [])]"
proof -
  have "\<not> sublist (end_marker 0 @ '' '') []" by simp
  from http_probe_ignores_exit_code [OF this, of "''http://jaeger:16686''" 5 "\<lambda>_ _. False" 1]
  show ?thesis by (simp add: strip_def lstrip_def)
qed

subsection \<open>No probe is left behind\<close>

lemma only_trail: "only {} w w' \<Longrightarrow> trail w' = trail w"
  by (auto simp: only_def)

lemma delete_probe_trail: "delete_probe h ns name w = (r, w') \<Longrightarrow> trail w' = trail w @ [ProbeDeleted ns name]"
proof -
  obtain r1 w1 where e: "effect (ProbeDeleted ns name) (delete_pod_at_once h name ns) w = (r1, w1)"
    by (cases "effect (ProbeDeleted ns name) (delete_pod_at_once h name ns) w")
  then have "trail w1 = trail w @ [ProbeDeleted ns name]" using effect_keeps(4) by (metis snd_conv)
  moreover assume "delete_probe h ns name w = (r, w')"
  ultimately show ?thesis using e by (auto simp: delete_probe_def catchA_def split: sum.splits exn.splits)
qed

definition probe_trail :: "'k host \<Rightarrow> string \<Rightarrow> exn + 'a \<Rightarrow> event list \<Rightarrow> bool" where
  "probe_trail h ns r new \<longleftrightarrow>
     (isl r \<and> new = []) \<or>
     (\<exists>name spec k k' e. create_pod h ns name spec k = (Inl e, k') \<and> r = Inl e \<and> new = [ProbeCreated ns name]) \<or>
     (\<exists>name spec k k'. create_pod h ns name spec k = (Inr (), k') \<and> new = [ProbeCreated ns name, ProbeDeleted ns name])"

lemma probe_pod_trail:
  assumes "in_probe_pod h ns kind labels script deadline evaluate w = (r, w')"
  shows "\<exists>new. trail w' = trail w @ new \<and> probe_trail h ns r new"
proof -
  obtain u w1 where u: "call (uuid_hex h) w = (u, w1)" by (cases "call (uuid_hex h) w")
  then have t1: "trail w1 = trail w" using only_trail stepsD only_call by metis
  show ?thesis
  proof (cases u)
    case (Inl e)
    then show ?thesis using assms u t1 by (auto simp: in_probe_pod_def bindA_Inl probe_trail_def)
  next
    case (Inr uuid)
    obtain m w2 where m: "load_manifest h w1 = (m, w2)" by (cases "load_manifest h w1")
    then have t2: "trail w2 = trail w1" using only_trail stepsD only_load_manifest by metis
    show ?thesis
    proof (cases m)
      case (Inl e)
      then show ?thesis using assms u Inr m t1 t2
        by (auto simp: in_probe_pod_def bindA_Inr bindA_Inl probe_trail_def)
    next
      case pins: (Inr pins)
      let ?name = "kind @ CHR ''-'' # take 8 uuid"
      let ?spec = "probe_spec labels (probe_image (images pins)) script"
      obtain c k where c: "create_pod h ns ?name ?spec (ext w2) = (c, k)" by (cases "create_pod h ns ?name ?spec (ext w2)")
      define w3 where "w3 = w2\<lparr>trail := trail w2 @ [ProbeCreated ns ?name], ext := k\<rparr>"
      have created: "effect (ProbeCreated ns ?name) (create_pod h ns ?name ?spec) w2 = (c, w3)"
        using c by (simp add: effect_def call_def w3_def)
      have t3: "trail w3 = trail w @ [ProbeCreated ns ?name]" by (simp add: w3_def t1 t2)
      show ?thesis
      proof (cases c)
        case (Inl e)
        then have "r = Inl e \<and> w' = w3" using assms u \<open>u = Inr uuid\<close> m pins created
          by (simp add: in_probe_pod_def bindA_Inr bindA_Inl Let_def)
        then show ?thesis using t3 c Inl unfolding probe_trail_def by blast
      next
        case made: (Inr x)
        let ?body = "bindA (wait_for (cluster h) (truth (probe_finished h ns ?name)) deadline 1) (\<lambda>_.
          bindA (call (read_pod_log h ?name ns)) (\<lambda>logs. liftE (evaluate logs)))"
        obtain b w4 where b: "?body w3 = (b, w4)" by (cases "?body w3")
        have "steps (only {}) ?body"
          by (auto simp: probe_finished_def intro!: few.steps_intros only_call only_wait_for only_truth)
        then have t4: "trail w4 = trail w3" using b only_trail stepsD by metis
        have fin: "finallyA ?body (delete_probe h ns ?name) w3 = (r, w')"
          using assms u \<open>u = Inr uuid\<close> m pins created made by (simp add: in_probe_pod_def bindA_Inr Let_def)
        obtain d w5 where d: "delete_probe h ns ?name w4 = (d, w5)" by (cases "delete_probe h ns ?name w4")
        have "w' = w5" using fin b d by (auto simp: finallyA_def split: sum.splits)
        then have "trail w' = trail w @ [ProbeCreated ns ?name, ProbeDeleted ns ?name]"
          using delete_probe_trail [OF d] t3 t4 by simp
        then show ?thesis using c made unfolding probe_trail_def by fastforce
      qed
    qed
  qed
qed

lemma probe_pod_value:
  assumes "in_probe_pod h ns kind labels script deadline evaluate w = (Inr a, w')"
  shows "\<exists>logs. evaluate logs = Inr a"
  using assms unfolding in_probe_pod_def Let_def
  by (auto simp: finallyA_def bindA_apply split: prod.splits sum.splits)

text \<open>
  Property C19. No probe is left behind: whatever goes wrong while a probe runs, a pod that was created is
  deleted again, nothing else is changed, and an answer that is returned covers every target.
\<close>

theorem probe_cleans_up:
  assumes "run_tcp_probe h ns ident targets extra wait w = (r, w')"
  shows "(\<exists>new. trail w' = trail w @ new \<and> probe_trail h ns r new) \<and>
    (case r of Inl _ \<Rightarrow> True | Inr results \<Rightarrow> list_all (\<lambda>t. dict_get results (target_text t) \<noteq> None) targets)"
proof
  show "\<exists>new. trail w' = trail w @ new \<and> probe_trail h ns r new"
    using assms unfolding run_tcp_probe_def by (rule probe_pod_trail)
  show "case r of Inl _ \<Rightarrow> True | Inr results \<Rightarrow> list_all (\<lambda>t. dict_get results (target_text t) \<noteq> None) targets"
  proof (cases r)
    case (Inr results)
    obtain logs where "probe_answers targets logs = Inr results"
      using probe_pod_value [OF assms [unfolded run_tcp_probe_def Inr]] by blast
    then show ?thesis by (auto simp: Inr probe_answers_def Let_def list_all_iff list_ex_iff split: if_splits)
  qed simp
qed

definition probe_host :: "unit host" where
  "probe_host = blank_host\<lparr>read_text := (\<lambda>_. ret []), parse_yaml := (\<lambda>_. Inr sample_manifest),
     read_pod_log := (\<lambda>_ _. ret (script_output \<lparr>reach = (\<lambda>_ p. p = 443), fetch = (\<lambda>_. (0, []))\<rparr> 0 (map (probe_command 3) sample_targets)))\<rparr>"

theorem probe_cleans_up_witness:
  "\<exists>results w'. run_tcp_probe probe_host ''ns'' (Some ''order-service'') sample_targets [] 3 (empty_world ()) = (Inr results, w') \<and>
    probe_trail probe_host ''ns'' (Inr results) (trail w') \<and>
    map (\<lambda>t. dict_get results (target_text t)) sample_targets = [Some False, Some False, Some True]"
proof -
  let ?n = "\<lparr>reach = (\<lambda>_ p. p = 443), fetch = (\<lambda>_. (0, []))\<rparr>"
  have plain: "list_all (\<lambda>t. plain_word (target_host t)) sample_targets" unfolding sample_targets_def plain_word_def by code_simp
  have answers: "probe_answers sample_targets (script_output ?n 0 (map (probe_command 3) sample_targets)) = Inr (reported ?n sample_targets)"
    using probe_answers_reported [OF plain] .
  have load: "load_manifest probe_host w = (Inr sample_versions, w)" for w
    by (simp add: load_manifest_def probe_host_def bindA_apply call_def parse_manifest_def sample_validates)
  have parts: "uuid_hex probe_host = ret ''0123456789abcdef0123456789abcdef''" "create_pod probe_host ns name spec = ret ()"
    "delete_pod_at_once probe_host name ns = ret ()"
    "read_pod_log probe_host name ns = ret (script_output ?n 0 (map (probe_command 3) sample_targets))" for ns name spec
    by (simp_all add: probe_host_def blank_host_def)
  have wait: "wait_for (cluster probe_host) (truth (probe_finished probe_host ns name)) d 1 w = (Inr (), w)" if "0 < d" for ns name d w
    using that by (simp add: wait_for_def polls_def probe_host_def blank_host_def blank_api_def call_def bindA_apply
      catchA_def truth_def probe_finished_def)
  obtain r w' where run: "run_tcp_probe probe_host ''ns'' (Some ''order-service'') sample_targets [] 3 (empty_world ()) = (r, w')"
    and r: "r = Inr (reported ?n sample_targets)"
    by (simp add: run_tcp_probe_def in_probe_pod_def bindA_apply call_def effect_def load wait finallyA_def delete_probe_def catchA_def
      Let_def parts empty_world_def answers)
  have "map (\<lambda>t. dict_get (reported ?n sample_targets) (target_text t)) sample_targets = [Some False, Some False, Some True]"
    using reported_get [of _ sample_targets ?n] by (simp add: sample_targets_def)
  moreover have "probe_trail probe_host ''ns'' r (trail w')"
    using probe_cleans_up [OF run] by (auto simp: empty_world_def)
  ultimately show ?thesis using run unfolding r(1) by (intro exI conjI)
qed

end
