(* ===== verification/Portforward.thy ===== *)
theory Portforward
  imports Host
begin

section \<open>Port-forwards and the programs that serve them (portforward.py, tools.py)\<close>

text \<open>
  \<open>forward\<close> starts kubectl, waits until it prints the local port it forwards from, hands the port to the
  body of the \<open>with\<close> block and stops kubectl however the block ends. The thread that copies the output into
  a queue is the call \<open>next_line\<close>, which gives the next line or nothing within the time it may wait. The wait
  has a bound on its rounds, an argument; the last lemma says which bound is enough. The theorem says that
  no started program outlives its caller.
\<close>

subsection \<open>The line with the port\<close>

definition FORWARDING :: string where "FORWARDING = ''Forwarding from 127.0.0.1:''"

definition port_here :: "string \<Rightarrow> int option" where
  "port_here s =
     (let rest = drop (length FORWARDING) s; digits = takeWhile is_digit rest in
      if prefix FORWARDING s \<and> digits \<noteq> [] \<and> prefix '' ->'' (dropWhile is_digit rest)
      then digits_value False 0 digits else None)"

text \<open>The first match in the line.\<close>

fun forwarded_port :: "string \<Rightarrow> int option" where
  "forwarded_port [] = None"
| "forwarded_port (c # cs) = (case port_here (c # cs) of Some p \<Rightarrow> Some p | None \<Rightarrow> forwarded_port cs)"

text \<open>A local port is a 16-bit number kubectl prints in decimal.\<close>

lemma port_at_start: "port_here s = Some p \<Longrightarrow> forwarded_port s = Some p"
  by (cases s) (simp_all add: port_here_def Let_def FORWARDING_def)

lemma forwarded_port_prints:
  "forwarded_port (FORWARDING @ show_nat n @ '' -> '' @ target) = Some (int n)"
proof -
  have digits: "takeWhile is_digit (show_nat n @ '' -> '' @ target) = show_nat n"
    "dropWhile is_digit (show_nat n @ '' -> '' @ target) = '' -> '' @ target"
    using show_nat_is_digit [of _ n] by (simp_all add: takeWhile_append2 dropWhile_append2 is_digit_def less_eq_char_def)
  have "port_here (FORWARDING @ show_nat n @ '' -> '' @ target) = Some (int n)"
    using digits by (simp add: port_here_def Let_def digits_value_show_nat)
  then show ?thesis by (rule port_at_start)
qed

subsection \<open>Waiting for the port\<close>

fun await_port :: "nat \<Rightarrow> 'k host \<Rightarrow> nat \<Rightarrow> real \<Rightarrow> ('k world, int) act" where
  "await_port 0 h p deadline = raise RuntimeError"
| "await_port (Suc n) h p deadline =
     bindA (call (monotonic_clock (cluster h))) (\<lambda>t.
     bindA (if deadline - t \<le> 0 then ret True else bindA (call (poll_process h p)) (\<lambda>code. ret (code \<noteq> None))) (\<lambda>over.
       if over then raise RuntimeError
       else bindA (call (next_line h p (min (deadline - t) (1 / 2)))) (\<lambda>line.
              case line of
                None \<Rightarrow> await_port n h p deadline
              | Some text \<Rightarrow> (case forwarded_port text of Some port \<Rightarrow> ret port | None \<Rightarrow> await_port n h p deadline))))"

definition forward_args :: "string \<Rightarrow> string \<Rightarrow> int \<Rightarrow> int \<Rightarrow> string list" where
  "forward_args ns target remote_port local_port =
     [''--context'', CONTEXT, ''--namespace'', ns, ''port-forward'', target,
      (if local_port \<noteq> 0 then show_int local_port else []) @ CHR '':'' # show_int remote_port,
      ''--address'', ''127.0.0.1'']"

definition forward ::
  "'k host \<Rightarrow> nat \<Rightarrow> string \<Rightarrow> string \<Rightarrow> int \<Rightarrow> int \<Rightarrow> real \<Rightarrow> (int \<Rightarrow> ('k world, 'a) act) \<Rightarrow> ('k world, 'a) act" where
  "forward h rounds ns target remote_port local_port timeout body =
     bindA (require_tool h ''kubectl'') (\<lambda>kubectl.
     let args = forward_args ns target remote_port local_port in
     bindA (start_tool h ''kubectl'' args (kubectl # args)) (\<lambda>p.
     finallyA
       (bindA (call (monotonic_clock (cluster h))) (\<lambda>t. bindA (await_port rounds h p (t + timeout)) body))
       (terminate_tree h p 10)))"


subsection \<open>No started program outlives its caller\<close>

text \<open>
  What the operating system promises about the processes \<open>alive\<close> that this program started: a new one comes
  only from \<open>spawn\<close>, a process whose exit code is known, whose group is gone, whose end was awaited or that
  was killed is not alive, and \<open>communicate\<close> returns when the process has ended.
\<close>

definition fewer :: "('k \<Rightarrow> nat set) \<Rightarrow> 'k world \<Rightarrow> 'k world \<Rightarrow> bool" where
  "fewer alive w w' \<longleftrightarrow> alive (ext w') \<subseteq> alive (ext w)"

definition starts_none :: "('k \<Rightarrow> nat set) \<Rightarrow> ('k, 'a) act \<Rightarrow> bool" where
  "starts_none alive m \<longleftrightarrow> (\<forall>k r k'. m k = (r, k') \<longrightarrow> alive k' \<subseteq> alive k)"

definition ends :: "('k \<Rightarrow> nat set) \<Rightarrow> nat \<Rightarrow> ('k, 'a) act \<Rightarrow> ('a result \<Rightarrow> bool) \<Rightarrow> bool" where
  "ends alive p m told \<longleftrightarrow> starts_none alive m \<and> (\<forall>k r k'. m k = (r, k') \<and> told r \<longrightarrow> p \<notin> alive k')"

definition only_raises :: "exn set \<Rightarrow> ('k, 'a) act \<Rightarrow> bool" where
  "only_raises es m \<longleftrightarrow> (\<forall>k e k'. m k = (Inl e, k') \<longrightarrow> e \<in> es)"

definition processes :: "'k host \<Rightarrow> ('k \<Rightarrow> nat set) \<Rightarrow> bool" where
  "processes h alive \<longleftrightarrow>
     (\<forall>cmd k r k'. spawn h cmd k = (r, k') \<longrightarrow> alive k' \<subseteq> alive k \<union> (case r of Inr p \<Rightarrow> {p} | Inl _ \<Rightarrow> {})) \<and>
     (\<forall>p. ends alive p (poll_process h p) (\<lambda>r. case r of Inr (Some _) \<Rightarrow> True | _ \<Rightarrow> False) \<and> only_raises {} (poll_process h p)) \<and>
     (\<forall>p. starts_none alive (taskkill h p) \<and> only_raises {} (taskkill h p)) \<and>
     (\<forall>p. ends alive p (signal_group h p) isl \<and> only_raises {ProcessLookupError} (signal_group h p)) \<and>
     (\<forall>p d. ends alive p (await_exit h p d) (\<lambda>r. \<not> isl r) \<and> only_raises {TimeoutExpired} (await_exit h p d)) \<and>
     (\<forall>p. ends alive p (kill_process h p) (\<lambda>_. True)) \<and>
     (\<forall>p d i. ends alive p (communicate h p i d) (\<lambda>r. \<not> isl r) \<and> only_raises {TimeoutExpired} (communicate h p i d)) \<and>
     (\<forall>name. starts_none alive (on_path h name) \<and> starts_none alive (in_tools_dir h name)) \<and>
     (\<forall>p d. starts_none alive (next_line h p d)) \<and> starts_none alive (monotonic_clock (cluster h))"

interpretation calm: step_rel "fewer alive :: 'k world \<Rightarrow> 'k world \<Rightarrow> bool" for alive
  by unfold_locales (auto simp: fewer_def)

lemma call_D: "call m w = (r, w') \<Longrightarrow> \<exists>k'. m (ext w) = (r, k') \<and> w' = w\<lparr>ext := k'\<rparr>"
  by (auto simp: call_def split: prod.splits)

lemma calm_call: "starts_none alive m \<Longrightarrow> steps (fewer alive) (call m)"
  by (rule stepsI) (drule call_D; fastforce simp: starts_none_def fewer_def)

lemma call_ends: "ends alive p m told \<Longrightarrow> call m w = (r, w') \<Longrightarrow> told r \<Longrightarrow> p \<notin> alive (ext w')"
  by (auto simp: ends_def dest!: call_D)

lemma call_raises: "only_raises es m \<Longrightarrow> call m w = (Inl e, w') \<Longrightarrow> e \<in> es"
  by (auto simp: only_raises_def dest!: call_D)

lemma calm_terminate:
  assumes "processes h alive"
  shows "steps (fewer alive) (terminate_tree h p timeout)"
  using assms unfolding processes_def ends_def
  by (auto simp: terminate_tree_def intro!: calm.steps_intros calm_call)

text \<open>Stopping a process stops it, by the signal or by force.\<close>

lemma terminate_ends:
  assumes h: "processes h alive" and run: "terminate_tree h p timeout w = (r, w')"
  shows "p \<notin> alive (ext w')"
proof -
  have poll: "ends alive p (poll_process h p) (\<lambda>r. case r of Inr (Some _) \<Rightarrow> True | _ \<Rightarrow> False)" "only_raises {} (poll_process h p)"
    and task: "only_raises {} (taskkill h p)"
    and group: "ends alive p (signal_group h p) isl" "only_raises {ProcessLookupError} (signal_group h p)"
    and wait: "ends alive p (await_exit h p timeout) (\<lambda>r. \<not> isl r)" "only_raises {TimeoutExpired} (await_exit h p timeout)"
    and kill: "ends alive p (kill_process h p) (\<lambda>_. True)"
    using h by (auto simp: processes_def)
  have calm: "steps (fewer alive) (call (await_exit h p timeout))"
    using wait(1) by (auto simp: ends_def intro: calm_call)
  have awaited: "p \<notin> alive (ext w2)"
    if "catchA (call (await_exit h p timeout)) (\<lambda>e. if e = TimeoutExpired
          then bindA (call (kill_process h p)) (\<lambda>_. call (await_exit h p timeout)) else raise e) w1 = (r, w2)" for w1 w2
    using that
  proof (cases rule: catchA_cases)
    case (Normal a)
    then show ?thesis using call_ends [OF wait(1)] by auto
  next
    case (Handler e v)
    then have "bindA (call (kill_process h p)) (\<lambda>_. call (await_exit h p timeout)) v = (r, w2)"
      using call_raises [OF wait(2)] by auto
    then show ?thesis
    proof (cases rule: bindA_cases)
      case (Raise e)
      then show ?thesis using call_ends [OF kill] by auto
    next
      case (Cont a v')
      then have "p \<notin> alive (ext v')" using call_ends [OF kill] by auto
      then show ?thesis using stepsD [OF calm Cont(2)] by (auto simp: fewer_def)
    qed
  qed
  from run show ?thesis
    unfolding terminate_tree_def
  proof (cases rule: bindA_cases)
    case (Raise e)
    then show ?thesis using call_raises [OF poll(2)] by blast
  next
    case (Cont code w1)
    show ?thesis
    proof (cases code)
      case (Some c)
      then show ?thesis using Cont call_ends [OF poll(1) Cont(1)] by auto
    next
      case None
      let ?signal = "if windows h then bindA (call (taskkill h p)) (\<lambda>_. ret True)
        else catchA (bindA (call (signal_group h p)) (\<lambda>_. ret True))
               (\<lambda>e. if e = ProcessLookupError then ret False else raise e)"
      have "bindA ?signal (\<lambda>signalled. if \<not> signalled then ret ()
         else catchA (call (await_exit h p timeout)) (\<lambda>e. if e = TimeoutExpired
          then bindA (call (kill_process h p)) (\<lambda>_. call (await_exit h p timeout)) else raise e)) w1 = (r, w')"
        using Cont(2) None by simp
      then show ?thesis
      proof (cases rule: bindA_cases)
        case (Raise e)
        then show ?thesis using call_raises [OF task] call_raises [OF group(2)]
          by (auto split: if_splits elim!: bindA_cases catchA_cases)
      next
        case (Cont signalled w2)
        show ?thesis
        proof (cases signalled)
          case True
          then show ?thesis using Cont(2) awaited by simp
        next
          case False
          then show ?thesis using Cont call_ends [OF group(1)]
            by (auto split: if_splits elim!: bindA_cases catchA_cases)
        qed
      qed
    qed
  qed
qed

text \<open>A process started in between and gone at the end is not counted.\<close>

lemma started_ended:
  assumes "processes h alive" and "start_tool h tool args cmd w = (Inr p, w1)" and "fewer alive w1 w2" and "p \<notin> alive (ext w2)"
  shows "fewer alive w w2"
proof -
  obtain k where "spawn h cmd (ext w) = (Inr p, k)" "ext w1 = k"
    using assms(2) unfolding start_tool_def effect_def by (auto dest!: call_D)
  moreover have "\<forall>k r k'. spawn h cmd k = (r, k') \<longrightarrow> alive k' \<subseteq> alive k \<union> (case r of Inr p \<Rightarrow> {p} | Inl _ \<Rightarrow> {})"
    using assms(1) unfolding processes_def by blast
  ultimately have "alive (ext w1) \<subseteq> alive (ext w) \<union> {p}" by fastforce
  then show ?thesis using assms(3,4) unfolding fewer_def by blast
qed

lemma not_started:
  assumes "processes h alive" and "start_tool h tool args cmd w = (Inl e, w1)"
  shows "fewer alive w w1"
proof -
  obtain k where "spawn h cmd (ext w) = (Inl e, k)" "ext w1 = k"
    using assms(2) unfolding start_tool_def effect_def by (auto dest!: call_D)
  moreover have "\<forall>k r k'. spawn h cmd k = (r, k') \<longrightarrow> alive k' \<subseteq> alive k \<union> (case r of Inr p \<Rightarrow> {p} | Inl _ \<Rightarrow> {})"
    using assms(1) unfolding processes_def by blast
  ultimately show ?thesis unfolding fewer_def by fastforce
qed

lemma calm_require: "processes h alive \<Longrightarrow> steps (fewer alive) (require_tool h tool)"
  unfolding processes_def
  by (auto simp: require_tool_def find_tool_def intro!: calm.steps_intros calm_call split: option.splits)

lemma calm_await:
  assumes "processes h alive"
  shows "steps (fewer alive) (await_port n h p deadline)"
  using assms unfolding processes_def ends_def
  by (induction n) (auto intro!: calm.steps_intros calm_call split: option.splits)

lemma calm_run_tool:
  assumes h: "processes h alive"
  shows "steps (fewer alive) (run_tool h tool args chk input timeout)"
proof (rule stepsI)
  fix w r w' assume run: "run_tool h tool args chk input timeout w = (r, w')"
  have talk: "ends alive p (communicate h p input timeout) (\<lambda>r. \<not> isl r)" "only_raises {TimeoutExpired} (communicate h p input timeout)" for p
    using h by (auto simp: processes_def)
  have calm: "steps (fewer alive) (call (communicate h p input timeout))" for p
    using talk(1) [of p] by (auto simp: ends_def intro: calm_call)
  from run show "fewer alive w w'"
    unfolding run_tool_def
  proof (cases rule: bindA_cases)
    case (Raise e)
    then show ?thesis using stepsD [OF calm_require [OF h]] by blast
  next
    case (Cont executable w1)
    have before: "fewer alive w w1" using stepsD [OF calm_require [OF h] Cont(1)] .
    from Cont(2) show ?thesis
    proof (cases rule: bindA_cases)
      case (Raise e)
      then show ?thesis using not_started [OF h] before calm.step_trans by blast
    next
      case (Cont p w2)
      have "fewer alive w2 w' \<and> p \<notin> alive (ext w')"
        using Cont(2)
      proof (cases rule: bindA_cases)
        case (Raise e)
        then show ?thesis
        proof (cases rule: catchA_cases)
          case (Handler e' w3)
          then have "e' = TimeoutExpired" using call_raises [OF talk(2)] by blast
          with Handler(2) have "fewer alive w3 w'" "p \<notin> alive (ext w')"
            by (auto elim!: bindA_cases dest: stepsD [OF calm_terminate [OF h]] terminate_ends [OF h])
          then show ?thesis using stepsD [OF calm Handler(1)] calm.step_trans by blast
        qed (use Raise in simp)
      next
        case (Cont res w3)
        from Cont(1) have "call (communicate h p input timeout) w2 = (Inr res, w3)"
          by (auto elim!: catchA_cases bindA_cases split: if_splits)
        then have "fewer alive w2 w3" "p \<notin> alive (ext w3)"
          using stepsD [OF calm] call_ends [OF talk(1)] by auto
        moreover have "w' = w3" using Cont(2) by (auto simp: Let_def split: prod.splits if_splits)
        ultimately show ?thesis by simp
      qed
      then show ?thesis using started_ended [OF h Cont(1)] before calm.step_trans by blast
    qed
  qed
qed

lemma calm_forward:
  assumes h: "processes h alive" and body: "\<And>port. steps (fewer alive) (body port)"
  shows "steps (fewer alive) (forward h rounds ns target remote_port local_port seconds body)"
proof (rule stepsI)
  fix w r w' assume run: "forward h rounds ns target remote_port local_port seconds body w = (r, w')"
  have clock: "steps (fewer alive) (call (monotonic_clock (cluster h)))"
    using h by (auto simp: processes_def intro: calm_call)
  from run show "fewer alive w w'"
    unfolding forward_def Let_def
  proof (cases rule: bindA_cases)
    case (Raise e)
    then show ?thesis using stepsD [OF calm_require [OF h]] by blast
  next
    case (Cont executable w1)
    have before: "fewer alive w w1" using stepsD [OF calm_require [OF h] Cont(1)] .
    from Cont(2) show ?thesis
    proof (cases rule: bindA_cases)
      case (Raise e)
      then show ?thesis using not_started [OF h] before calm.step_trans by blast
    next
      case (Cont p w2)
      have inside: "steps (fewer alive) (bindA (call (monotonic_clock (cluster h)))
          (\<lambda>t. bindA (await_port rounds h p (t + seconds)) body))"
        by (intro calm.steps_bindA clock calm_await h body)
      obtain r0 w3 where w3: "bindA (call (monotonic_clock (cluster h))) (\<lambda>t. bindA (await_port rounds h p (t + seconds)) body) w2 = (r0, w3)"
        and stopped: "\<exists>r1. terminate_tree h p 10 w3 = (r1, w')"
        using Cont(2) by (rule finallyA_cases) blast+
      have "fewer alive w2 w3" "fewer alive w3 w'" "p \<notin> alive (ext w')"
        using stepsD [OF inside w3] stopped stepsD [OF calm_terminate [OF h]] terminate_ends [OF h] by blast+
      then show ?thesis using started_ended [OF h Cont(1)] before calm.step_trans by blast
    qed
  qed
qed


text \<open>A host with one kubectl, which prints its port and ends when it is signalled.\<close>

definition forward_host :: "nat set host" where
  "forward_host = blank_host\<lparr>spawn := (\<lambda>_ alive. (Inr 7, insert 7 alive)),
     next_line := (\<lambda>_ _. ret (Some ''Forwarding from 127.0.0.1:40001 -> 9200'')),
     communicate := (\<lambda>p _ _ alive. (Inr ([], [], 0), alive - {p})),
     poll_process := (\<lambda>p alive. (Inr (if p \<in> alive then None else Some 0), alive)),
     signal_group := (\<lambda>p alive. (Inr (), alive - {p})), kill_process := (\<lambda>p alive. (Inr (), alive - {p})),
     await_exit := (\<lambda>p _ alive. (if p \<in> alive then Inl TimeoutExpired else Inr (), alive)),
     cluster := blank_api\<lparr>monotonic_clock := ret 0\<rparr>\<rparr>"

lemma forward_host_processes: "processes forward_host id"
  by (auto simp: processes_def ends_def starts_none_def only_raises_def forward_host_def blank_host_def blank_api_def
    split: if_splits option.splits sum.splits)


subsection \<open>How many rounds are enough\<close>

text \<open>
  The clock never goes back and \<open>lines\<close> counts what kubectl still prints: waiting in vain takes the time that
  was allowed, and a line that is read is used up.
\<close>

definition prints :: "'k host \<Rightarrow> ('k \<Rightarrow> nat) \<Rightarrow> ('k \<Rightarrow> real) \<Rightarrow> bool" where
  "prints h lines clk \<longleftrightarrow>
     (\<forall>k. \<exists>k'. monotonic_clock (cluster h) k = (Inr (clk k), k') \<and> clk k \<le> clk k' \<and> lines k' \<le> lines k) \<and>
     (\<forall>p k r k'. poll_process h p k = (r, k') \<longrightarrow> clk k \<le> clk k' \<and> lines k' \<le> lines k) \<and>
     (\<forall>p d k r k'. next_line h p d k = (r, k') \<longrightarrow> clk k \<le> clk k' \<and>
        (case r of
           Inr None \<Rightarrow> clk k + d \<le> clk k' \<and> lines k' \<le> lines k
         | Inr (Some _) \<Rightarrow> lines k' < lines k
         | Inl _ \<Rightarrow> True))"

definition rounds_for :: "nat \<Rightarrow> real \<Rightarrow> nat" where
  "rounds_for lines remaining = lines + nat \<lceil>2 * remaining\<rceil> + 1"

lemma rounds_for_mono: "l \<le> l' \<Longrightarrow> r \<le> r' \<Longrightarrow> rounds_for l r \<le> rounds_for l' r'"
  by (auto simp: rounds_for_def intro!: add_mono nat_mono ceiling_mono)

lemma rounds_for_wait:
  assumes "0 < r" and "r' \<le> r - min r (1 / 2)"
  shows "rounds_for l r' < rounds_for l r"
proof -
  have "\<lceil>2 * r'\<rceil> \<le> max 0 (\<lceil>2 * r\<rceil> - 1)"
  proof (cases "r \<le> 1 / 2")
    case True
    then have "2 * r' \<le> 0" using assms(2) by simp
    then have "\<lceil>2 * r'\<rceil> \<le> 0" by (simp only: ceiling_le_zero)
    then show ?thesis by linarith
  next
    case False
    then have "2 * r' \<le> 2 * r - 1" using assms(2) by simp
    then have "\<lceil>2 * r'\<rceil> \<le> \<lceil>2 * r - 1\<rceil>" by (rule ceiling_mono)
    then show ?thesis by simp
  qed
  moreover have "0 < \<lceil>2 * r\<rceil>" using assms(1) by simp
  ultimately show ?thesis by (simp add: rounds_for_def nat_less_iff)
qed

lemma await_enough:
  assumes h: "prints h lines clk"
  shows "rounds_for (lines (ext w)) (deadline - clk (ext w)) \<le> n \<Longrightarrow>
    rounds_for (lines (ext w)) (deadline - clk (ext w)) \<le> m \<Longrightarrow> await_port n h p deadline w = await_port m h p deadline w"
proof (induction n arbitrary: m w)
  case 0
  then show ?case by (simp add: rounds_for_def)
next
  case (Suc n)
  then obtain m' where m: "m = Suc m'" by (cases m) (simp_all add: rounds_for_def)
  obtain k' where "monotonic_clock (cluster h) (ext w) = (Inr (clk (ext w)), k')" "clk (ext w) \<le> clk k'" "lines k' \<le> lines (ext w)"
    using h unfolding prints_def by blast
  then obtain w1 where w1: "call (monotonic_clock (cluster h)) w = (Inr (clk (ext w)), w1)"
    "clk (ext w) \<le> clk (ext w1)" "lines (ext w1) \<le> lines (ext w)"
    by (simp add: call_def)
  show ?case
  proof (cases "deadline - clk (ext w) \<le> 0")
    case True
    then show ?thesis by (simp add: m bindA_apply w1)
  next
    case False
    obtain r w2 where w2: "call (poll_process h p) w1 = (r, w2)" by (cases "call (poll_process h p) w1")
    then have poll: "clk (ext w1) \<le> clk (ext w2)" "lines (ext w2) \<le> lines (ext w1)"
      using h unfolding prints_def by (auto dest!: call_D)
    let ?d = "min (deadline - clk (ext w)) (1 / 2)"
    obtain line w3 where w3: "call (next_line h p ?d) w2 = (line, w3)" by (cases "call (next_line h p ?d) w2")
    have again: "await_port n h p deadline w3 = await_port m' h p deadline w3" if "line = Inr l" "\<And>t. l = Some t \<Longrightarrow> forwarded_port t = None" for l
    proof -
      have line: "clk (ext w2) \<le> clk (ext w3) \<and> (case line of
           Inr None \<Rightarrow> clk (ext w2) + ?d \<le> clk (ext w3) \<and> lines (ext w3) \<le> lines (ext w2)
         | Inr (Some _) \<Rightarrow> lines (ext w3) < lines (ext w2) | Inl _ \<Rightarrow> True)"
      proof -
        obtain k3 where "next_line h p ?d (ext w2) = (line, k3)" "ext w3 = k3" using call_D [OF w3] by auto
        then show ?thesis using h unfolding prints_def by blast
      qed
      have "rounds_for (lines (ext w3)) (deadline - clk (ext w3)) < rounds_for (lines (ext w)) (deadline - clk (ext w))"
      proof (cases l)
        case None
        then have "lines (ext w3) \<le> lines (ext w)" "deadline - clk (ext w3) \<le> deadline - clk (ext w) - ?d"
          using line that(1) w1 poll by auto
        then show ?thesis using rounds_for_wait [of "deadline - clk (ext w)"] rounds_for_mono False
          by (meson le_less_trans not_le order_refl)
      next
        case (Some t)
        then have "lines (ext w3) < lines (ext w)" "clk (ext w) \<le> clk (ext w3)" using line that(1) w1 poll by auto
        then show ?thesis
          by (auto simp: rounds_for_def intro!: add_less_le_mono nat_mono ceiling_mono)
      qed
      then show ?thesis using Suc.IH [of w3 m'] Suc.prems m by simp
    qed
    show ?thesis
    proof (cases r)
      case (Inr code)
      then show ?thesis
        using again False by (cases line) (auto simp: m bindA_apply w1 w2 w3 split: option.splits)
    qed (use False in \<open>simp add: m bindA_apply w1 w2\<close>)
  qed
qed

end
