(* ===== verification/Times.thy ===== *)
theory Times
  imports PyLib
begin

section \<open>Points in time written as text\<close>

text \<open>
  \<open>datetime.fromisoformat\<close> on the extended format \<open>YYYY-MM-DDTHH:MM:SS\<close> with an optional fraction and an
  optional offset, which is what RFC 3339 prints; the other ISO forms that Python also reads are refused
  here with the same \<open>ValueError\<close> as malformed texts. A moment is the number of microseconds since the
  epoch of the local reading, with the offset in seconds, or none for a naive time.
\<close>

record moment =
  local_micros :: int
  utc_offset :: "int option"

subsection \<open>The calendar\<close>

definition leap :: "int \<Rightarrow> bool" where
  "leap y \<longleftrightarrow> y mod 4 = 0 \<and> (y mod 100 \<noteq> 0 \<or> y mod 400 = 0)"

definition month_days :: "int \<Rightarrow> int \<Rightarrow> int" where
  "month_days y m =
     (if m = 2 then (if leap y then 29 else 28) else if m \<in> {4, 6, 9, 11} then 30 else 31)"

definition days_before_year :: "int \<Rightarrow> int" where
  "days_before_year y = (let p = y - 1 in p * 365 + p div 4 - p div 100 + p div 400)"

definition days_before_month :: "int \<Rightarrow> int \<Rightarrow> int" where
  "days_before_month y m = sum_list (map (month_days y) [1..m - 1])"

text \<open>Days since 1970-01-01.\<close>

definition epoch_days :: "int \<Rightarrow> int \<Rightarrow> int \<Rightarrow> int" where
  "epoch_days y m d = days_before_year y + days_before_month y m + d - 719163"

subsection \<open>Reading\<close>

definition field :: "nat \<Rightarrow> string \<Rightarrow> (int \<times> string) result" where
  "field n s =
     (if length s < n \<or> \<not> list_all is_digit (take n s) then Inl ValueError
      else (case digits_value False 0 (take n s) of None \<Rightarrow> Inl ValueError | Some v \<Rightarrow> Inr (v, drop n s)))"

definition mark :: "char set \<Rightarrow> string \<Rightarrow> string result" where
  "mark cs s = (case s of [] \<Rightarrow> Inl ValueError | c # rest \<Rightarrow> if c \<in> cs then Inr rest else Inl ValueError)"

definition micros :: "string \<Rightarrow> int" where
  "micros ds = (case digits_value False 0 (take 6 (ds @ replicate 6 CHR ''0'')) of None \<Rightarrow> 0 | Some v \<Rightarrow> v)"

definition second_fraction :: "string \<Rightarrow> (int \<times> string) result" where
  "second_fraction s = (case s of
     c # rest \<Rightarrow>
       if c = CHR ''.'' \<or> c = CHR '',''
       then (if takeWhile is_digit rest = [] then Inl ValueError
             else Inr (micros (takeWhile is_digit rest), dropWhile is_digit rest))
       else Inr (0, s)
   | [] \<Rightarrow> Inr (0, []))"

definition offset_part :: "string \<Rightarrow> int option result" where
  "offset_part s = (case s of
     [] \<Rightarrow> Inr None
   | c # rest \<Rightarrow>
       if c \<notin> {CHR ''+'', CHR ''-''} then Inl ValueError
       else bindE (field 2 rest) (\<lambda>(h, s1). bindE (mark {CHR '':''} s1) (\<lambda>s2.
            bindE (field 2 s2) (\<lambda>(m, s3).
            bindE (if s3 = [] then Inr 0
                   else bindE (mark {CHR '':''} s3) (\<lambda>s4. bindE (field 2 s4) (\<lambda>(sec, s5).
                        if s5 = [] then Inr sec else Inl ValueError))) (\<lambda>sec.
            if h < 24 \<and> m < 60 \<and> sec < 60
            then Inr (Some ((if c = CHR ''-'' then - 1 else 1) * (h * 3600 + m * 60 + sec)))
            else Inl ValueError)))))"

definition parse_iso :: "string \<Rightarrow> moment result" where
  "parse_iso text =
     bindE (field 4 text) (\<lambda>(y, s1). bindE (mark {CHR ''-''} s1) (\<lambda>s2.
     bindE (field 2 s2) (\<lambda>(mo, s3). bindE (mark {CHR ''-''} s3) (\<lambda>s4.
     bindE (field 2 s4) (\<lambda>(d, s5). bindE (mark UNIV s5) (\<lambda>s6.
     bindE (field 2 s6) (\<lambda>(h, s7). bindE (mark {CHR '':''} s7) (\<lambda>s8.
     bindE (field 2 s8) (\<lambda>(mi, s9). bindE (mark {CHR '':''} s9) (\<lambda>s10.
     bindE (field 2 s10) (\<lambda>(sec, s11). bindE (second_fraction s11) (\<lambda>(us, s12).
     bindE (offset_part s12) (\<lambda>off.
       if 1 \<le> y \<and> 1 \<le> mo \<and> mo \<le> 12 \<and> 1 \<le> d \<and> d \<le> month_days y mo \<and> h < 24 \<and> mi < 60 \<and> sec < 60
       then Inr \<lparr>local_micros = ((epoch_days y mo d * 24 + h) * 60 + mi) * 60000000 + sec * 1000000 + us, utc_offset = off\<rparr>
       else Inl ValueError)))))))))))))"

text \<open>The instant of an aware time; a naive one cannot be compared with an aware one.\<close>

definition instant :: "moment \<Rightarrow> real result" where
  "instant t = (case utc_offset t of None \<Rightarrow> Inl TypeError | Some off \<Rightarrow> Inr (of_int (local_micros t) / 1000000 - of_int off))"

subsection \<open>Writing\<close>

definition two :: "nat \<Rightarrow> string" where "two n = pad_left 2 (show_nat n)"

definition date_text :: "nat \<Rightarrow> nat \<Rightarrow> nat \<Rightarrow> string" where
  "date_text y mo d = pad_left 4 (show_nat y) @ CHR ''-'' # two mo @ CHR ''-'' # two d"

definition clock_text :: "nat \<Rightarrow> nat \<Rightarrow> nat \<Rightarrow> string" where
  "clock_text h mi s = two h @ CHR '':'' # two mi @ CHR '':'' # two s"

definition offset_text :: "bool \<Rightarrow> nat \<Rightarrow> nat \<Rightarrow> string" where
  "offset_text west h m = (if west then CHR ''-'' else CHR ''+'') # two h @ CHR '':'' # two m"

lemma length_show_nat: "0 < k \<Longrightarrow> n < 10 ^ k \<Longrightarrow> length (show_nat n) \<le> k"
proof (induction k arbitrary: n)
  case (Suc k)
  show ?case
  proof (cases "n < 10")
    case True
    then show ?thesis by (subst show_nat.simps) simp
  next
    case False
    with Suc.prems have "n div 10 < 10 ^ k" by simp
    moreover have "0 < k" using False Suc.prems by (cases k) auto
    ultimately have "length (show_nat (n div 10)) \<le> k" using Suc.IH by blast
    then show ?thesis using False by (subst show_nat.simps) simp
  qed
qed simp

lemma field_pad:
  assumes "0 < k" and "n < 10 ^ k"
  shows "field k (pad_left k (show_nat n) @ rest) = Inr (int n, rest)"
proof -
  have len: "length (pad_left k (show_nat n)) = k"
    using length_show_nat [OF assms] by (simp add: pad_left_def)
  moreover have "list_all is_digit (pad_left k (show_nat n))"
    using show_nat_is_digit by (auto simp: pad_left_def list_all_iff is_digit_def less_eq_char_def)
  ultimately show ?thesis by (simp add: field_def digits_value_pad)
qed

lemma field_two: "n < 100 \<Longrightarrow> field 2 (two n @ rest) = Inr (int n, rest)"
  unfolding two_def by (rule field_pad) simp_all

lemma field_four: "n < 10000 \<Longrightarrow> field 4 (pad_left 4 (show_nat n) @ rest) = Inr (int n, rest)"
  by (rule field_pad) simp_all

lemma two_digits: "set (two n) \<subseteq> {c. is_digit c}"
  using show_nat_is_digit by (auto simp: two_def pad_left_def is_digit_def less_eq_char_def)

definition fraction_text :: "string \<Rightarrow> string" where
  "fraction_text ds = (if ds = [] then [] else CHR ''.'' # ds)"

lemma second_fraction_text:
  assumes "list_all is_digit ds" and "rest \<noteq> []" and "hd rest \<in> {CHR ''+'', CHR ''-''}"
  shows "second_fraction (fraction_text ds @ rest) = Inr (if ds = [] then 0 else micros ds, rest)"
proof (cases ds)
  case Nil
  then show ?thesis using assms(2,3) by (cases rest) (auto simp: second_fraction_def fraction_text_def)
next
  case (Cons c cs)
  obtain r rs where rest: "rest = r # rs" "r \<in> {CHR ''+'', CHR ''-''}" using assms(2,3) by (cases rest) auto
  then have "\<not> is_digit r" by (auto simp: is_digit_def less_eq_char_def)
  then have "takeWhile is_digit (ds @ rest) = ds" "dropWhile is_digit (ds @ rest) = rest"
    using assms(1) by (simp_all add: rest list_all_iff takeWhile_append dropWhile_append)
  then show ?thesis using Cons by (simp add: second_fraction_def fraction_text_def)
qed

lemma offset_part_text:
  "oh < 24 \<Longrightarrow> om < 60 \<Longrightarrow>
   offset_part (offset_text west oh om) = Inr (Some ((if west then - 1 else 1) * (int oh * 3600 + int om * 60)))"
  using field_two [of oh "CHR '':'' # two om"] field_two [of om "[]"]
  by (simp add: offset_part_def offset_text_def mark_def)

lemma offset_start: "offset_text west oh om \<noteq> []" "hd (offset_text west oh om) \<in> {CHR ''+'', CHR ''-''}"
  by (simp_all add: offset_text_def)

text \<open>What was printed is read back to the microsecond.\<close>

lemma parse_iso_text:
  assumes "1 \<le> y" "y < 10000" "1 \<le> mo" "mo \<le> 12" "1 \<le> d" "int d \<le> month_days (int y) (int mo)"
    and "h < 24" "mi < 60" "s < 60" "list_all is_digit ds" "oh < 24" "om < 60"
  shows "parse_iso (date_text y mo d @ CHR ''T'' # clock_text h mi s @ fraction_text ds @ offset_text west oh om) =
    Inr \<lparr>local_micros = ((epoch_days (int y) (int mo) (int d) * 24 + int h) * 60 + int mi) * 60000000 + int s * 1000000 +
            (if ds = [] then 0 else micros ds),
         utc_offset = Some ((if west then - 1 else 1) * (int oh * 3600 + int om * 60))\<rparr>"
proof -
  have "d < 100" using assms(6) by (simp add: month_days_def split: if_splits)
  then have small: "y < 10000" "mo < 100" "d < 100" "h < 100" "mi < 100" "s < 100" using assms by simp_all
  show ?thesis
    using assms second_fraction_text [OF assms(10) offset_start, of west oh om]
    by (simp add: parse_iso_def date_text_def clock_text_def mark_def offset_part_text
      field_four [OF small(1)] field_two [OF small(2)] field_two [OF small(3)] field_two [OF small(4)]
      field_two [OF small(5)] field_two [OF small(6)])
qed

end
