(* ===== verification/Helm.thy ===== *)
theory Helm
  imports Host Times
begin

section \<open>Helm releases (helm.py)\<close>

text \<open>
  Every command that touches the cluster is pinned to the project's context. Before a release is changed,
  a release that an interrupted deployment left pending is looked at: while it may still be worked on the
  deployment is refused, later it is removed or rolled back. JSON answers are read with \<open>json_loads\<close>.
\<close>

definition PENDING_STATES :: "string list" where
  "PENDING_STATES = [''pending-install'', ''pending-upgrade'', ''pending-rollback'']"

text \<open>In seconds.\<close>

definition STALE_PENDING_AFTER :: real where "STALE_PENDING_AFTER = 20 * 60"

definition helm_args :: "string list \<Rightarrow> string list" where
  "helm_args args = [''--kube-context'', CONTEXT] @ args"

definition helm :: "'k host \<Rightarrow> string list \<Rightarrow> bool \<Rightarrow> ('k world, command_result) act" where
  "helm h args check = run_tool h ''helm'' (helm_args args) check None (Some 1200)"

text \<open>\<open>json.loads(text or default)\<close>.\<close>

definition loads_or :: "string \<Rightarrow> string \<Rightarrow> pyval result" where
  "loads_or dflt text = json_loads (if text = [] then dflt else text)"

definition repo_entry :: "pyval \<Rightarrow> (pyval \<times> pyval) result" where
  "repo_entry e = bindE (py_item e ''name'') (\<lambda>n. bindE (py_item e ''url'') (\<lambda>u. Inr (n, u)))"

definition listed_repos :: "command_result \<Rightarrow> (pyval \<times> pyval) list result" where
  "listed_repos listed =
     (if returncode listed = 0
      then bindE (loads_or ''[]'' (stdout listed)) (\<lambda>doc. bindE (py_iter doc) (mapE repo_entry))
      else Inr [])"

definition ensure_repo :: "'k host \<Rightarrow> string \<Rightarrow> string \<Rightarrow> ('k world, unit) act" where
  "ensure_repo h name url =
     bindA (ask_tool h ''helm'' [''repo'', ''list'', ''-o'', ''json''] None) (\<lambda>listed.
     bindA (liftE (listed_repos listed)) (\<lambda>existing.
     bindA (if map_of (rev existing) (PStr name) \<noteq> Some (PStr url)
            then bindA (do_tool h ''helm'' [''repo'', ''add'', name, url, ''--force-update''] (Some 300)) (\<lambda>_. ret ())
            else ret ()) (\<lambda>_.
     bindA (do_tool h ''helm'' [''repo'', ''update'', name] (Some 300)) (\<lambda>_. ret ()))))"

subsection \<open>Interrupted releases\<close>

text \<open>\<open>re.sub(r"(\.\d{6})\d+", r"\1", s)\<close>: digits after the sixth of a fraction are dropped.\<close>

function drop_nanos :: "string \<Rightarrow> string" where
  "drop_nanos [] = []"
| "drop_nanos (c # cs) =
     (if c = CHR ''.'' \<and> 6 < length (takeWhile is_digit cs)
      then c # take 6 cs @ drop_nanos (dropWhile is_digit cs)
      else c # drop_nanos cs)"
  by pat_completeness auto

termination drop_nanos
  by (relation "measure length") (auto simp: le_imp_less_Suc length_dropWhile_le)

definition zulu :: "string \<Rightarrow> string" where
  "zulu s = concat (map (\<lambda>c. if c = CHR ''Z'' then ''+00:00'' else [c]) s)"

definition parse_helm_time :: "string \<Rightarrow> moment result" where
  "parse_helm_time v = parse_iso (zulu (drop_nanos (strip v)))"

datatype pending_action = Proceed | Wait | Uninstall | Rollback

definition pending_release_action :: "pyval \<Rightarrow> real \<Rightarrow> pending_action result" where
  "pending_release_action info now =
     bindE (py_item info ''status'') (\<lambda>status.
       case status of
         PList _ \<Rightarrow> Inl TypeError
       | PDict _ \<Rightarrow> Inl TypeError
       | _ \<Rightarrow>
           if status \<notin> PStr ` set PENDING_STATES then Inr Proceed
           else bindE (py_item info ''last_deployed'') (\<lambda>deployed.
                case deployed of
                  PStr text \<Rightarrow>
                    bindE (bindE (parse_helm_time text) instant) (\<lambda>t.
                      if now - t < STALE_PENDING_AFTER then Inr Wait
                      else if status = PStr ''pending-install'' then Inr Uninstall else Inr Rollback)
                | _ \<Rightarrow> Inl AttributeError))"

definition uninstall :: "'k host \<Rightarrow> string \<Rightarrow> string \<Rightarrow> ('k world, unit) act" where
  "uninstall h rel ns =
     bindA (helm h [''uninstall'', rel, ''--namespace'', ns, ''--wait''] False) (\<lambda>_. ret ())"

definition recover_interrupted :: "'k host \<Rightarrow> string \<Rightarrow> string \<Rightarrow> ('k world, unit) act" where
  "recover_interrupted h rel ns =
     bindA (helm h [''status'', rel, ''--namespace'', ns, ''-o'', ''json''] False) (\<lambda>result.
       if returncode result \<noteq> 0 then ret ()
       else bindA (liftE (bindE (json_loads (stdout result)) (\<lambda>doc. py_item doc ''info''))) (\<lambda>info.
            bindA (call (wall_clock (cluster h))) (\<lambda>now.
            bindA (liftE (pending_release_action info now)) (\<lambda>action.
              case action of
                Wait \<Rightarrow> raise ToolError
              | Uninstall \<Rightarrow> uninstall h rel ns
              | Rollback \<Rightarrow>
                  bindA (helm h [''rollback'', rel, ''--namespace'', ns, ''--wait'', ''--timeout'', ''10m''] True) (\<lambda>_. ret ())
              | Proceed \<Rightarrow> ret ()))))"

subsection \<open>Installing and looking\<close>

record release_options =
  chart_pin_version :: "string option"
  values_files :: "string list"
  set_values :: "(string, string) dict"
  waits :: bool
  wait_timeout :: string

definition plain_release :: release_options where
  "plain_release = \<lparr>chart_pin_version = None, values_files = [], set_values = [], waits = True, wait_timeout = ''10m''\<rparr>"

definition values_args :: "string list \<Rightarrow> (string, string) dict \<Rightarrow> string list" where
  "values_args files sets =
     concat (map (\<lambda>f. [''--values'', f]) files) @ concat (map (\<lambda>(k, v). [''--set-string'', k @ CHR ''='' # v]) sets)"

definition upgrade_args :: "string \<Rightarrow> string \<Rightarrow> string \<Rightarrow> release_options \<Rightarrow> string list" where
  "upgrade_args rel chart ns opts =
     [''upgrade'', ''--install'', rel, chart, ''--namespace'', ns] @
     (case chart_pin_version opts of None \<Rightarrow> [] | Some v \<Rightarrow> if v = [] then [] else [''--version'', v]) @
     values_args (values_files opts) (set_values opts) @
     (if waits opts then [''--wait'', ''--timeout'', wait_timeout opts] else [])"

definition upgrade_install :: "'k host \<Rightarrow> string \<Rightarrow> string \<Rightarrow> string \<Rightarrow> release_options \<Rightarrow> ('k world, unit) act" where
  "upgrade_install h rel chart ns opts =
     bindA (recover_interrupted h rel ns) (\<lambda>_.
     bindA (helm h (upgrade_args rel chart ns opts) True) (\<lambda>_. ret ()))"

definition list_releases :: "'k host \<Rightarrow> ('k world, pyval) act" where
  "list_releases h =
     bindA (helm h [''list'', ''--all-namespaces'', ''-o'', ''json''] False) (\<lambda>result.
       if returncode result = 0 then liftE (loads_or ''[]'' (stdout result)) else ret (PList []))"

definition get_values :: "'k host \<Rightarrow> string \<Rightarrow> string \<Rightarrow> ('k world, string) act" where
  "get_values h rel ns =
     bindA (helm h [''get'', ''values'', rel, ''--namespace'', ns, ''--all'', ''-o'', ''yaml''] False) (\<lambda>result.
       ret (stdout result))"

definition helm_template :: "'k host \<Rightarrow> string \<Rightarrow> string \<Rightarrow> string list \<Rightarrow> (string, string) dict \<Rightarrow> ('k world, string) act" where
  "helm_template h chart ns files sets =
     bindA (do_tool h ''helm'' ([''template'', ''render-check'', chart, ''--namespace'', ns] @ values_args files sets) (Some 120))
       (\<lambda>result. ret (stdout result))"

subsection \<open>A release that may still be deployed is left alone\<close>

lemma drop_nanos_skip: "CHR ''.'' \<notin> set u \<Longrightarrow> drop_nanos (u @ v) = u @ drop_nanos v"
  by (induction u) auto

lemma drop_nanos_fraction:
  assumes "list_all is_digit ds" and "zone \<noteq> []" "\<not> is_digit (hd zone)" "CHR ''.'' \<notin> set zone"
  shows "drop_nanos (fraction_text ds @ zone) = fraction_text (take 6 ds) @ zone"
proof -
  have zone: "drop_nanos zone = zone" using drop_nanos_skip [of zone "[]"] assms(4) by simp
  have dot: "CHR ''.'' \<notin> set ds" using assms(1) by (auto simp: list_all_iff is_digit_def less_eq_char_def)
  have split: "takeWhile is_digit (ds @ zone) = ds" "dropWhile is_digit (ds @ zone) = zone"
    using assms(1-3) by (cases zone; simp add: list_all_iff takeWhile_append dropWhile_append)+
  show ?thesis
    using split zone drop_nanos_skip [OF dot, of zone] by (simp add: fraction_text_def)
qed

lemma zulu_append: "zulu (u @ v) = zulu u @ zulu v"
  by (simp add: zulu_def)

lemma zulu_id: "CHR ''Z'' \<notin> set u \<Longrightarrow> zulu u = u"
  by (induction u) (auto simp: zulu_def)

lemma micros_take: "micros (take 6 ds) = micros ds"
  by (cases "length ds \<le> 6") (simp_all add: micros_def)

lemma digits_value_nonneg: "0 \<le> acc \<Longrightarrow> digits_value sep acc s = Some v \<Longrightarrow> 0 \<le> v"
proof (induction sep acc s rule: digits_value.induct)
  case (2 sep acc c cs)
  moreover have "is_digit c \<Longrightarrow> 0 \<le> digit_value c" by (simp add: digit_value_def is_digit_def less_eq_char_def)
  ultimately show ?case by (auto split: if_splits)
qed (auto split: if_splits)

lemma micros_nonneg: "0 \<le> micros ds"
  using digits_value_nonneg [of 0] by (auto simp: micros_def split: option.splits)

text \<open>The characters of a printed time, which is what the clean-up of the text must not confuse.\<close>

definition time_chars :: "char set" where
  "time_chars = {c. is_digit c} \<union> {CHR ''-'', CHR ''T'', CHR '':'', CHR ''+''}"

lemma time_chars_plain: "c \<in> time_chars \<Longrightarrow> c \<noteq> CHR ''.'' \<and> c \<noteq> CHR ''Z'' \<and> \<not> is_space c"
  by (auto simp: time_chars_def is_digit_def less_eq_char_def is_space_def)

lemma date_chars: "set (date_text y mo d @ CHR ''T'' # clock_text h mi s) \<subseteq> time_chars"
proof -
  have "set (pad_left 4 (show_nat y)) \<subseteq> {c. is_digit c}"
    using show_nat_is_digit by (auto simp: pad_left_def is_digit_def less_eq_char_def)
  then show ?thesis using two_digits by (auto simp: date_text_def clock_text_def time_chars_def)
qed

lemma offset_chars: "set (offset_text west oh om) \<subseteq> time_chars"
  using two_digits by (auto simp: offset_text_def time_chars_def)

definition zone_of :: "string \<Rightarrow> bool \<Rightarrow> nat \<Rightarrow> nat \<Rightarrow> bool" where
  "zone_of zone west oh om \<longleftrightarrow> zone = offset_text west oh om \<or> (zone = ''Z'' \<and> \<not> west \<and> oh = 0 \<and> om = 0)"

lemma zone_props:
  assumes "zone_of zone west oh om"
  shows "zone \<noteq> []" "\<not> is_digit (hd zone)" "CHR ''.'' \<notin> set zone" "zulu zone = offset_text west oh om" "\<forall>c \<in> set zone. \<not> is_space c"
proof -
  have zero: "two 0 = ''00''" by (simp add: two_def pad_left_def show_nat_0)
  have id: "zulu (offset_text west oh om) = offset_text west oh om"
    using offset_chars time_chars_plain by (intro zulu_id) blast
  show "zone \<noteq> []" using assms by (auto simp: zone_of_def offset_text_def)
  show "\<not> is_digit (hd zone)"
    using assms by (cases west) (auto simp: zone_of_def offset_text_def is_digit_def less_eq_char_def)
  show "CHR ''.'' \<notin> set zone" "\<forall>c \<in> set zone. \<not> is_space c"
    using assms offset_chars [of west oh om] time_chars_plain by (auto simp: zone_of_def is_space_def)
  show "zulu zone = offset_text west oh om"
    using assms id by (auto simp: zone_of_def) (simp add: zulu_def offset_text_def zero)
qed

lemma parse_helm_time_text:
  assumes "1 \<le> y" "y < 10000" "1 \<le> mo" "mo \<le> 12" "1 \<le> d" "int d \<le> month_days (int y) (int mo)"
    and "h < 24" "mi < 60" "s < 60" "list_all is_digit ds" "oh < 24" "om < 60" and zone: "zone_of zone west oh om"
  shows "parse_helm_time (date_text y mo d @ CHR ''T'' # clock_text h mi s @ fraction_text ds @ zone) =
    Inr \<lparr>local_micros = ((epoch_days (int y) (int mo) (int d) * 24 + int h) * 60 + int mi) * 60000000 + int s * 1000000 +
            (if ds = [] then 0 else micros ds),
         utc_offset = Some ((if west then - 1 else 1) * (int oh * 3600 + int om * 60))\<rparr>"
proof -
  let ?front = "date_text y mo d @ CHR ''T'' # clock_text h mi s"
  have front: "CHR ''.'' \<notin> set ?front" "CHR ''Z'' \<notin> set ?front" "\<forall>c \<in> set ?front. \<not> is_space c"
    using date_chars [of y mo d h mi s] time_chars_plain by blast+
  have frac: "\<forall>c \<in> set (fraction_text ds). \<not> is_space c"
    using assms(10) by (auto simp: fraction_text_def list_all_iff is_digit_def less_eq_char_def is_space_def)
  have "CHR ''Z'' \<notin> set ds" using assms(10) by (auto simp: list_all_iff is_digit_def less_eq_char_def)
  then have fracz: "CHR ''Z'' \<notin> set (fraction_text (take 6 ds))"
    using in_set_takeD [of "CHR ''Z''" 6 ds] by (auto simp: fraction_text_def)
  have "strip (?front @ fraction_text ds @ zone) = ?front @ fraction_text ds @ zone"
    using front(3) frac zone_props(5) [OF zone] by (intro strip_no_space) auto
  moreover have "drop_nanos (?front @ fraction_text ds @ zone) = ?front @ fraction_text (take 6 ds) @ zone"
    using drop_nanos_skip [OF front(1)] drop_nanos_fraction [OF assms(10) zone_props(1-3) [OF zone]] by metis
  moreover have "zulu (?front @ fraction_text (take 6 ds) @ zone) = ?front @ fraction_text (take 6 ds) @ offset_text west oh om"
    using zulu_id [OF front(2)] zulu_id [OF fracz] zone_props(4) [OF zone] by (simp only: zulu_append)
  ultimately have "parse_helm_time (?front @ fraction_text ds @ zone) = parse_iso (?front @ fraction_text (take 6 ds) @ offset_text west oh om)"
    by (simp only: parse_helm_time_def)
  moreover have "list_all is_digit (take 6 ds)" using assms(10) by (auto simp: list_all_iff dest: in_set_takeD)
  ultimately show ?thesis
    using parse_iso_text [OF assms(1-9) _ assms(11,12), of "take 6 ds" west] by (simp add: micros_take)
qed

text \<open>A program that ran to its end is one event of the trail.\<close>

lemma call_trail: "call m w = (r, w') \<Longrightarrow> trail w' = trail w"
  using call_keeps(4) [of m w] by simp

lemma require_trail: "require_tool h tool w = (r, w') \<Longrightarrow> trail w' = trail w"
  by (auto simp: require_tool_def find_tool_def bindA_apply dest!: call_trail
    split: prod.splits sum.splits option.splits if_splits)

lemma run_tool_trail:
  assumes "run_tool h tool args check input timeout w = (Inr res, w')"
  shows "trail w' = trail w @ [ToolStarted tool args]"
proof -
  obtain exe w1 where w1: "require_tool h tool w = (Inr exe, w1)"
    and more: "bindA (start_tool h tool args (exe # args)) (\<lambda>p.
     bindA (catchA (call (communicate h p input timeout))
              (\<lambda>e. if e = TimeoutExpired then bindA (terminate_tree h p 10) (\<lambda>_. raise e) else raise e)) (\<lambda>(out, err, code).
       let result = \<lparr>res_args = exe # args, returncode = code, stdout = out, stderr = err\<rparr>
       in if check \<and> code \<noteq> 0 then raise ToolError else ret result)) w1 = (Inr res, w')"
    using assms unfolding run_tool_def by (auto elim: bindA_cases)
  obtain p w2 where w2: "start_tool h tool args (exe # args) w1 = (Inr p, w2)"
    and rest: "bindA (catchA (call (communicate h p input timeout))
              (\<lambda>e. if e = TimeoutExpired then bindA (terminate_tree h p 10) (\<lambda>_. raise e) else raise e)) (\<lambda>(out, err, code).
       let result = \<lparr>res_args = exe # args, returncode = code, stdout = out, stderr = err\<rparr>
       in if check \<and> code \<noteq> 0 then raise ToolError else ret result) w2 = (Inr res, w')"
    using more by (auto elim: bindA_cases)
  obtain r w3 where w3: "call (communicate h p input timeout) w2 = (r, w3)" by (cases "call (communicate h p input timeout) w2")
  have "w' = w3"
    using rest w3 by (cases r) (auto simp: bindA_apply catchA_def Let_def split: prod.splits sum.splits if_splits)
  moreover have "trail w2 = trail w1 @ [ToolStarted tool args]"
    using w2 effect_keeps(4) [of "ToolStarted tool args" "spawn h (exe # args)" w1] by (simp add: start_tool_def)
  ultimately show ?thesis using call_trail [OF w3] require_trail [OF w1] by simp
qed

text \<open>The status command, and what a pending release looks like in its answer.\<close>

definition status_args :: "string \<Rightarrow> string \<Rightarrow> string list" where
  "status_args rel ns = helm_args [''status'', rel, ''--namespace'', ns, ''-o'', ''json'']"

text \<open>
  Property C13. A release that was changed less than twenty minutes ago and is still pending is not
  touched: for every way Helm prints the time of the change (any number of digits of a second, UTC or an
  offset), installing over it raises a \<open>ToolError\<close>, and the only program that was started is the one that
  asked for the status.
\<close>

theorem fresh_pending_release_untouched:
  assumes valid: "1 \<le> y" "y < 10000" "1 \<le> mo" "mo \<le> 12" "1 \<le> d" "int d \<le> month_days (int y) (int mo)"
      "hr < 24" "mi < 60" "s < 60" "list_all is_digit ds" "oh < 24" "om < 60" "zone_of zone west oh om"
    and status: "run_tool h ''helm'' (status_args rel ns) False None (Some 1200) w = (Inr answer, w1)"
      "returncode answer = 0" "json_loads (stdout answer) = Inr doc" "py_item doc ''info'' = Inr info"
      "py_item info ''status'' = Inr (PStr state)" "state \<in> set PENDING_STATES"
      "py_item info ''last_deployed'' = Inr (PStr (date_text y mo d @ CHR ''T'' # clock_text hr mi s @ fraction_text ds @ zone))"
    and clock: "call (wall_clock (cluster h)) w1 = (Inr now, w2)"
    and fresh: "now < of_int (((epoch_days (int y) (int mo) (int d) * 24 + int hr) * 60 + int mi) * 60 + int s
        - (if west then - 1 else 1) * (int oh * 3600 + int om * 60)) + 1200"
  shows "upgrade_install h rel chart ns opts w = (Inl ToolError, w2) \<and>
    trail w2 = trail w @ [ToolStarted ''helm'' (status_args rel ns)]"
proof -
  let ?us = "if ds = [] then 0 else micros ds"
  let ?t = "of_int (((epoch_days (int y) (int mo) (int d) * 24 + int hr) * 60 + int mi) * 60000000 + int s * 1000000 + ?us) / 1000000
      - of_int ((if west then - 1 else 1) * (int oh * 3600 + int om * 60)) :: real"
  have time: "bindE (parse_helm_time (date_text y mo d @ CHR ''T'' # clock_text hr mi s @ fraction_text ds @ zone)) instant = Inr ?t"
    unfolding parse_helm_time_text [OF valid] by (simp add: instant_def)
  have "0 \<le> ?us" using micros_nonneg by simp
  then have "now - ?t < STALE_PENDING_AFTER"
    using fresh by (simp add: STALE_PENDING_AFTER_def field_simps split: if_splits)
  then have "pending_release_action info now = Inr Wait"
    using status(5-7) time by (auto simp: pending_release_action_def)
  then have "recover_interrupted h rel ns w = (Inl ToolError, w2)"
    using status(1-4) clock
    by (simp add: recover_interrupted_def helm_def status_args_def bindA_apply)
  moreover have "trail w2 = trail w @ [ToolStarted ''helm'' (status_args rel ns)]"
    using run_tool_trail [OF status(1)] call_trail [OF clock] by simp
  ultimately show ?thesis by (simp add: upgrade_install_def bindA_Inl)
qed

text \<open>A workstation on which Helm answers that a release was changed at noon, ten minutes ago.\<close>

definition noon_text :: string where
  "noon_text = date_text 2025 6 1 @ CHR ''T'' # clock_text 12 0 0 @ fraction_text ''123456789'' @ offset_text False 2 0"

definition pending_document :: pyval where
  "pending_document = PDict [(''name'', PStr ''kong''),
     (''info'', PDict [(''status'', PStr ''pending-upgrade''), (''last_deployed'', PStr noon_text)])]"

definition pending_host :: "unit host" where
  "pending_host = blank_host
     \<lparr>communicate := (\<lambda>_ _ _. ret (json_dumps pending_document, [], 0)),
      cluster := blank_api\<lparr>wall_clock := ret 1748772600\<rparr>\<rparr>"

lemma pending_status:
  "run_tool pending_host ''helm'' args False None (Some 1200) (empty_world ()) =
    (Inr \<lparr>res_args = ''/usr/bin/helm'' # args, returncode = 0, stdout = json_dumps pending_document, stderr = []\<rparr>,
     (empty_world ())\<lparr>trail := [ToolStarted ''helm'' args]\<rparr>)"
  by (simp add: run_tool_def require_tool_def find_tool_def start_tool_def pending_host_def blank_host_def
    bindA_apply catchA_def call_def effect_def empty_world_def Let_def)

theorem fresh_pending_release_untouched_witness:
  "\<exists>w2. upgrade_install pending_host ''kong'' ''kong/ingress'' NS_GATEWAY plain_release (empty_world ()) = (Inl ToolError, w2) \<and>
     trail w2 = trail (empty_world ()) @ [ToolStarted ''helm'' (status_args ''kong'' NS_GATEWAY)]"
proof (intro exI, rule fresh_pending_release_untouched)
  show "run_tool pending_host ''helm'' (status_args ''kong'' NS_GATEWAY) False None (Some 1200) (empty_world ()) =
    (Inr \<lparr>res_args = ''/usr/bin/helm'' # status_args ''kong'' NS_GATEWAY, returncode = 0, stdout = json_dumps pending_document, stderr = []\<rparr>,
     (empty_world ())\<lparr>trail := [ToolStarted ''helm'' (status_args ''kong'' NS_GATEWAY)]\<rparr>)"
    by (rule pending_status)
  show "json_loads (stdout \<lparr>res_args = ''/usr/bin/helm'' # status_args ''kong'' NS_GATEWAY, returncode = 0, stdout = json_dumps pending_document, stderr = []\<rparr>)
      = Inr pending_document"
    using json_roundtrip [of pending_document] by (simp add: pending_document_def)
  show "py_item pending_document ''info'' = Inr (PDict [(''status'', PStr ''pending-upgrade''), (''last_deployed'', PStr noon_text)])"
    by (simp add: pending_document_def py_item_def dict_get_def)
  show "py_item (PDict [(''status'', PStr ''pending-upgrade''), (''last_deployed'', PStr noon_text)]) ''status'' = Inr (PStr ''pending-upgrade'')"
    by (simp add: py_item_def dict_get_def)
  show "py_item (PDict [(''status'', PStr ''pending-upgrade''), (''last_deployed'', PStr noon_text)]) ''last_deployed'' =
      Inr (PStr (date_text 2025 6 1 @ CHR ''T'' # clock_text 12 0 0 @ fraction_text ''123456789'' @ offset_text False 2 0))"
    by (simp add: py_item_def dict_get_def noon_text_def)
  show "call (wall_clock (cluster pending_host)) ((empty_world ())\<lparr>trail := [ToolStarted ''helm'' (status_args ''kong'' NS_GATEWAY)]\<rparr>) =
      (Inr 1748772600, (empty_world ())\<lparr>trail := [ToolStarted ''helm'' (status_args ''kong'' NS_GATEWAY)]\<rparr>)"
    by (simp add: pending_host_def call_def)
  show "zone_of (offset_text False 2 0) False 2 0" by (simp add: zone_of_def)
  show "(1748772600 :: real) < of_int (((epoch_days (int 2025) (int 6) (int 1) * 24 + int 12) * 60 + int 0) * 60 + int 0
        - (if False then - 1 else 1) * (int 2 * 3600 + int 0 * 60)) + 1200"
    by (simp add: epoch_days_def days_before_year_def days_before_month_def month_days_def leap_def upto.simps)
qed (simp_all add: PENDING_STATES_def month_days_def is_digit_def less_eq_char_def)

end
