(* ===== verification/Secrets.thy ===== *)
theory Secrets
  imports Host Base64
begin

section \<open>Generated credentials and TLS secrets (secrets.py)\<close>

text \<open>
  A secret has a dictionary of base64 texts, or none. Secrets with generated values are created only
  when the server answers that they are missing; TLS secrets follow the certificate files. The last part
  states what the API server promises and shows that a generated secret keeps its first values.
\<close>

datatype outcome = Created | Updated | Unchanged

definition ALPHABET :: string where
  "ALPHABET = ''abcdefghijklmnopqrstuvwxyzABCDEFGHIJKLMNOPQRSTUVWXYZ0123456789''"

definition generate_secret_value :: "'k host \<Rightarrow> nat \<Rightarrow> ('k world, string) act" where
  "generate_secret_value h len = mapA (\<lambda>_. call (random_char h ALPHABET)) [0..<len]"

definition secret_labels :: "(string, string) dict" where
  "secret_labels = [(''app.kubernetes.io/part-of'', ''txplatform''), (''app.kubernetes.io/managed-by'', ''platformctl'')]"

definition make_value :: "string \<times> ('k world, string) act \<Rightarrow> ('k world, string \<times> string) act" where
  "make_value entry = bindA (snd entry) (\<lambda>v. ret (fst entry, v))"

definition ensure_generated_secret ::
  "'k host \<Rightarrow> string \<Rightarrow> string \<Rightarrow> (string \<times> ('k world, string) act) list \<Rightarrow> ('k world, outcome) act" where
  "ensure_generated_secret h ns name keys =
     bindA (catchA (bindA (call (read_secret h ns name)) (\<lambda>_. ret True))
              (\<lambda>e. if e = ApiException 404 then ret False else raise e)) (\<lambda>found.
       if found then ret Unchanged
       else bindA (mapA make_value keys) (\<lambda>vals.
            bindA (effect (SecretWritten ns name) (create_secret h ns name secret_labels (Opaque vals))) (\<lambda>_.
            ret Created)))"

definition apply_tls_secret :: "'k host \<Rightarrow> string \<Rightarrow> string \<Rightarrow> bytes \<Rightarrow> bytes \<Rightarrow> ('k world, outcome) act" where
  "apply_tls_secret h ns name cert_pem key_pem =
     (let data = [(''tls.crt'', b64encode cert_pem), (''tls.key'', b64encode key_pem)] in
      bindA (catchA (bindA (call (read_secret h ns name)) (\<lambda>existing. ret (Some existing)))
               (\<lambda>e. if e = ApiException 404 then ret None else raise e)) (\<lambda>found.
        case found of
          None \<Rightarrow>
            bindA (effect (SecretWritten ns name) (create_secret h ns name secret_labels (Tls data))) (\<lambda>_. ret Created)
        | Some existing \<Rightarrow>
            if (case existing of None \<Rightarrow> False | Some d \<Rightarrow> length d = 2 \<and> map_of d = map_of data) then ret Unchanged
            else bindA (effect (SecretWritten ns name) (replace_secret h ns name secret_labels (Tls data))) (\<lambda>_.
                 ret Updated)))"

text \<open>\<open>bytes.decode()\<close> on ASCII; a byte beyond it belongs to a character that has no value here.\<close>

definition decode_text :: "bytes \<Rightarrow> string result" where
  "decode_text bs = (if \<forall>b \<in> set bs. b < 128 then Inr (map char_of bs) else Inl ValueError)"

definition read_value :: "'k host \<Rightarrow> string \<Rightarrow> string \<Rightarrow> string \<Rightarrow> ('k world, string) act" where
  "read_value h ns name key =
     bindA (call (read_secret h ns name)) (\<lambda>data.
     liftE (case data of
        None \<Rightarrow> Inl TypeError
      | Some d \<Rightarrow> (case dict_get d key of
            None \<Rightarrow> Inl (KeyError key)
          | Some text \<Rightarrow> bindE (b64decode text) decode_text)))"

lemma only_generate: "steps (only evs) (generate_secret_value h len)"
  by (auto simp: generate_secret_value_def intro!: few.steps_intros only_call)

lemma only_ensure_secret:
  "SecretWritten ns name \<in> evs \<Longrightarrow> (\<And>key factory. (key, factory) \<in> set keys \<Longrightarrow> steps (only evs) factory) \<Longrightarrow>
   steps (only evs) (ensure_generated_secret h ns name keys)"
  by (auto simp: ensure_generated_secret_def make_value_def intro!: few.steps_intros only_call only_effect)

lemma only_apply_tls: "SecretWritten ns name \<in> evs \<Longrightarrow> steps (only evs) (apply_tls_secret h ns name cert key)"
  by (auto simp: apply_tls_secret_def Let_def intro!: few.steps_intros only_call only_effect split: option.splits)

lemma only_read_value: "steps (only evs) (read_value h ns name key)"
  by (auto simp: read_value_def intro!: few.steps_intros only_call)

subsection \<open>Credentials are generated once\<close>

definition encode_text :: "string \<Rightarrow> bytes" where
  "encode_text s = map of_char s"

text \<open>
  The part of the Kubernetes API that the property relies on: reading a secret gives what is stored or
  answers 404, and creating one stores its texts as base64. \<open>stored\<close> is what the server holds.
\<close>

definition serves_secrets :: "'k host \<Rightarrow> ('k \<Rightarrow> string \<times> string \<Rightarrow> (string, string) dict option) \<Rightarrow> bool" where
  "serves_secrets h stored \<longleftrightarrow>
     (\<forall>k ns name. \<exists>k'. stored k' = stored k \<and>
        read_secret h ns name k =
          ((case stored k (ns, name) of None \<Rightarrow> Inl (ApiException 404) | Some d \<Rightarrow> Inr (Some d)), k')) \<and>
     (\<forall>k ns name labels d. stored k (ns, name) = None \<longrightarrow>
        (\<exists>k'. create_secret h ns name labels (Opaque d) k = (Inr (), k') \<and>
           stored k' = (stored k)((ns, name) \<mapsto> map (\<lambda>(key, v). (key, b64encode (encode_text v))) d)))"

lemma secret_served:
  assumes "serves_secrets h stored"
  obtains w' where "stored (ext w') = stored (ext w)" "trail w' = trail w"
    "call (read_secret h ns name) w =
       ((case stored (ext w) (ns, name) of None \<Rightarrow> Inl (ApiException 404) | Some d \<Rightarrow> Inr (Some d)), w')"
proof -
  obtain k' where "stored k' = stored (ext w)"
    "read_secret h ns name (ext w) = ((case stored (ext w) (ns, name) of None \<Rightarrow> Inl (ApiException 404) | Some d \<Rightarrow> Inr (Some d)), k')"
    using assms unfolding serves_secrets_def by blast
  then show thesis using that [of "w\<lparr>ext := k'\<rparr>"] by (simp add: call_def)
qed

lemma create_served:
  assumes "serves_secrets h stored" and "stored (ext w) (ns, name) = None"
  obtains w' where "effect ev (create_secret h ns name labels (Opaque d)) w = (Inr (), w')"
    "stored (ext w') = (stored (ext w))((ns, name) \<mapsto> map (\<lambda>(key, v). (key, b64encode (encode_text v))) d)"
proof -
  obtain k' where "create_secret h ns name labels (Opaque d) (ext w) = (Inr (), k')"
    "stored k' = (stored (ext w))((ns, name) \<mapsto> map (\<lambda>(key, v). (key, b64encode (encode_text v))) d)"
    using assms unfolding serves_secrets_def by blast
  then show thesis using that [of "w\<lparr>ext := k', trail := trail w @ [ev]\<rparr>"] by (simp add: effect_def call_def)
qed

lemma ensure_existing:
  assumes "serves_secrets h stored" and "stored (ext w) (ns, name) = Some d"
  obtains w' where "ensure_generated_secret h ns name keys w = (Inr Unchanged, w')"
    "stored (ext w') = stored (ext w)" "trail w' = trail w"
proof -
  obtain w' where w': "stored (ext w') = stored (ext w)" "trail w' = trail w"
    "call (read_secret h ns name) w = (Inr (Some d), w')"
    using secret_served [OF assms(1), of w ns name] assms(2) by auto
  then show thesis
    by (intro that [of w']) (simp_all add: ensure_generated_secret_def bindA_apply catchA_def)
qed

lemma decode_encoded: "\<forall>c \<in> set v. of_char c < (128 :: nat) \<Longrightarrow> bindE (b64decode (b64encode (encode_text v))) decode_text = Inr v"
proof -
  assume ascii: "\<forall>c \<in> set v. of_char c < (128 :: nat)"
  then have "is_bytes (encode_text v)" by (auto simp: is_bytes_def encode_text_def)
  then show ?thesis using ascii by (simp add: b64decode_encode decode_text_def encode_text_def)
qed

text \<open>Factories that return ASCII texts and leave the stored secrets as they are.\<close>

definition tame :: "('k \<Rightarrow> string \<times> string \<Rightarrow> (string, string) dict option) \<Rightarrow> ('k world, string) act \<Rightarrow> bool" where
  "tame stored m \<longleftrightarrow> (\<forall>w. \<exists>v w'. m w = (Inr v, w') \<and> stored (ext w') = stored (ext w) \<and> list_all (\<lambda>c. of_char c < (128 :: nat)) v)"

text \<open>What the factories of a secret gave: the value of each key comes from one run of its factory.\<close>

definition made_by :: "(string \<times> ('k world, string) act) list \<Rightarrow> (string, string) dict \<Rightarrow> bool" where
  "made_by keys vals \<longleftrightarrow> list_all2 (\<lambda>(key, m) (key', v). key' = key \<and>
     list_all (\<lambda>c. of_char c < (128 :: nat)) v \<and> (\<exists>u u'. m u = (Inr v, u'))) keys vals"

lemma made_by_keys: "made_by keys d \<Longrightarrow> map fst d = map fst keys"
  unfolding made_by_def by (induction rule: list_all2_induct) auto

lemma generate_all:
  assumes "list_all (\<lambda>(key, m). tame stored m) keys"
  obtains vals w' where "mapA make_value keys w = (Inr vals, w')"
    "stored (ext w') = stored (ext w)" "made_by keys vals"
  using assms
proof (induction keys arbitrary: w thesis)
  case Nil
  show ?case by (rule Nil.prems(1)) (simp_all add: made_by_def)
next
  case (Cons km keys)
  obtain key m where km: "km = (key, m)" by (cases km)
  obtain v w1 where one: "m w = (Inr v, w1)" "stored (ext w1) = stored (ext w)" "list_all (\<lambda>c. of_char c < (128 :: nat)) v"
  proof -
    have "tame stored m" using Cons.prems(2) by (simp add: km)
    then show thesis using that unfolding tame_def by blast
  qed
  have rest: "list_all (\<lambda>(key, m). tame stored m) keys" using Cons.prems(2) by simp
  obtain vals w2 where "mapA make_value keys w1 = (Inr vals, w2)"
    "stored (ext w2) = stored (ext w1)" "made_by keys vals"
    by (rule Cons.IH [OF _ rest])
  moreover have "make_value km w = (Inr (key, v), w1)"
    using one(1) by (simp add: km make_value_def bindA_Inr)
  ultimately have "mapA make_value (km # keys) w = (Inr ((key, v) # vals), w2)" by (simp add: bindA_Inr)
  moreover have "made_by (km # keys) ((key, v) # vals)"
    using one \<open>made_by keys vals\<close> unfolding made_by_def km by auto
  ultimately show ?case using Cons.prems(1) one(2) \<open>stored (ext w2) = stored (ext w1)\<close> by simp
qed

lemma read_value_served:
  assumes "serves_secrets h stored" and "stored (ext w) (ns, name) = Some (map (\<lambda>(key, v). (key, b64encode (encode_text v))) d)"
    and "map_of d key = Some v" and "list_all (\<lambda>c. of_char c < (128 :: nat)) v"
  shows "fst (read_value h ns name key w) = Inr v"
proof -
  have "map_of (map (\<lambda>(key, v). (key, b64encode (encode_text v))) d) key = Some (b64encode (encode_text v))"
    using assms(3) by (induction d) auto
  moreover have "bindE (b64decode (b64encode (encode_text v))) decode_text = Inr v"
    using assms(4) by (intro decode_encoded) (simp add: list_all_iff)
  moreover obtain w' where "call (read_secret h ns name) w =
      (Inr (Some (map (\<lambda>(key, v). (key, b64encode (encode_text v))) d)), w')"
    using secret_served [OF assms(1), of w ns name] assms(2) by auto
  ultimately show ?thesis by (simp add: read_value_def bindA_apply dict_get_def)
qed

lemma ensure_missing:
  assumes "serves_secrets h stored" and "stored (ext w) (ns, name) = None" and "list_all (\<lambda>(key, m). tame stored m) keys"
  obtains vals w' where "ensure_generated_secret h ns name keys w = (Inr Created, w')" "made_by keys vals"
    "stored (ext w') (ns, name) = Some (map (\<lambda>(key, v). (key, b64encode (encode_text v))) vals)"
proof -
  obtain w1 where w1: "stored (ext w1) = stored (ext w)" "call (read_secret h ns name) w = (Inl (ApiException 404), w1)"
    using secret_served [OF assms(1), of w ns name] assms(2) by auto
  obtain vals w2 where w2: "mapA make_value keys w1 = (Inr vals, w2)"
    "stored (ext w2) = stored (ext w1)" "made_by keys vals"
    by (rule generate_all [OF assms(3)])
  have "stored (ext w2) (ns, name) = None" using w1 w2 assms(2) by simp
  from create_served [OF assms(1) this, of "SecretWritten ns name" secret_labels vals]
  obtain w3 where "effect (SecretWritten ns name) (create_secret h ns name secret_labels (Opaque vals)) w2 = (Inr (), w3)"
    "stored (ext w3) = (stored (ext w2))((ns, name) \<mapsto> map (\<lambda>(key, v). (key, b64encode (encode_text v))) vals)" by blast
  then show thesis using w1 w2
    by (intro that [of w3 vals]) (simp_all add: ensure_generated_secret_def bindA_apply catchA_def)
qed

text \<open>
  A secret that was missing is created with the values its factories gave, and from then on
  ensuring it again, with whatever factories, writes nothing and leaves those values: every key reads
  back, before and after the second call, as the same text that a run of its factory returned.
\<close>

theorem generated_once:
  assumes "serves_secrets h stored" and "stored (ext w) (ns, name) = None"
    and "list_all (\<lambda>(key, m). tame stored m) keys" and "(key, m) \<in> set keys" and "distinct (map fst keys)"
  shows "\<exists>w1 w2 v. ensure_generated_secret h ns name keys w = (Inr Created, w1) \<and>
    ensure_generated_secret h ns name others w1 = (Inr Unchanged, w2) \<and> trail w2 = trail w1 \<and>
    (\<exists>u u'. m u = (Inr v, u')) \<and> fst (read_value h ns name key w1) = Inr v \<and> fst (read_value h ns name key w2) = Inr v"
proof -
  obtain d w1 where made: "ensure_generated_secret h ns name keys w = (Inr Created, w1)" "made_by keys d"
    "stored (ext w1) (ns, name) = Some (map (\<lambda>(key, v). (key, b64encode (encode_text v))) d)"
    using ensure_missing [OF assms(1-3)] by metis
  obtain w2 where again: "ensure_generated_secret h ns name others w1 = (Inr Unchanged, w2)"
    "stored (ext w2) = stored (ext w1)" "trail w2 = trail w1"
    using ensure_existing [OF assms(1) made(3)] by metis
  obtain n where n: "n < length keys" "keys ! n = (key, m)" using assms(4) by (metis in_set_conv_nth)
  have len: "length d = length keys" using made(2) by (simp add: made_by_def list_all2_lengthD)
  have nth: "case d ! n of (key', v) \<Rightarrow> key' = key \<and>
      list_all (\<lambda>c. of_char c < (128 :: nat)) v \<and> (\<exists>u u'. m u = (Inr v, u'))"
    using list_all2_nthD [OF made(2) [unfolded made_by_def] n(1)] n(2) by auto
  obtain v where v: "d ! n = (key, v)" "list_all (\<lambda>c. of_char c < (128 :: nat)) v" "\<exists>u u'. m u = (Inr v, u')"
    using nth by (cases "d ! n") auto
  have "map fst d = map fst keys" by (rule made_by_keys [OF made(2)])
  then have "map_of d key = Some v"
    using assms(5) v(1) n(1) len by (metis map_of_eq_Some_iff nth_mem)
  then have "fst (read_value h ns name key w1) = Inr v" "fst (read_value h ns name key w2) = Inr v"
    using read_value_served [OF assms(1)] made(3) again(2) v(2) by (auto simp: fun_eq_iff)
  then show ?thesis using made(1) again v(3) by blast
qed

text \<open>An API server that keeps secrets in a map.\<close>

definition store_host :: "(string \<times> string \<Rightarrow> (string, string) dict option) host" where
  "store_host = blank_host
     \<lparr>read_secret := (\<lambda>ns name k. (case k (ns, name) of None \<Rightarrow> (Inl (ApiException 404), k) | Some d \<Rightarrow> (Inr (Some d), k))),
      create_secret := (\<lambda>ns name labels body k. (case body of
         Opaque d \<Rightarrow> (Inr (), k((ns, name) \<mapsto> map (\<lambda>(key, v). (key, b64encode (encode_text v))) d))
       | Tls d \<Rightarrow> (Inr (), k((ns, name) \<mapsto> d))))\<rparr>"

lemma store_serves: "serves_secrets store_host (\<lambda>k. k)"
  by (auto simp: serves_secrets_def store_host_def split: option.splits)

theorem generated_once_witness:
  "\<exists>w1 w2 v. ensure_generated_secret store_host ''ns'' ''admin'' [(''username'', ret ''platform-admin'')] (empty_world Map.empty) =
      (Inr Created, w1) \<and>
    ensure_generated_secret store_host ''ns'' ''admin'' [(''username'', ret ''root'')] w1 = (Inr Unchanged, w2) \<and> trail w2 = trail w1 \<and>
    (\<exists>u u'. ret ''platform-admin'' (u :: (string \<times> string \<Rightarrow> (string, string) dict option) world) = (Inr v, u')) \<and>
    fst (read_value store_host ''ns'' ''admin'' ''username'' w1) = Inr v \<and>
    fst (read_value store_host ''ns'' ''admin'' ''username'' w2) = Inr v"
  by (rule generated_once [OF store_serves]) (auto simp: empty_world_def tame_def ret_def)

end
