(* ===== verification/Identity.thy ===== *)
theory Identity
  imports Secrets
begin

section \<open>Tokens of the public endpoints (identity.py)\<close>

text \<open>
  Client-credentials tokens with their cache, which the provider object keeps: an action takes the
  cache and returns the new one (an exception leaves it as it was, since the entry is stored last). The
  claims of a token are its middle part, base64 for URLs without padding. TLS trust is a matter of the
  HTTP client and is not modelled.
\<close>

definition REALM :: string where "REALM = ''transaction-platform''"
definition KEYCLOAK_PUBLIC_URL :: string where "KEYCLOAK_PUBLIC_URL = ''https://localhost:9443''"
definition ISSUER :: string where "ISSUER = KEYCLOAK_PUBLIC_URL @ ''/realms/'' @ REALM"
definition TOKEN_URL :: string where "TOKEN_URL = ISSUER @ ''/protocol/openid-connect/token''"
definition CLIENT_SECRETS_NAME :: string where "CLIENT_SECRETS_NAME = ''keycloak-clients''"
definition ADMIN_SECRET_NAME :: string where "ADMIN_SECRET_NAME = ''keycloak-admin''"
definition CLIENTS :: "string list" where "CLIENTS = [''scenario-runner'', ''order-reader'']"

subsection \<open>Claims\<close>

definition from_url_char :: "char \<Rightarrow> char" where
  "from_url_char c = (if c = CHR ''-'' then CHR ''+'' else if c = CHR ''_'' then CHR ''/'' else c)"

definition urlsafe_b64decode :: "string \<Rightarrow> bytes result" where
  "urlsafe_b64decode s = b64decode (map from_url_char s)"

text \<open>\<open>-len(payload) % 4\<close> padding characters complete the last group.\<close>

definition decode_claims :: "string \<Rightarrow> pyval result" where
  "decode_claims token =
     (case split_on CHR ''.'' token of
        _ # payload # _ \<Rightarrow>
          bindE (urlsafe_b64decode (payload @ replicate (nat (- int (length payload) mod 4)) CHR ''='')) (\<lambda>bs.
          bindE (decode_text bs) json_loads)
      | _ \<Rightarrow> Inl IndexError)"

subsection \<open>The token cache\<close>

record cached_token =
  token_value :: pyval
  expires_at :: real

type_synonym token_cache = "(string, cached_token) dict"

definition fetch_fresh :: "'k host \<Rightarrow> string \<Rightarrow> token_cache \<Rightarrow> ('k world, pyval \<times> token_cache) act" where
  "fetch_fresh h client cache =
     bindA (read_value h NS_APP CLIENT_SECRETS_NAME client) (\<lambda>secret.
     bindA (call (post_form h TOKEN_URL
              [(''grant_type'', ''client_credentials''), (''client_id'', client), (''client_secret'', secret)])) (\<lambda>response.
     bindA (liftE (bindE (raise_for_status response) json_of)) (\<lambda>body.
     bindA (liftE (py_item body ''access_token'')) (\<lambda>value.
     bindA (call (wall_clock (cluster h))) (\<lambda>now.
     bindA (liftE (bindE (py_get body ''expires_in'' (PInt 60)) py_int)) (\<lambda>lifetime.
     ret (value, dict_put client \<lparr>token_value = value, expires_at = now + of_int lifetime\<rparr> cache)))))))"

definition token :: "'k host \<Rightarrow> string \<Rightarrow> token_cache \<Rightarrow> ('k world, pyval \<times> token_cache) act" where
  "token h client cache =
     (case dict_get cache client of
        None \<Rightarrow> fetch_fresh h client cache
      | Some cached \<Rightarrow>
          bindA (call (wall_clock (cluster h))) (\<lambda>now.
            if expires_at cached - now > 30 then ret (token_value cached, cache)
            else fetch_fresh h client cache))"

lemma fetch_fresh_stores:
  "fetch_fresh h client cache w = (Inr (v, cache'), w') \<Longrightarrow>
   \<exists>t. dict_get cache' client = Some \<lparr>token_value = v, expires_at = t\<rparr> \<and>
     (\<forall>other. other \<noteq> client \<longrightarrow> dict_get cache' other = dict_get cache other)"
  by (auto simp: fetch_fresh_def dict_get_put bindA_apply split: prod.splits sum.splits)

text \<open>A token that is handed out is the one the cache holds afterwards, whether or not it was fetched.\<close>

lemma token_cached:
  "token h client cache w = (Inr (v, cache'), w') \<Longrightarrow>
   map_option token_value (dict_get cache' client) = Some v \<and>
     (\<forall>other. other \<noteq> client \<longrightarrow> dict_get cache' other = dict_get cache other)"
  unfolding token_def
  by (auto simp: bindA_apply split: option.splits prod.splits sum.splits if_splits dest!: fetch_fresh_stores)

subsection \<open>Claims survive the encoding of a token\<close>

text \<open>How an issuer writes a part of a token: compact base64 for URLs.\<close>

definition to_url_char :: "char \<Rightarrow> char" where
  "to_url_char c = (if c = CHR ''+'' then CHR ''-'' else if c = CHR ''/'' then CHR ''_'' else c)"

definition token_part :: "bytes \<Rightarrow> string" where
  "token_part bs = map to_url_char (filter (\<lambda>c. c \<noteq> CHR ''='') (b64encode bs))"

lemma b64_char_plain: "n < 64 \<Longrightarrow> b64_char n \<noteq> CHR ''-'' \<and> b64_char n \<noteq> CHR ''_'' \<and> b64_char n \<noteq> CHR ''.'' \<and> b64_char n \<noteq> CHR ''=''"
proof -
  assume n: "n < 64"
  have "b64_value (b64_char n) = Some n" "b64_char n \<noteq> CHR ''=''" using b64_char_props [OF n] by simp_all
  then show ?thesis by (auto simp: b64_value_def Let_def)
qed

lemma b64_shape:
  "is_bytes bs \<Longrightarrow> \<exists>u k. b64encode bs = u @ replicate k CHR ''='' \<and> k < 4 \<and>
     (\<forall>c \<in> set u. c \<notin> {CHR ''-'', CHR ''_'', CHR ''.'', CHR ''=''})"
proof (induction bs rule: b64encode.induct)
  case (2 a)
  then have "a div 4 < 64" "a mod 4 * 16 < 64" by auto
  then show ?case
    by (intro exI [of _ "[b64_char (a div 4), b64_char (a mod 4 * 16)]"] exI [of _ 2])
      (simp add: b64_char_plain numeral_2_eq_2)
next
  case (3 a b)
  then have "a div 4 < 64" "a mod 4 * 16 + b div 16 < 64" "b mod 16 * 4 < 64" by auto
  then show ?case
    by (intro exI [of _ "[b64_char (a div 4), b64_char (a mod 4 * 16 + b div 16), b64_char (b mod 16 * 4)]"] exI [of _ 1])
      (simp add: b64_char_plain)
next
  case (4 a b c bs)
  have small: "a < 256" "b < 256" "c < 256" and bytes: "is_bytes bs" using 4(2) by simp_all
  from small have bounds: "a div 4 < 64" "a mod 4 * 16 + b div 16 < 64" "b mod 16 * 4 + c div 64 < 64" "c mod 64 < 64"
    by auto
  from 4(1) [OF bytes] obtain u k where u: "b64encode bs = u @ replicate k CHR ''=''" "k < 4"
    "\<forall>c \<in> set u. c \<notin> {CHR ''-'', CHR ''_'', CHR ''.'', CHR ''=''}" by blast
  let ?u = "[b64_char (a div 4), b64_char (a mod 4 * 16 + b div 16), b64_char (b mod 16 * 4 + c div 64), b64_char (c mod 64)] @ u"
  have "b64encode (a # b # c # bs) = ?u @ replicate k CHR ''=''" using u(1) by simp
  moreover have "\<forall>c \<in> set ?u. c \<notin> {CHR ''-'', CHR ''_'', CHR ''.'', CHR ''=''}"
    using u(3) bounds by (simp add: b64_char_plain)
  ultimately show ?case using u(2) by blast
qed simp

lemma token_part_decodes:
  assumes "is_bytes bs"
  shows "urlsafe_b64decode (token_part bs @ replicate (nat (- int (length (token_part bs)) mod 4)) CHR ''='') = Inr bs"
    and "CHR ''.'' \<notin> set (token_part bs)"
proof -
  obtain u k where u: "b64encode bs = u @ replicate k CHR ''=''" "k < 4"
    and plain: "\<forall>c \<in> set u. c \<notin> {CHR ''-'', CHR ''_'', CHR ''.'', CHR ''=''}"
    using b64_shape [OF assms] by blast
  have part: "token_part bs = map to_url_char u"
    using plain by (simp add: token_part_def u(1) filter_id_conv)
  then show "CHR ''.'' \<notin> set (token_part bs)"
    using plain by (auto simp: to_url_char_def split: if_splits)
  have "map from_url_char (map to_url_char u) = u"
    using plain by (induction u) (auto simp: from_url_char_def to_url_char_def)
  moreover obtain m where "length u + k = 4 * m" using length_b64encode [of bs] u(1) by simp
  then have "int (length u) = 4 * int m - int k" by linarith
  then have "- int (length u) mod 4 = int k" using u(2) by presburger
  ultimately show "urlsafe_b64decode (token_part bs @ replicate (nat (- int (length (token_part bs)) mod 4)) CHR ''='') = Inr bs"
    using b64decode_encode [OF assms] by (simp add: urlsafe_b64decode_def part u(1) from_url_char_def)
qed

text \<open>
  The claims an issuer wrote are the claims that are read: a token whose second part is the
  compact base64 of a JSON document decodes to that document, whatever its header and signature are.
\<close>

theorem claims_roundtrip:
  assumes "storable claims" and "CHR ''.'' \<notin> set header_part"
  shows "decode_claims (header_part @ ''.'' @ token_part (encode_text (json_dumps claims)) @ ''.'' @ signature) = Inr claims"
proof -
  let ?bs = "encode_text (json_dumps claims)"
  have printed: "of_char c < (127 :: nat)" if "c \<in> set (json_dumps claims)" for c
    using json_dumps_printable [OF assms(1) that] by (simp add: printable_def)
  then have bytes: "is_bytes ?bs" and ascii: "decode_text ?bs = Inr (json_dumps claims)"
    by (auto simp: is_bytes_def encode_text_def decode_text_def dest!: printed)
  have "split_on CHR ''.'' (header_part @ ''.'' @ token_part ?bs @ ''.'' @ signature) =
      header_part # token_part ?bs # split_on CHR ''.'' signature"
    using split_on_append [OF assms(2)] split_on_append [OF token_part_decodes(2) [OF bytes]] by simp
  then show ?thesis
    using token_part_decodes(1) [OF bytes] ascii json_roundtrip [OF assms(1)] by (simp add: decode_claims_def)
qed

theorem claims_roundtrip_witness:
  "decode_claims (''e30'' @ ''.'' @ token_part (encode_text (json_dumps
     (PDict [(''sub'', PStr ''a-1''), (''exp'', PInt 1700000000), (''scope'', PList [PStr ''orders:read'', PNone])]))) @ ''.'' @ ''c2ln'') =
   Inr (PDict [(''sub'', PStr ''a-1''), (''exp'', PInt 1700000000), (''scope'', PList [PStr ''orders:read'', PNone])])"
  by (rule claims_roundtrip) simp_all

end
