(* ===== verification/Images.thy ===== *)
theory Images
  imports Versions
begin

section \<open>Service images (images.py)\<close>

text \<open>
  An image is tagged with a hash of what goes into it, so an unchanged service keeps its tag. The hash
  function is a field of the host. Builds run in a pool of three; each is one program, and the model runs
  them in the order they were submitted: all of them run, and the first exception is raised at the end.
\<close>

definition SERVICES :: "(string, string) dict" where
  "SERVICES = [(''order-service'', ''OrderService''), (''inventory-service'', ''InventoryService''),
     (''fraud-service'', ''FraudService''), (''payment-service'', ''PaymentService''), (''shipping-service'', ''ShippingService'')]"

definition SHARED_INPUTS :: "string list" where
  "SHARED_INPUTS = [''global.json'', ''Directory.Build.props'', ''Directory.Packages.props'', ''.dockerignore'', ''src/Dockerfile'']"

definition IGNORED_DIRECTORIES :: "string list" where
  "IGNORED_DIRECTORIES = [''bin'', ''obj'']"

subsection \<open>The content tag\<close>

text \<open>\<open>bytes.replace(b"\r\n", b"\n")\<close>.\<close>

fun unix_lines :: "bytes \<Rightarrow> bytes" where
  "unix_lines (a # b # bs) = (if a = 13 \<and> b = 10 then 10 # unix_lines bs else a # unix_lines (b # bs))"
| "unix_lines bs = bs"

definition wanted :: "(string list \<times> bool) list \<Rightarrow> string list list" where
  "wanted paths = sort (map fst (filter (\<lambda>(parts, file). file \<and> set parts \<inter> set IGNORED_DIRECTORIES = {}) paths))"

text \<open>The files of a folder below the root, by their path relative to the root.\<close>

definition source_files :: "'k host \<Rightarrow> string \<Rightarrow> ('k world, string list) act" where
  "source_files h folder =
     bindA (call (rglob h (root_dir h @ CHR ''/'' # folder))) (\<lambda>paths.
       ret (map (\<lambda>parts. folder @ CHR ''/'' # join ''/'' parts) (wanted paths)))"

definition tag_input :: "(string \<times> bytes) list \<Rightarrow> bytes" where
  "tag_input files = concat (map (\<lambda>(path, content). map of_char path @ unix_lines content) files)"

definition content_tag :: "'k host \<Rightarrow> string \<Rightarrow> ('k world, string) act" where
  "content_tag h project =
     bindA (call (is_dir h (root_dir h @ ''/src/'' @ project))) (\<lambda>there.
       if \<not> there then raise ToolError
       else bindA (source_files h ''src/ServiceDefaults'') (\<lambda>defaults.
            bindA (source_files h (''src/'' @ project)) (\<lambda>sources.
            bindA (mapA (\<lambda>path. bindA (call (read_bytes h (root_dir h @ CHR ''/'' # path))) (\<lambda>content. ret (path, content)))
                     (SHARED_INPUTS @ defaults @ sources)) (\<lambda>files.
            ret (take 12 (sha256_hex h (tag_input files)))))))"

definition image_name :: "string \<Rightarrow> string \<Rightarrow> string" where
  "image_name service tag = ''txplatform/'' @ service @ CHR '':'' # tag"

subsection \<open>Building\<close>

definition exists_locally :: "'k host \<Rightarrow> string \<Rightarrow> ('k world, bool) act" where
  "exists_locally h img =
     bindA (ask_tool h ''docker'' [''image'', ''inspect'', img] (Some 60)) (\<lambda>result. ret (returncode result = 0))"

definition build_image :: "'k host \<Rightarrow> string \<times> string \<times> string \<Rightarrow> ('k world, unit) act" where
  "build_image h = (\<lambda>(service, project, tag).
     bindA (load_manifest h) (\<lambda>manifest.
     bindA (do_tool h ''docker''
              [''build'', ''--file'', root_dir h @ ''/src/Dockerfile'',
               ''--build-arg'', ''SERVICE='' @ project,
               ''--build-arg'', ''SDK_IMAGE='' @ dotnet_sdk (images manifest),
               ''--build-arg'', ''RUNTIME_IMAGE='' @ dotnet_runtime (images manifest),
               ''--tag'', image_name service tag, root_dir h] (Some 1800)) (\<lambda>_. ret ())))"

text \<open>Every action runs; then the first exception, in the order of submission, is raised.\<close>

fun run_all :: "('w, unit) act list \<Rightarrow> ('w, unit) act" where
  "run_all [] = ret ()"
| "run_all (m # ms) = (\<lambda>w. case m w of
     (Inl e, w1) \<Rightarrow> (Inl e, snd (run_all ms w1))
   | (Inr _, w1) \<Rightarrow> run_all ms w1)"

definition ensure_service_images :: "'k host \<Rightarrow> ('k world, (string, string) dict) act" where
  "ensure_service_images h =
     bindA (mapA (\<lambda>(service, project). bindA (content_tag h project) (\<lambda>tag. ret (service, project, tag))) SERVICES) (\<lambda>tags.
     bindA (mapA (\<lambda>(service, project, tag). bindA (exists_locally h (image_name service tag)) (\<lambda>there.
              ret (if there then [] else [(service, project, tag)]))) tags) (\<lambda>missing.
     bindA (run_all (map (build_image h) (concat missing))) (\<lambda>_.
     ret (map (\<lambda>(service, project, tag). (service, tag)) tags))))"

subsection \<open>The tag does not depend on line endings\<close>

text \<open>What a Windows checkout makes of a file with Unix line endings.\<close>

definition windows_lines :: "bytes \<Rightarrow> bytes" where
  "windows_lines bs = concat (map (\<lambda>b. if b = 10 then [13, 10] else [b]) bs)"

lemma unix_lines_plain: "13 \<notin> set bs \<Longrightarrow> unix_lines bs = bs"
  by (induction bs rule: unix_lines.induct) auto

lemma unix_lines_Cons: "a \<noteq> 13 \<Longrightarrow> unix_lines (a # bs) = a # unix_lines bs"
  by (cases bs) simp_all

lemma unix_of_windows: "13 \<notin> set bs \<Longrightarrow> unix_lines (windows_lines bs) = bs"
  by (induction bs) (auto simp: windows_lines_def unix_lines_Cons)

lemma checkout_same_input:
  "\<forall>(path, content) \<in> set files. 13 \<notin> set content \<Longrightarrow>
   tag_input (map (\<lambda>(path, content). (path, windows_lines content)) files) = tag_input files"
  by (induction files) (auto simp: tag_input_def unix_of_windows unix_lines_plain)

text \<open>
  The input of the hash has no separators: a folder whose file \<open>a\<close> holds \<open>bc\<close> and one whose file \<open>ab\<close>
  holds \<open>c\<close> get the same tag, whatever the hash function is.
\<close>

lemma tag_input_ambiguous:
  "tag_input [(''src/Api/a'', map of_char ''bc'')] = tag_input [(''src/Api/ab'', map of_char ''c'')]"
  by (simp add: tag_input_def)

lemma steps_run_all:
  assumes "step_rel R" and "\<And>m. m \<in> set ms \<Longrightarrow> steps R m"
  shows "steps R (run_all ms)"
  using assms(2)
proof (induction ms)
  case Nil
  show ?case using step_rel.steps_Pair [OF assms(1)] by (simp add: ret_def)
next
  case (Cons m ms)
  show ?case
  proof (rule stepsI)
    fix w r w' assume run: "run_all (m # ms) w = (r, w')"
    obtain r1 w1 where m: "m w = (r1, w1)" by (cases "m w")
    then have "snd (run_all ms w1) = w'" using run by (cases r1) auto
    moreover have "R w w1" using Cons.prems m by (auto dest: stepsD)
    moreover have "R w1 (snd (run_all ms w1))" using Cons by (auto simp: steps_def)
    ultimately show "R w w'" using step_rel.step_trans [OF assms(1)] by metis
  qed
qed

end
