(* ===== verification/Pki.thy ===== *)
theory Pki
  imports Host
begin

section \<open>The local certificate authority (pki.py)\<close>

text \<open>
  The authority and the server certificate live in four files. They are kept while they are good for
  another fourteen days and made anew otherwise. Keys, signatures and the reading of certificates are the
  cryptography library, a group of fields of the host; certificates and keys are the bytes of their PEM
  files. Times are seconds. The theory
  \<open>PkiLaws\<close> states what the library and the file system promise and shows that one call settles the files.
\<close>

definition CA_VALIDITY :: real where "CA_VALIDITY = 365 * 86400"
definition LEAF_VALIDITY :: real where "LEAF_VALIDITY = 90 * 86400"
definition RENEW_BEFORE :: real where "RENEW_BEFORE = 14 * 86400"
definition REQUIRED_DNS_NAMES :: "string list" where "REQUIRED_DNS_NAMES = [''localhost'']"
definition REQUIRED_IP_ADDRESSES :: "string list" where "REQUIRED_IP_ADDRESSES = [''127.0.0.1'']"

datatype pki_action = Reuse | Create | Renew

record certificate_facts =
  not_after :: real
  dns_names :: "string set"
  ip_addresses :: "string set"
  issued_by_current_ca :: bool

definition decide :: "certificate_facts option \<Rightarrow> real \<Rightarrow> bool \<Rightarrow> pki_action" where
  "decide facts now check_names =
     (case facts of
        None \<Rightarrow> Create
      | Some f \<Rightarrow>
          if not_after f - now < RENEW_BEFORE then Renew
          else if \<not> issued_by_current_ca f then Renew
          else if check_names \<and> (\<not> set REQUIRED_DNS_NAMES \<subseteq> dns_names f \<or> \<not> set REQUIRED_IP_ADDRESSES \<subseteq> ip_addresses f)
          then Renew
          else Reuse)"

record pki_files =
  ca_cert :: string
  ca_key :: string
  tls_cert :: string
  tls_key :: string

definition default_files :: "'k host \<Rightarrow> pki_files" where
  "default_files h = (let root = local_state_dir h @ ''/pki'' in
     \<lparr>ca_cert = root @ ''/ca.crt'', ca_key = root @ ''/ca.key'', tls_cert = root @ ''/tls.crt'', tls_key = root @ ''/tls.key''\<rparr>)"

record pki_result =
  result_files :: pki_files
  ca_action :: pki_action
  leaf_action :: pki_action

subsection \<open>Reading and writing certificates\<close>

definition now_utc :: "'k host \<Rightarrow> ('k world, real) act" where
  "now_utc h = call (wall_clock (cluster h))"

definition facts_of :: "'k host \<Rightarrow> bytes \<Rightarrow> bytes option \<Rightarrow> certificate_facts result" where
  "facts_of h cert ca =
     bindE (view_certificate h cert) (\<lambda>v.
       let (dns, ips) = (case cv_names v of None \<Rightarrow> ([], []) | Some names \<Rightarrow> names) in
       Inr \<lparr>not_after = cv_not_after v, dns_names = set dns, ip_addresses = set ips,
            issued_by_current_ca = (case ca of None \<Rightarrow> True | Some c \<Rightarrow> directly_issued h cert c)\<rparr>)"

definition load_cert :: "'k host \<Rightarrow> string \<Rightarrow> ('k world, bytes option) act" where
  "load_cert h path =
     bindA (call (is_file h path)) (\<lambda>there.
       if \<not> there then ret None
       else bindA (call (read_bytes h path)) (\<lambda>pem. bindA (liftE (view_certificate h pem)) (\<lambda>_. ret (Some pem))))"

definition ca_request :: "bytes \<Rightarrow> real \<Rightarrow> cert_request" where
  "ca_request key now =
     \<lparr>cr_subject = ''txplatform local development CA'', cr_issuer = ''txplatform local development CA'', cr_key = key,
      cr_not_before = now - 300, cr_not_after = now + CA_VALIDITY, cr_names = None, cr_authority = True,
      cr_path_length = Some 0, cr_usages = [''digital_signature'', ''key_cert_sign'', ''crl_sign''],
      cr_server_auth = False, cr_issuer_certificate = None\<rparr>"

definition leaf_request :: "bytes \<Rightarrow> real \<Rightarrow> bytes \<Rightarrow> string \<Rightarrow> cert_request" where
  "leaf_request key now ca issuer =
     \<lparr>cr_subject = ''localhost'', cr_issuer = issuer, cr_key = key,
      cr_not_before = now - 300, cr_not_after = now + LEAF_VALIDITY,
      cr_names = Some (REQUIRED_DNS_NAMES, REQUIRED_IP_ADDRESSES), cr_authority = False, cr_path_length = None,
      cr_usages = [''digital_signature'', ''key_encipherment''], cr_server_auth = True, cr_issuer_certificate = Some ca\<rparr>"

definition create_ca :: "'k host \<Rightarrow> pki_files \<Rightarrow> ('k world, bytes \<times> bytes) act" where
  "create_ca h files =
     bindA (call (new_private_key h)) (\<lambda>key.
     bindA (now_utc h) (\<lambda>now.
     bindA (call (sign_certificate h (ca_request key now) key)) (\<lambda>cert.
     bindA (call (make_dirs h (fst (rpartition CHR ''/'' (ca_key files))))) (\<lambda>_.
     bindA (write_file h (ca_key files) key) (\<lambda>_.
     bindA (write_file h (ca_cert files) cert) (\<lambda>_. ret (cert, key)))))))"

definition create_leaf :: "'k host \<Rightarrow> pki_files \<Rightarrow> bytes \<Rightarrow> bytes \<Rightarrow> ('k world, unit) act" where
  "create_leaf h files ca ca_private =
     bindA (call (new_private_key h)) (\<lambda>key.
     bindA (now_utc h) (\<lambda>now.
     bindA (liftE (view_certificate h ca)) (\<lambda>v.
     bindA (call (sign_certificate h (leaf_request key now ca (cv_subject v)) ca_private)) (\<lambda>cert.
     bindA (write_file h (tls_key files) key) (\<lambda>_. write_file h (tls_cert files) cert)))))"

text \<open>The facts of a certificate that counts: its key has to be there as well.\<close>

definition facts_with_key :: "'k host \<Rightarrow> bytes option \<Rightarrow> string \<Rightarrow> bytes option \<Rightarrow> ('k world, certificate_facts option) act" where
  "facts_with_key h cert key_path ca =
     (case cert of
        None \<Rightarrow> ret None
      | Some c \<Rightarrow>
          bindA (call (is_file h key_path)) (\<lambda>there.
            if \<not> there then ret None
            else bindA (liftE (facts_of h c ca)) (\<lambda>f. ret (Some f))))"

definition settle_ca :: "'k host \<Rightarrow> pki_files \<Rightarrow> real \<Rightarrow> ('k world, pki_action \<times> bytes \<times> bytes) act" where
  "settle_ca h files now =
     bindA (load_cert h (ca_cert files)) (\<lambda>cert.
     bindA (facts_with_key h cert (ca_key files) None) (\<lambda>facts.
       let action = decide facts now False in
       bindA (case (action, cert) of
                (Reuse, Some c) \<Rightarrow>
                  bindA (call (read_bytes h (ca_key files))) (\<lambda>pem.
                  bindA (liftE (load_private_key h pem)) (\<lambda>key. ret (c, key)))
              | _ \<Rightarrow> create_ca h files) (\<lambda>(c, key). ret (action, c, key))))"

definition settle_leaf :: "'k host \<Rightarrow> pki_files \<Rightarrow> real \<Rightarrow> bytes \<Rightarrow> bytes \<Rightarrow> ('k world, pki_action) act" where
  "settle_leaf h files now ca ca_private =
     bindA (load_cert h (tls_cert files)) (\<lambda>cert.
     bindA (facts_with_key h cert (tls_key files) (Some ca)) (\<lambda>facts.
       let action = decide facts now True in
       bindA (if action \<noteq> Reuse then create_leaf h files ca ca_private else ret ()) (\<lambda>_. ret action)))"

definition ensure_pki :: "'k host \<Rightarrow> pki_files \<Rightarrow> ('k world, pki_result) act" where
  "ensure_pki h files =
     bindA (now_utc h) (\<lambda>now.
     bindA (settle_ca h files now) (\<lambda>(ca_act, ca, key).
     bindA (settle_leaf h files now ca key) (\<lambda>leaf_act.
     ret \<lparr>result_files = files, ca_action = ca_act, leaf_action = leaf_act\<rparr>)))"

definition pki_events :: "pki_files \<Rightarrow> event set" where
  "pki_events files = FileWritten ` {ca_cert files, ca_key files, tls_cert files, tls_key files}"

lemma only_write_file: "FileWritten path \<in> evs \<Longrightarrow> steps (only evs) (write_file h path bs)"
  by (simp add: write_file_def only_effect)

lemma only_load_cert: "steps (only evs) (load_cert h path)"
  by (auto simp: load_cert_def intro!: few.steps_intros only_call)

lemma only_facts_with_key: "steps (only evs) (facts_with_key h cert key_path ca)"
  by (auto simp: facts_with_key_def intro!: few.steps_intros only_call split: option.splits)

lemma only_create_ca: "steps (only (pki_events files)) (create_ca h files)"
  by (auto simp: create_ca_def now_utc_def pki_events_def intro!: few.steps_intros only_call only_write_file)

lemma only_create_leaf: "steps (only (pki_events files)) (create_leaf h files ca key)"
  by (auto simp: create_leaf_def now_utc_def pki_events_def intro!: few.steps_intros only_call only_write_file)

lemma only_ensure_pki: "steps (only (pki_events files)) (ensure_pki h files)"
  by (auto simp: ensure_pki_def settle_ca_def settle_leaf_def now_utc_def Let_def
    intro!: few.steps_intros only_call only_load_cert only_facts_with_key only_create_ca only_create_leaf
    split: prod.splits pki_action.splits option.splits)

end
