(* ===== verification/HostPreflight.thy ===== *)
theory HostPreflight
  imports Versions
begin

section \<open>Can this workstation run the platform? (preflight.py)\<close>

text \<open>
  The evaluations are functions from facts to findings; \<open>host_preflight\<close> gathers the facts from the installed
  programs. A message is a constructor with the numbers it prints. The last lemmas say when the resources
  pass and which programs the pre-flight starts.
\<close>

definition GIB :: real where "GIB = 1024 ^ 3"
definition MIN_CPUS :: int where "MIN_CPUS = 4"
definition RECOMMENDED_CPUS :: int where "RECOMMENDED_CPUS = 6"
definition MIN_MEMORY_GIB :: real where "MIN_MEMORY_GIB = 8"
definition RECOMMENDED_MEMORY_GIB :: real where "RECOMMENDED_MEMORY_GIB = 10"
definition MIN_FREE_DISK_GIB :: real where "MIN_FREE_DISK_GIB = 30"
definition PUBLIC_PORTS :: "int list" where "PUBLIC_PORTS = [8443, 9443]"

datatype level = Pass | Warn | Fail

datatype message =
    CpuCount int
  | CpuLimit int int
  | MemoryGib real
  | MemoryLimit real real
  | DiskGib real
  | NotInstalled
  | NotRunning
  | Version string
  | OtherVersion string string
  | ClientMinor int
  | MinorTooFar int int
  | PortFree
  | PortOurs
  | PortTaken

record finding =
  level_of :: level
  check_name :: string
  message_of :: message

definition finding :: "level \<Rightarrow> string \<Rightarrow> message \<Rightarrow> finding" where
  "finding l c m = \<lparr>level_of = l, check_name = c, message_of = m\<rparr>"

subsection \<open>Evaluations\<close>

definition evaluate_docker_resources :: "int \<Rightarrow> int \<Rightarrow> finding list" where
  "evaluate_docker_resources cpus memory_bytes =
     (let gib = of_int memory_bytes / GIB in
      [if cpus < MIN_CPUS then finding Fail ''docker-cpus'' (CpuLimit cpus MIN_CPUS)
       else if cpus < RECOMMENDED_CPUS then finding Warn ''docker-cpus'' (CpuLimit cpus RECOMMENDED_CPUS)
       else finding Pass ''docker-cpus'' (CpuCount cpus),
       if gib < MIN_MEMORY_GIB * 0.95 then finding Fail ''docker-memory'' (MemoryLimit gib MIN_MEMORY_GIB)
       else if gib < RECOMMENDED_MEMORY_GIB * 0.95 then finding Warn ''docker-memory'' (MemoryLimit gib RECOMMENDED_MEMORY_GIB)
       else finding Pass ''docker-memory'' (MemoryGib gib)])"

definition evaluate_disk :: "int \<Rightarrow> finding" where
  "evaluate_disk free_bytes =
     (let gib = of_int free_bytes / GIB in
      if gib < MIN_FREE_DISK_GIB then finding Warn ''disk'' (MemoryLimit gib MIN_FREE_DISK_GIB) else finding Pass ''disk'' (DiskGib gib))"

definition evaluate_version_prefix :: "string \<Rightarrow> string option \<Rightarrow> string \<Rightarrow> finding" where
  "evaluate_version_prefix check actual expected =
     (case actual of
        None \<Rightarrow> finding Fail check NotInstalled
      | Some v \<Rightarrow> if prefix expected v then finding Pass check (Version v) else finding Warn check (OtherVersion v expected))"

definition evaluate_kubectl_minor :: "int option \<Rightarrow> int \<Rightarrow> finding" where
  "evaluate_kubectl_minor client cluster_minor =
     (case client of
        None \<Rightarrow> finding Fail ''kubectl'' NotInstalled
      | Some c \<Rightarrow> if \<bar>c - cluster_minor\<bar> \<le> 1 then finding Pass ''kubectl'' (ClientMinor c)
                  else finding Fail ''kubectl'' (MinorTooFar c cluster_minor))"

text \<open>Tuples compare lexicographically, so \<open>(3, 12)\<close> is below \<open>(3, 12, 0)\<close>.\<close>

definition evaluate_python :: "int \<times> int \<Rightarrow> string \<Rightarrow> finding result" where
  "evaluate_python version minimum =
     bindE (mapE parse_int (split_on CHR ''.'' minimum)) (\<lambda>required.
       let text = show_int (fst version) @ CHR ''.'' # show_int (snd version) in
       Inr (if required \<le> [fst version, snd version] then finding Pass ''python'' (Version text)
            else finding Fail ''python'' (OtherVersion text minimum)))"

definition port_check :: "int \<Rightarrow> string" where
  "port_check port = ''port-'' @ show_int port"

definition evaluate_port :: "int \<Rightarrow> bool \<Rightarrow> bool \<Rightarrow> finding" where
  "evaluate_port port in_use ours =
     (if \<not> in_use then finding Pass (port_check port) PortFree
      else if ours then finding Pass (port_check port) PortOurs
      else finding Fail (port_check port) PortTaken)"

subsection \<open>Gathering the facts\<close>

definition tool_output :: "'k host \<Rightarrow> string \<Rightarrow> string list \<Rightarrow> ('k world, string option) act" where
  "tool_output h tool args =
     bindA (find_tool h tool) (\<lambda>found.
       if found = None then ret None
       else bindA (ask_tool h tool args (Some 60)) (\<lambda>result.
            ret (if returncode result = 0 then Some (strip (stdout result)) else None)))"

definition docker_findings :: "string option \<Rightarrow> finding list result" where
  "docker_findings docker_info =
     (case docker_info of
        None \<Rightarrow> Inr [finding Fail ''docker'' NotRunning]
      | Some text \<Rightarrow>
          bindE (json_loads text) (\<lambda>info.
          bindE (py_get info ''ServerVersion'' PNone) (\<lambda>server.
          bindE (bindE (py_get info ''NCPU'' (PInt 0)) py_int) (\<lambda>cpus.
          bindE (bindE (py_get info ''MemTotal'' (PInt 0)) py_int) (\<lambda>memory.
          Inr (finding Pass ''docker'' (Version (py_str server)) # evaluate_docker_resources cpus memory))))))"

text \<open>\<open>text.split()[1]\<close> of the version, when there is a text.\<close>

definition second_word :: "string option \<Rightarrow> string option result" where
  "second_word text = (case text of
     None \<Rightarrow> Inr None
   | Some t \<Rightarrow> if t = [] then Inr None
               else (case words_of t of _ # w # _ \<Rightarrow> Inr (Some w) | _ \<Rightarrow> Inl IndexError))"

definition client_minor :: "string option \<Rightarrow> int option result" where
  "client_minor text = (case text of
     None \<Rightarrow> Inr None
   | Some t \<Rightarrow>
       if t = [] then Inr None
       else bindE (json_loads t) (\<lambda>doc. bindE (py_item doc ''clientVersion'') (\<lambda>v. bindE (py_item v ''minor'') (\<lambda>m.
            case m of PStr s \<Rightarrow> map_sum id Some (parse_int (filter is_digit s)) | _ \<Rightarrow> Inl TypeError))))"

definition first_words :: "string \<Rightarrow> string list" where
  "first_words text = map (\<lambda>line. hd (words_of line)) (filter (\<lambda>line. strip line \<noteq> []) (splitlines text))"

definition sdk_finding :: "string \<Rightarrow> string \<Rightarrow> finding" where
  "sdk_finding major sdks =
     (let stable = filter (\<lambda>v. prefix (major @ ''.'') v \<and> CHR ''-'' \<notin> set v) (first_words sdks) in
      if stable \<noteq> [] then finding Pass ''dotnet-sdk'' (Version (last stable)) else finding Fail ''dotnet-sdk'' NotInstalled)"

definition cluster_minor :: "string \<Rightarrow> int result" where
  "cluster_minor text = (case split_on CHR ''.'' text of _ # m # _ \<Rightarrow> parse_int m | _ \<Rightarrow> Inl IndexError)"

definition host_preflight :: "'k host \<Rightarrow> ('k world, finding list) act" where
  "host_preflight h =
     bindA (load_manifest h) (\<lambda>manifest.
     bindA (tool_output h ''docker'' [''info'', ''--format'', ''{{json .}}'']) (\<lambda>docker_info.
     bindA (liftE (docker_findings docker_info)) (\<lambda>docker.
     bindA (tool_output h ''kind'' [''version'']) (\<lambda>kind_text.
     bindA (liftE (second_word kind_text)) (\<lambda>kind_found.
     bindA (tool_output h ''helm'' [''version'', ''--short'']) (\<lambda>helm_text.
     bindA (tool_output h ''kubectl'' [''version'', ''--client'', ''-o'', ''json'']) (\<lambda>kubectl_json.
     bindA (liftE (client_minor kubectl_json)) (\<lambda>client.
     bindA (liftE (cluster_minor (kubectl_minor (tools manifest)))) (\<lambda>expected.
     bindA (tool_output h ''dotnet'' [''--list-sdks'']) (\<lambda>sdks.
     bindA (liftE (evaluate_python (python_version h) (python_minimum (tools manifest)))) (\<lambda>python.
     bindA (call (free_disk h)) (\<lambda>disk.
     bindA (if docker_info \<noteq> None \<and> kind_text \<noteq> None then cluster_exists h else ret False) (\<lambda>ours.
     bindA (mapA (\<lambda>port. bindA (call (bind_port h port)) (\<lambda>bound. ret (evaluate_port port (\<not> bound) ours))) PUBLIC_PORTS) (\<lambda>ports.
     ret (docker
        @ [evaluate_version_prefix ''kind'' kind_found (kind_version (tools manifest)),
           evaluate_version_prefix ''helm'' helm_text (helm_version (tools manifest)),
           evaluate_kubectl_minor client expected,
           sdk_finding (dotnet_sdk_major (tools manifest)) (case sdks of None \<Rightarrow> [] | Some t \<Rightarrow> t),
           python, evaluate_disk disk]
        @ ports)))))))))))))))"

definition failures :: "finding list \<Rightarrow> finding list" where
  "failures fs = filter (\<lambda>f. level_of f = Fail) fs"

subsection \<open>What no failure means\<close>

lemma level_finding [simp]: "level_of (finding l c m) = l"
  by (simp add: finding_def)

lemma resources_fail_iff:
  "failures (evaluate_docker_resources cpus memory) = [] \<longleftrightarrow> 4 \<le> cpus \<and> 76 * 1024 ^ 3 \<le> 10 * memory"
proof -
  have "of_int memory / GIB < MIN_MEMORY_GIB * 0.95 \<longleftrightarrow> 10 * memory < 76 * 1024 ^ 3"
    by (simp add: GIB_def MIN_MEMORY_GIB_def field_simps) linarith
  then show ?thesis
    by (auto simp: failures_def evaluate_docker_resources_def MIN_CPUS_def Let_def)
qed

lemma only_tool_output: "ToolStarted tool args \<in> evs \<Longrightarrow> steps (only evs) (tool_output h tool args)"
  by (auto simp: tool_output_def find_tool_def intro!: few.steps_intros only_call only_run_tool)

text \<open>The pre-flight asks the programs for their versions and starts nothing else.\<close>

definition preflight_events :: "event set" where
  "preflight_events =
     {ToolStarted ''docker'' [''info'', ''--format'', ''{{json .}}''], ToolStarted ''kind'' [''version''],
      ToolStarted ''helm'' [''version'', ''--short''], ToolStarted ''kubectl'' [''version'', ''--client'', ''-o'', ''json''],
      ToolStarted ''dotnet'' [''--list-sdks''], ToolStarted ''kind'' [''get'', ''clusters'']}"

lemma only_host_preflight: "steps (only preflight_events) (host_preflight h)"
  unfolding host_preflight_def cluster_exists_def
  by (intro few.steps_intros only_call only_load_manifest only_tool_output only_run_tool) (simp_all add: preflight_events_def)

end
