(* ===== verification/Lifecycle.thy ===== *)
theory Lifecycle
  imports Helm Images Pki Identity HostPreflight
begin

section \<open>Deploying the platform (lifecycle.py)\<close>

text \<open>
  The eight components in their fixed order, the cluster, bootstrap and destroy. \<open>own_event\<close> describes the
  commands and writes that belong to this platform: every kubectl and helm command that acts on a cluster
  names the project's context, every kind command the project's cluster, every docker command builds an
  image of the project. The lemmas show that nothing else happens, and in which order components come.
\<close>

definition install :: "'k host \<Rightarrow> string \<Rightarrow> string \<Rightarrow> string \<Rightarrow> release_options \<Rightarrow> ('k world, unit) act" where
  "install h rel chart ns opts = upgrade_install h rel (charts_dir h @ CHR ''/'' # chart) ns opts"

definition deploy_foundation :: "'k host \<Rightarrow> ('k world, unit) act" where
  "deploy_foundation h = install h ''platform-foundation'' ''platform-foundation'' ''default'' plain_release"

definition deploy_certificates :: "'k host \<Rightarrow> ('k world, unit) act" where
  "deploy_certificates h =
     bindA (ensure_pki h (default_files h)) (\<lambda>result.
     bindA (call (read_bytes h (tls_cert (result_files result)))) (\<lambda>cert.
     bindA (call (read_bytes h (tls_key (result_files result)))) (\<lambda>key.
     forA [(NS_GATEWAY, ''edge-tls''), (NS_APP, ''keycloak-tls'')] (\<lambda>(ns, name). apply_tls_secret h ns name cert key))))"

definition apply_args :: "string \<Rightarrow> string list" where
  "apply_args source = [''apply'', ''--server-side'', ''--force-conflicts'', ''-f'', source]"

definition deploy_crds :: "'k host \<Rightarrow> ('k world, unit) act" where
  "deploy_crds h =
     bindA (load_manifest h) (\<lambda>pins.
     bindA (kubectl h (apply_args (root_dir h @ CHR ''/'' # standard_crds pins)) None (Some 300)) (\<lambda>_.
     bindA (ensure_repo h ''kong'' (chart_repository (kong_chart pins))) (\<lambda>_.
     bindA (do_tool h ''helm'' [''show'', ''crds'', ''kong/'' @ chart_name (kong_chart pins), ''--version'', chart_version (kong_chart pins)]
              (Some 300)) (\<lambda>crds.
     bindA (kubectl h (apply_args ''-'') (Some (stdout crds)) (Some 300)) (\<lambda>_. ret ())))))"

definition pinned_release :: "chart_pin \<Rightarrow> string list \<Rightarrow> (string, string) dict \<Rightarrow> string \<Rightarrow> release_options" where
  "pinned_release chart files sets timeout =
     plain_release\<lparr>chart_pin_version := Some (chart_version chart), values_files := files, set_values := sets, wait_timeout := timeout\<rparr>"

definition deploy_kong :: "'k host \<Rightarrow> ('k world, unit) act" where
  "deploy_kong h =
     bindA (load_manifest h) (\<lambda>pins.
       let chart = kong_chart pins;
           (gateway_repo, gateway_tag) = split_image (kong_gateway (images pins));
           (controller_repo, controller_tag) = split_image (kong_controller (images pins)) in
     bindA (ensure_repo h ''kong'' (chart_repository chart)) (\<lambda>_.
     bindA (upgrade_install h ''kong'' (''kong/'' @ chart_name chart) NS_GATEWAY
              (pinned_release chart [local_values_dir h @ ''/kong.yaml'']
                 [(''gateway.image.repository'', gateway_repo), (''gateway.image.tag'', gateway_tag),
                  (''controller.ingressController.image.repository'', controller_repo),
                  (''controller.ingressController.image.tag'', controller_tag)] ''10m'')) (\<lambda>_.
     forA [''kong-controller'', ''kong-gateway''] (\<lambda>d. wait_deployment_available (cluster h) NS_GATEWAY d 300))))"

definition deploy_gateway :: "'k host \<Rightarrow> ('k world, unit) act" where
  "deploy_gateway h = install h ''gateway'' ''gateway'' NS_GATEWAY plain_release"

definition deploy_identity :: "'k host \<Rightarrow> ('k world, unit) act" where
  "deploy_identity h =
     bindA (ensure_generated_secret h NS_APP ADMIN_SECRET_NAME
              [(''username'', ret ''platform-admin''), (''password'', generate_secret_value h 32)]) (\<lambda>_.
     bindA (ensure_generated_secret h NS_APP CLIENT_SECRETS_NAME
              (map (\<lambda>name. (name, generate_secret_value h 32)) CLIENTS)) (\<lambda>_.
     bindA (load_manifest h) (\<lambda>pins.
     bindA (install h ''identity'' ''identity'' NS_APP
              (plain_release\<lparr>set_values := [(''image'', keycloak_image (images pins))], wait_timeout := ''15m''\<rparr>)) (\<lambda>_.
     wait_deployment_available (cluster h) NS_APP ''keycloak'' 600))))"

definition deploy_observability :: "'k host \<Rightarrow> ('k world, unit) act" where
  "deploy_observability h =
     bindA (load_manifest h) (\<lambda>pins.
       let (opensearch_repo, opensearch_tag) = split_image (opensearch_image (images pins));
           (prometheus_repo, prometheus_tag) = split_image (prometheus_image (images pins)) in
     bindA (ensure_repo h ''opensearch'' (chart_repository (opensearch_chart pins))) (\<lambda>_.
     bindA (ensure_repo h ''prometheus-community'' (chart_repository (prometheus_chart pins))) (\<lambda>_.
     bindA (upgrade_install h ''opensearch'' (''opensearch/'' @ chart_name (opensearch_chart pins)) NS_OBSERVABILITY
              (pinned_release (opensearch_chart pins) [local_values_dir h @ ''/opensearch.yaml'']
                 [(''image.repository'', opensearch_repo), (''image.tag'', opensearch_tag)] ''15m'')) (\<lambda>_.
     bindA (wait_statefulset_ready (cluster h) NS_OBSERVABILITY ''opensearch-traces'' 900) (\<lambda>_.
     bindA (install h ''observability'' ''observability'' NS_OBSERVABILITY
              (plain_release\<lparr>set_values := [(''image'', jaeger_image (images pins)), (''indexCleanerImage'', index_cleaner_image (images pins))]\<rparr>)) (\<lambda>_.
     bindA (forA [''jaeger-collector'', ''jaeger-query''] (\<lambda>d. wait_deployment_available (cluster h) NS_OBSERVABILITY d 300)) (\<lambda>_.
     bindA (upgrade_install h ''prometheus'' (''prometheus-community/'' @ chart_name (prometheus_chart pins)) NS_OBSERVABILITY
              (pinned_release (prometheus_chart pins) [local_values_dir h @ ''/prometheus.yaml'']
                 [(''server.image.repository'', prometheus_repo), (''server.image.tag'', prometheus_tag)] ''10m'')) (\<lambda>_.
     wait_deployment_available (cluster h) NS_OBSERVABILITY ''prometheus-server'' 300))))))))"

definition deploy_services :: "'k host \<Rightarrow> ('k world, unit) act" where
  "deploy_services h =
     bindA (ensure_service_images h) (\<lambda>tags.
     bindA (forA tags (\<lambda>(service, tag). load_image h (image_name service tag))) (\<lambda>_.
     bindA (install h ''transaction-services'' ''transaction-services'' NS_APP
              (plain_release\<lparr>values_files := [local_values_dir h @ ''/transaction-services.yaml''],
                 set_values := map (\<lambda>(service, tag). (''services.'' @ service @ ''.tag'', tag)) tags\<rparr>)) (\<lambda>_.
     forA (dict_keys SERVICES) (\<lambda>service. wait_deployment_available (cluster h) NS_APP service 300))))"

subsection \<open>The components in their order\<close>

definition COMPONENTS :: "'k host \<Rightarrow> (string \<times> ('k world, unit) act) list" where
  "COMPONENTS h =
     [(''foundation'', deploy_foundation h), (''certificates'', deploy_certificates h), (''crds'', deploy_crds h),
      (''gateway'', deploy_gateway h), (''kong'', deploy_kong h), (''identity'', deploy_identity h),
      (''observability'', deploy_observability h), (''services'', deploy_services h)]"

definition component_names :: "string list" where
  "component_names = [''foundation'', ''certificates'', ''crds'', ''gateway'', ''kong'', ''identity'', ''observability'', ''services'']"

lemma component_names: "map fst (COMPONENTS h) = component_names"
  by (simp add: COMPONENTS_def component_names_def)

definition ensure_cluster :: "'k host \<Rightarrow> ('k world, unit) act" where
  "ensure_cluster h =
     bindA (cluster_exists h) (\<lambda>there.
     bindA (if there then ret () else bindA (load_manifest h) (\<lambda>pins. create_cluster h (node_image pins))) (\<lambda>_.
     bindA (guard h) (\<lambda>_. wait_nodes_ready h)))"

definition deploy :: "'k host \<Rightarrow> string list \<Rightarrow> ('k world, unit) act" where
  "deploy h names =
     bindA (guard h) (\<lambda>_.
       let selected = filter (\<lambda>(name, _). name \<in> set names) (COMPONENTS h);
           unknown = set names - set (map fst (COMPONENTS h)) in
       if unknown \<noteq> {} then raise ValueError
       else forA selected (\<lambda>(_, component). component))"

definition bootstrap :: "'k host \<Rightarrow> ('k world, bool) act" where
  "bootstrap h =
     bindA (host_preflight h) (\<lambda>findings.
       if failures findings \<noteq> [] then ret False
       else bindA (ensure_cluster h) (\<lambda>_. bindA (deploy h component_names) (\<lambda>_. ret True)))"

definition destroy :: "'k host \<Rightarrow> bool \<Rightarrow> ('k world, unit) act" where
  "destroy h purge =
     bindA (cluster_exists h) (\<lambda>there.
     bindA (if there then delete_cluster h else ret ()) (\<lambda>_.
       if \<not> purge then ret ()
       else bindA (call (path_exists h (local_state_dir h))) (\<lambda>found.
            if found then effect (FileRemoved (local_state_dir h)) (remove_tree h (local_state_dir h)) else ret ())))"

subsection \<open>What a deployment may do\<close>

text \<open>
  Commands of the platform: pinned to the project's context or cluster, or free of any cluster (chart
  repositories, CRDs of a chart, versions, images).
\<close>

fun own_command :: "string \<Rightarrow> string list \<Rightarrow> bool" where
  "own_command tool (a # b # args) =
     (if tool = ''kubectl'' then (a = ''--context'' \<and> b = CONTEXT) \<or> (a = ''config'' \<and> b = ''view'') \<or> (a = ''version'' \<and> b = ''--client'')
      else if tool = ''helm'' then (a = ''--kube-context'' \<and> b = CONTEXT) \<or> a \<in> {''repo'', ''show'', ''version''}
      else if tool = ''kind'' then a = ''get'' \<or> sublist [''--name'', CLUSTER_NAME] (b # args)
      else if tool = ''docker'' then a \<in> {''info'', ''image'', ''build''}
      else False)"
| "own_command tool [a] = ((tool = ''kind'' \<and> a = ''version'') \<or> (tool = ''dotnet'' \<and> a = ''--list-sdks''))"
| "own_command tool [] = False"

definition own_secrets :: "(string \<times> string) set" where
  "own_secrets = {(NS_GATEWAY, ''edge-tls''), (NS_APP, ''keycloak-tls''), (NS_APP, ADMIN_SECRET_NAME), (NS_APP, CLIENT_SECRETS_NAME)}"

definition own_events :: "'k host \<Rightarrow> event set" where
  "own_events h = {ToolStarted tool args | tool args. own_command tool args}
     \<union> {SecretWritten ns name | ns name. (ns, name) \<in> own_secrets} \<union> pki_events (default_files h)"

lemma own_tool: "own_command tool args \<Longrightarrow> ToolStarted tool args \<in> own_events h"
  by (auto simp: own_events_def)

lemma own_run: "own_command tool args \<Longrightarrow> steps (only (own_events h)) (run_tool h' tool args check input timeout)"
  by (intro only_run_tool own_tool)

lemma own_helm: "steps (only (own_events h)) (helm h' args check)"
  unfolding helm_def by (rule own_run) (simp add: helm_args_def)

lemma own_upgrade: "steps (only (own_events h)) (upgrade_install h' rel chart ns opts)"
  by (auto simp: upgrade_install_def recover_interrupted_def uninstall_def
    intro!: few.steps_intros only_call own_helm split: pending_action.splits)

lemma own_install: "steps (only (own_events h)) (install h' rel chart ns opts)"
  by (simp add: install_def own_upgrade)

lemma own_kubectl: "steps (only (own_events h)) (kubectl h' args input timeout)"
  unfolding kubectl_def by (rule own_run) simp

lemma own_ensure_repo: "steps (only (own_events h)) (ensure_repo h' name url)"
  by (auto simp: ensure_repo_def intro!: few.steps_intros own_run)

lemma own_guard: "steps (only (own_events h)) (guard h')"
  by (auto simp: guard_def context_server_def Let_def intro!: few.steps_intros own_run)

lemma own_cluster_exists: "steps (only (own_events h)) (cluster_exists h')"
  by (auto simp: cluster_exists_def intro!: few.steps_intros own_run)

lemma own_pki: "steps (only (own_events h)) (ensure_pki h' (default_files h))"
  by (rule only_mono [OF only_ensure_pki]) (auto simp: own_events_def)

lemma own_tls: "(ns, name) \<in> own_secrets \<Longrightarrow> steps (only (own_events h)) (apply_tls_secret h' ns name cert key)"
  by (rule only_apply_tls) (auto simp: own_events_def)

lemma own_generated:
  "(ns, name) \<in> own_secrets \<Longrightarrow> (\<And>key factory. (key, factory) \<in> set keys \<Longrightarrow> steps (only (own_events h)) factory) \<Longrightarrow>
   steps (only (own_events h)) (ensure_generated_secret h' ns name keys)"
  by (rule only_ensure_secret) (auto simp: own_events_def)

lemma own_images: "steps (only (own_events h)) (ensure_service_images h')"
proof -
  have "steps (only (own_events h)) (build_image h' item)" for item
    by (auto simp: build_image_def intro!: few.steps_intros only_load_manifest own_run split: prod.splits)
  then have "steps (only (own_events h)) (run_all (map (build_image h') items))" for items
    by (intro steps_run_all few.step_rel_axioms) auto
  then show ?thesis
    by (auto simp: ensure_service_images_def content_tag_def source_files_def exists_locally_def
      intro!: few.steps_intros only_call own_run split: prod.splits)
qed

lemma own_load_image: "steps (only (own_events h)) (load_image h' img)"
proof -
  have "own_command ''kind'' [''load'', ''docker-image'', img, ''--name'', CLUSTER_NAME]"
    by (simp add: sublist_Cons_right)
  then show ?thesis by (auto simp: load_image_def intro!: few.steps_intros own_run)
qed

lemmas own_basics = few.steps_intros only_call only_load_manifest only_wait_deployment only_wait_statefulset
  own_upgrade own_install own_kubectl own_ensure_repo own_guard own_cluster_exists own_pki own_images own_load_image

lemma own_component: "(name, m) \<in> set (COMPONENTS h) \<Longrightarrow> steps (only (own_events h)) m"
proof -
  have 1: "steps (only (own_events h)) (deploy_foundation h)" by (simp add: deploy_foundation_def own_basics)
  have 2: "steps (only (own_events h)) (deploy_certificates h)"
    by (auto simp: deploy_certificates_def intro!: own_basics own_tls) (auto simp: own_secrets_def)
  have 3: "steps (only (own_events h)) (deploy_crds h)"
    by (auto simp: deploy_crds_def intro!: own_basics own_run)
  have 4: "steps (only (own_events h)) (deploy_gateway h)" by (simp add: deploy_gateway_def own_basics)
  have 5: "steps (only (own_events h)) (deploy_kong h)"
    by (auto simp: deploy_kong_def Let_def intro!: own_basics split: prod.splits)
  have 6: "steps (only (own_events h)) (deploy_identity h)"
    by (auto simp: deploy_identity_def intro!: own_basics own_generated only_generate) (auto simp: own_secrets_def)
  have 7: "steps (only (own_events h)) (deploy_observability h)"
    by (auto simp: deploy_observability_def Let_def intro!: own_basics split: prod.splits)
  have 8: "steps (only (own_events h)) (deploy_services h)"
    by (auto simp: deploy_services_def intro!: own_basics split: prod.splits)
  assume "(name, m) \<in> set (COMPONENTS h)"
  then show ?thesis using 1 2 3 4 5 6 7 8 by (auto simp: COMPONENTS_def)
qed

lemma own_deploy: "steps (only (own_events h)) (deploy h names)"
  unfolding deploy_def Let_def by (auto intro!: own_basics intro: own_component)

lemma own_ensure_cluster: "steps (only (own_events h)) (ensure_cluster h)"
proof -
  have "own_command ''kind'' [''create'', ''cluster'', ''--name'', CLUSTER_NAME, ''--image'', img, ''--config'', cfg, ''--wait'', ''180s'']"
    for img cfg by (simp add: sublist_Cons_right)
  then have "steps (only (own_events h)) (create_cluster h img)" for img
    by (auto simp: create_cluster_def intro!: own_basics own_run)
  moreover have "steps (only (own_events h)) (wait_nodes_ready h)"
    by (auto simp: wait_nodes_ready_def nodes_ready_def intro!: only_wait_for only_truth own_basics)
  ultimately show ?thesis by (auto simp: ensure_cluster_def intro!: own_basics)
qed

lemma own_preflight: "steps (only (own_events h)) (host_preflight h')"
  by (rule only_mono [OF only_host_preflight]) (auto simp: preflight_events_def own_events_def)

text \<open>
  Property C11. Deploying any selection of components, and bootstrapping, keeps to the platform: whatever
  the outcome, run records and journals stay as they are, and everything issued is a command of the
  platform (pinned to the project's context or cluster, or free of any cluster), one of its four secrets,
  or one of its certificate files.
\<close>

theorem lifecycle_keeps_to_platform:
  "steps (only (own_events h)) (deploy h names) \<and> steps (only (own_events h)) (bootstrap h)"
  by (auto simp: bootstrap_def intro!: own_basics own_deploy own_ensure_cluster own_preflight)

text \<open>The command that asks kubectl for the address of the cluster behind the project's context.\<close>

definition context_args :: "string list" where
  "context_args = [''config'', ''view'', ''--minify'', ''--context'', CONTEXT, ''-o'', ''jsonpath={.clusters[0].cluster.server}'']"

lemma guard_refuses:
  assumes "run_tool h ''kubectl'' context_args False None (Some 30) w = (Inr answer, w1)"
    and "url_hostname (strip (stdout answer)) \<notin> {''127.0.0.1'', ''localhost'', ''::1''}"
  shows "guard h w = (Inl ContextGuardError, w1)"
proof -
  have "check_context_is_local CONTEXT (strip (stdout answer)) = Inl ContextGuardError"
    using assms(2) by (simp add: check_context_is_local_def)
  then show ?thesis
    using assms(1) by (auto simp: guard_def context_server_def context_args_def [symmetric] bindA_apply Let_def)
qed

text \<open>
  Property C12. A deployment against a cluster that is not local changes nothing: when the project's
  context points at any other host, \<open>deploy\<close> raises the guard's error, and the only program that was
  started is the one that read the address.
\<close>

theorem foreign_cluster_untouched:
  assumes "run_tool h ''kubectl'' context_args False None (Some 30) w = (Inr answer, w1)"
    and "url_hostname (strip (stdout answer)) \<notin> {''127.0.0.1'', ''localhost'', ''::1''}"
  shows "deploy h names w = (Inl ContextGuardError, w1) \<and> trail w1 = trail w @ [ToolStarted ''kubectl'' context_args]"
  using guard_refuses [OF assms] run_tool_trail [OF assms(1)] by (simp add: deploy_def bindA_Inl)

definition foreign_host :: "unit host" where
  "foreign_host = blank_host\<lparr>communicate := (\<lambda>_ _ _. ret (''https://127.0.0.1@prod.example:6443'', [], 0))\<rparr>"

theorem foreign_cluster_untouched_witness:
  "deploy foreign_host component_names (empty_world ()) =
      (Inl ContextGuardError, (empty_world ())\<lparr>trail := [ToolStarted ''kubectl'' context_args]\<rparr>) \<and>
   trail ((empty_world ())\<lparr>trail := [ToolStarted ''kubectl'' context_args]\<rparr>) = trail (empty_world ()) @ [ToolStarted ''kubectl'' context_args]"
proof (rule foreign_cluster_untouched)
  show "run_tool foreign_host ''kubectl'' context_args False None (Some 30) (empty_world ()) =
    (Inr \<lparr>res_args = ''/usr/bin/kubectl'' # context_args, returncode = 0, stdout = ''https://127.0.0.1@prod.example:6443'', stderr = []\<rparr>,
     (empty_world ())\<lparr>trail := [ToolStarted ''kubectl'' context_args]\<rparr>)"
    by (simp add: run_tool_def require_tool_def find_tool_def start_tool_def foreign_host_def blank_host_def
      bindA_apply catchA_def call_def effect_def empty_world_def Let_def)
  show "url_hostname (strip (stdout \<lparr>res_args = ''/usr/bin/kubectl'' # context_args, returncode = 0,
      stdout = ''https://127.0.0.1@prod.example:6443'', stderr = []\<rparr>)) \<notin> {''127.0.0.1'', ''localhost'', ''::1''}"
    by code_simp
qed

text \<open>
  A workstation that fails the pre-flight is left alone: when \<open>bootstrap\<close> returns \<open>False\<close>
  there was a failed finding, and no program ran but those that print their versions.
\<close>

theorem unfit_host_untouched:
  assumes "bootstrap h w = (Inr False, w')"
  shows "(\<exists>fs. host_preflight h w = (Inr fs, w') \<and> failures fs \<noteq> []) \<and> only preflight_events w w'"
proof -
  obtain fs w1 where pre: "host_preflight h w = (Inr fs, w1)"
    and rest: "(if failures fs \<noteq> [] then ret False
       else bindA (ensure_cluster h) (\<lambda>_. bindA (deploy h component_names) (\<lambda>_. ret True))) w1 = (Inr False, w')"
    using assms unfolding bootstrap_def by (auto elim: bindA_cases)
  have "failures fs \<noteq> [] \<and> w1 = w'"
    using rest by (auto split: if_splits elim!: bindA_cases)
  then show ?thesis using pre only_host_preflight stepsD by metis
qed

text \<open>A workstation with the programs on its path, all of which fail.\<close>

definition unfit_host :: "unit host" where
  "unfit_host = blank_host\<lparr>communicate := (\<lambda>_ _ _. ret ([], [], 1)), read_text := (\<lambda>_. ret []),
     parse_yaml := (\<lambda>_. Inr sample_manifest)\<rparr>"

lemma unfit_tool: "tool_output unfit_host tool args w = (Inr None, w\<lparr>trail := trail w @ [ToolStarted tool args]\<rparr>)"
  by (simp add: tool_output_def run_tool_def require_tool_def find_tool_def start_tool_def unfit_host_def blank_host_def
    bindA_apply catchA_def call_def effect_def Let_def)

lemma unfit_load: "load_manifest unfit_host w = (Inr sample_versions, w)"
  by (simp add: load_manifest_def unfit_host_def bindA_apply call_def parse_manifest_def sample_validates)

lemma unfit_calls: "call (free_disk unfit_host) w = (Inr 0, w)" "call (bind_port unfit_host p) w = (Inr False, w)"
  by (simp_all add: unfit_host_def blank_host_def call_def)

lemma unfit_versions:
  "cluster_minor (kubectl_minor (tools sample_versions)) = Inr 33"
  "evaluate_python (python_version unfit_host) (python_minimum (tools sample_versions)) = Inr (finding Pass ''python'' (Version ''3.12''))"
  unfolding sample_versions_def unfit_host_def blank_host_def by code_simp+

lemma unfit_findings:
  obtains fs w' where "host_preflight unfit_host w = (Inr fs, w')" "failures fs \<noteq> []"
proof -
  obtain ports where "mapA (\<lambda>port. bindA (call (bind_port unfit_host port)) (\<lambda>bound. ret (evaluate_port port (\<not> bound) False)))
      PUBLIC_PORTS w' = (Inr ports, w')" for w'
    by (simp add: PUBLIC_PORTS_def bindA_apply unfit_calls)
  then have "\<exists>fs w'. host_preflight unfit_host w = (Inr (finding Fail ''docker'' NotRunning # fs), w')"
    by (simp add: host_preflight_def bindA_apply unfit_load unfit_tool unfit_calls unfit_versions
      docker_findings_def second_word_def client_minor_def)
  then obtain fs w' where run: "host_preflight unfit_host w = (Inr (finding Fail ''docker'' NotRunning # fs), w')" by blast
  have "failures (finding Fail ''docker'' NotRunning # fs) \<noteq> []" by (simp add: failures_def)
  with run show thesis by (rule that)
qed

theorem unfit_host_untouched_witness:
  "only preflight_events (empty_world ()) (snd (bootstrap unfit_host (empty_world ())))"
proof -
  obtain fs w' where "host_preflight unfit_host (empty_world ()) = (Inr fs, w')" "failures fs \<noteq> []" by (rule unfit_findings)
  then have "bootstrap unfit_host (empty_world ()) = (Inr False, w')" by (simp add: bootstrap_def bindA_Inr)
  from unfit_host_untouched [OF this] show ?thesis using \<open>bootstrap unfit_host (empty_world ()) = (Inr False, w')\<close> by simp
qed

end
