(* ===== verification/Lab.thy ===== *)
theory Lab
  imports Framework Probes Portforward Helm Identity Otlp Lifecycle
begin

section \<open>What the validation suites work with (validation/)\<close>

text \<open>
  The suites use more calls of the Kubernetes client than the rest of the automation, plain HTTP to several
  addresses and the sender of synthetic spans. A \<open>lab\<close> adds them to a \<open>host\<close>; Jaeger, Prometheus and tokens are the
  calls of the cluster, as in the scenario engine. Lists and labels that Kubernetes leaves out are empty here,
  since the suites read them with \<open>or []\<close>. Calls that create, delete or change something are events of the trail. The
  texts of failed checks name the subject; values that the code also prints (lists, floats) are left out, and so
  are the details of checks that passed.
\<close>

record node_view =
  node_name :: string
  node_conditions :: conditions
  kubelet_version :: string

text \<open>Requests and limits of a container; \<open>None\<close> where it declares no resources at all.\<close>

record container_view =
  container_name :: string
  container_resources :: "((string, string) dict \<times> (string, string) dict) option"

record pod_template =
  template_owner :: string
  init_containers :: "container_view list"
  main_containers :: "container_view list"

text \<open>\<open>last_state.terminated.reason\<close>, where there is one.\<close>

record container_status =
  status_name :: string
  last_reason :: "string option"
  restart_count :: int

record live_pod =
  live_name :: string
  live_uid :: string
  live_ip :: string
  live_node :: string
  live_phase :: string
  live_deleting :: bool
  live_labels :: "(string, string) dict"
  live_conditions :: "(string \<times> string) list"
  live_statuses :: "container_status list"

record pod_request =
  req_name :: string
  req_labels :: "(string, string) dict"
  req_container :: string
  req_image :: string
  req_command :: "string list"
  req_privileged :: bool
  req_port :: "int option"
  req_claim :: "(string \<times> string) option"
  req_restart :: "string option"

text \<open>A deployment or stateful set with its wanted and ready replicas.\<close>

record replica_view =
  replicas_of :: string
  replicas_wanted :: "int option"
  replicas_ready :: "int option"

record service_view =
  service_namespace :: string
  service_name :: string
  service_type :: string
  service_ports :: "(int \<times> int option) list"

record 'k lab =
  station :: "'k host"
  rounds :: nat
  node_items :: "('k, node_view list) act"
  create_namespace :: "string \<Rightarrow> (string, string) dict \<Rightarrow> ('k, unit) act"
  delete_namespace :: "string \<Rightarrow> ('k, unit) act"
  dry_run_pod :: "string \<Rightarrow> pod_request \<Rightarrow> ('k, unit) act"
  create_pod_in :: "string \<Rightarrow> pod_request \<Rightarrow> ('k, unit) act"
  create_claim :: "string \<Rightarrow> string \<Rightarrow> string \<Rightarrow> ('k, unit) act"
  claim_phase :: "string \<Rightarrow> string \<Rightarrow> ('k, string) act"
  read_pod :: "string \<Rightarrow> string \<Rightarrow> ('k, live_pod) act"
  live_pods :: "string \<Rightarrow> string \<Rightarrow> ('k, live_pod list) act"
  create_service :: "string \<Rightarrow> string \<Rightarrow> (string, string) dict \<Rightarrow> int \<Rightarrow> ('k, unit) act"
  read_service :: "string \<Rightarrow> string \<Rightarrow> ('k, service_view) act"
  all_services :: "('k, service_view list) act"
  deny_ingress :: "string \<Rightarrow> string \<Rightarrow> (string, string) dict \<Rightarrow> ('k, unit) act"
  deployment_templates :: "string \<Rightarrow> ('k, pod_template list) act"
  stateful_templates :: "string \<Rightarrow> ('k, pod_template list) act"
  deployment_replicas :: "string \<Rightarrow> ('k, replica_view list) act"
  stateful_replicas :: "string \<Rightarrow> ('k, replica_view list) act"
  cron_templates :: "string \<Rightarrow> ('k, pod_template list) act"
  config_maps :: "string \<Rightarrow> ('k, (string \<times> attrs) list) act"
  read_config_map :: "string \<Rightarrow> string \<Rightarrow> ('k, attrs) act"
  get_custom :: "string \<Rightarrow> string \<Rightarrow> string \<Rightarrow> ('k, pyval) act"
  create_custom :: "string \<Rightarrow> string \<Rightarrow> pyval \<Rightarrow> ('k, unit) act"
  delete_custom :: "string \<Rightarrow> string \<Rightarrow> string \<Rightarrow> ('k, unit) act"
  tls_peer :: "string \<Rightarrow> int \<Rightarrow> string \<Rightarrow> ('k, string \<times> (string \<times> string) list) act"
  request :: "string \<Rightarrow> string \<Rightarrow> string \<Rightarrow> (string, string) dict \<Rightarrow> (string, string) dict \<Rightarrow> pyval option \<Rightarrow> ('k, http_response) act"
  post_spans :: "pyval \<Rightarrow> ('k, http_response) act"
  time_ns :: "('k, int) act"
  token_hex :: "nat \<Rightarrow> ('k, string) act"
  new_uuid :: "('k, string) act"
  today :: "('k, string) act"
  cleaner_args :: "('k, string list) act"
  create_job :: "string \<Rightarrow> string list \<Rightarrow> (string, string) dict \<Rightarrow> ('k, unit) act"
  job_succeeded :: "string \<Rightarrow> ('k, int option) act"
  delete_job :: "string \<Rightarrow> ('k, unit) act"

abbreviation client :: "'k lab \<Rightarrow> 'k api" where "client l \<equiv> cluster (station l)"

text \<open>\<open>with portforward.forward(...) as port\<close> with its default timeout.\<close>

definition forwarded :: "'k lab \<Rightarrow> string \<Rightarrow> string \<Rightarrow> int \<Rightarrow> (string \<Rightarrow> ('k world, 'a) act) \<Rightarrow> ('k world, 'a) act" where
  "forwarded l ns target port body =
     forward (station l) (rounds l) ns target port 0 30 (\<lambda>local. body (''127.0.0.1:'' @ show_int local))"

definition GATEWAY_URL :: string where "GATEWAY_URL = ''https://localhost:8443''"

text \<open>\<open>response.raise_for_status().json()\<close>.\<close>

definition json_ok :: "http_response \<Rightarrow> pyval result" where
  "json_ok response = bindE (raise_for_status response) json_of"

text \<open>A request that creates an order if it is let through, and one that only looks.\<close>

definition post_order :: "'k lab \<Rightarrow> string \<Rightarrow> (string, string) dict \<Rightarrow> ('k world, http_response) act" where
  "post_order l base headers =
     effect (TrafficSent ''validation'') (request l base ''POST'' ''/orders'' [] headers (Some (PDict NORMAL_ORDER)))"

definition get_page :: "'k lab \<Rightarrow> string \<Rightarrow> string \<Rightarrow> (string, string) dict \<Rightarrow> ('k world, http_response) act" where
  "get_page l base path headers = call (request l base ''GET'' path [] headers None)"

definition place_order :: "'k lab \<Rightarrow> bool \<Rightarrow> ('k world, http_response) act" where
  "place_order l dbg =
     bindA (call (fetch_token (client l) ''scenario-runner'')) (\<lambda>token.
       let headers = [(''Authorization'', ''Bearer '' @ token)] in
       post_order l GATEWAY_URL (if dbg then dict_put ''X-Debug-Trace'' ''true'' headers else headers))"

text \<open>\<open>kube.ready_pods\<close>, keeping what else the suites read of a pod.\<close>

definition live_ready :: "live_pod \<Rightarrow> bool" where
  "live_ready p \<longleftrightarrow> (''Ready'', ''True'') \<in> set (live_conditions p)"

definition ready_live :: "'k lab \<Rightarrow> string \<Rightarrow> string \<Rightarrow> ('k world, live_pod list) act" where
  "ready_live l ns sel =
     bindA (call (live_pods l ns sel)) (\<lambda>pods.
     ret (filter (\<lambda>p. \<not> live_deleting p \<and> live_phase p = ''Running'' \<and> live_ready p) pods))"

text \<open>The text of a list of strings without quotes, as Python prints it.\<close>

definition listed :: "string list \<Rightarrow> string" where
  "listed names = ''['' @ join '', '' (map (\<lambda>n. CHR 0x27 # n @ [CHR 0x27]) names) @ '']''"

text \<open>\<open>while again(value) and time.monotonic() < deadline: time.sleep(5); value = read()\<close>.\<close>

fun reread ::
  "nat \<Rightarrow> ('w, real) act \<Rightarrow> ('w, unit) act \<Rightarrow> (real \<Rightarrow> bool) \<Rightarrow> ('w, real) act \<Rightarrow> real \<Rightarrow> real \<Rightarrow> ('w, real) act" where
  "reread 0 clock pause again read_again deadline v = raise TimeoutError"
| "reread (Suc n) clock pause again read_again deadline v =
     (if again v
      then bindA clock (\<lambda>t.
             if t < deadline
             then bindA pause (\<lambda>_. bindA read_again (\<lambda>v'. reread n clock pause again read_again deadline v'))
             else ret v)
      else ret v)"

text \<open>One probed connection, and the answer to one of several.\<close>

definition answer :: "(string, bool) dict \<Rightarrow> target \<Rightarrow> bool result" where
  "answer results t = (case dict_get results (target_text t) of None \<Rightarrow> Inl (KeyError (target_text t)) | Some b \<Rightarrow> Inr b)"

definition probe_all :: "'k lab \<Rightarrow> string \<Rightarrow> string option \<Rightarrow> target list \<Rightarrow> ('k world, bool list) act" where
  "probe_all l ns ident ts =
     bindA (run_tcp_probe (station l) ns ident ts [] 3) (\<lambda>results. liftE (mapE (answer results) ts))"

definition probe_one :: "'k lab \<Rightarrow> string \<Rightarrow> string option \<Rightarrow> target \<Rightarrow> ('k world, bool) act" where
  "probe_one l ns ident t = bindA (run_tcp_probe (station l) ns ident [t] [] 3) (\<lambda>results. liftE (answer results t))"

definition svc :: "string \<Rightarrow> string \<Rightarrow> int \<Rightarrow> target" where
  "svc ns name port = \<lparr>target_host = name @ CHR ''.'' # ns @ ''.svc.cluster.local'', target_port = port\<rparr>"

definition created :: "string \<Rightarrow> string \<Rightarrow> string \<Rightarrow> ('k, 'a) act \<Rightarrow> ('k world, 'a) act" where
  "created kind ns name m = effect (ResourceCreated kind ns name) m"

definition deleted :: "string \<Rightarrow> string \<Rightarrow> string \<Rightarrow> ('k, 'a) act \<Rightarrow> ('k world, 'a) act" where
  "deleted kind ns name m = effect (ResourceDeleted kind ns name) m"

text \<open>A suite as the code passes it to \<open>run_suite\<close>, with the variables it starts with.\<close>

definition run_with :: "'k lab \<Rightarrow> exn_texts \<Rightarrow> 'm \<Rightarrow> ('m \<times> 'k world) suite \<Rightarrow> ('k world, check_outcome list) act" where
  "run_with l t memory s = with_memory memory (run_suite (inner (call (monotonic_clock (client l)))) t s)"

text \<open>\<open>otlp.SyntheticSpan\<close> with fresh ids, and \<open>otlp.connect\<close> with one \<open>send\<close>.\<close>

definition PROBE_SERVICE :: string where "PROBE_SERVICE = ''pipeline-probe''"

definition synthetic :: "'k lab \<Rightarrow> string \<Rightarrow> attrs \<Rightarrow> ('k world, synthetic_span) act" where
  "synthetic l name attrs0 =
     bindA (call (token_hex l 16)) (\<lambda>tid. bindA (call (token_hex l 8)) (\<lambda>sid.
     ret \<lparr>syn_name = name, syn_trace_id = tid, syn_span_id = sid, syn_parent = [], syn_duration_ms = 20, syn_error = False,
          syn_attributes = attrs0, syn_service = PROBE_SERVICE, syn_kind = 2, syn_end = 0\<rparr>))"

definition send_synthetic :: "'k lab \<Rightarrow> nat \<Rightarrow> synthetic_span list \<Rightarrow> ('k world, unit) act" where
  "send_synthetic l batch_size ss =
     bindA (modW (\<lambda>w. w\<lparr>trail := trail w @ [SpansSent (map syn_trace_id ss)]\<rparr>)) (\<lambda>_.
     bindA (call (time_ns l)) (\<lambda>now. send_spans (post_spans l) now batch_size ss))"

subsection \<open>The bound on rereading is never reached\<close>

text \<open>A clock and a pause of any state: the clock does not go back, and the pause takes its time.\<close>

definition timed :: "('w \<Rightarrow> real) \<Rightarrow> ('w, real) act \<Rightarrow> ('w, unit) act \<Rightarrow> real \<Rightarrow> bool" where
  "timed now clock pause d \<longleftrightarrow>
     (\<forall>w. \<exists>w'. clock w = (Inr (now w), w') \<and> now w \<le> now w') \<and> (\<forall>w. \<exists>w'. pause w = (Inr (), w') \<and> now w + d \<le> now w')"

lemma timed_world: "ticking a clk \<Longrightarrow> timed (\<lambda>w. clk (ext w)) (call (monotonic_clock a)) (call (sleep_for a d)) d"
  unfolding timed_def using call_clock call_sleep by blast

lemma timed_inner: "timed now clock pause d \<Longrightarrow> timed (\<lambda>(m, w). now w) (inner clock) (inner pause) d"
  unfolding timed_def inner_def by (auto split: prod.splits) (metis Pair_inject)+

lemma reread_enough:
  assumes tick: "timed now clock pause 5" and time: "\<And>w. now w \<le> now (snd (read_again w))"
  shows "deadline - now w \<le> real m * 5 \<Longrightarrow> Suc m \<le> n \<Longrightarrow>
    reread n clock pause again read_again deadline v w = reread (Suc m) clock pause again read_again deadline v w"
proof (induction m arbitrary: w n v)
  case 0
  then obtain n' where n: "n = Suc n'" by (cases n) auto
  obtain w' where "clock w = (Inr (now w), w')" using tick unfolding timed_def by blast
  with 0 show ?case unfolding n by (simp add: bindA_Inr)
next
  case (Suc m)
  then obtain n' where n: "n = Suc n'" "Suc m \<le> n'" by (cases n) auto
  obtain w1 where w1: "clock w = (Inr (now w), w1)" "now w \<le> now w1" using tick unfolding timed_def by blast
  obtain w2 where w2: "pause w1 = (Inr (), w2)" "now w1 + 5 \<le> now w2" using tick unfolding timed_def by blast
  obtain r w3 where w3: "read_again w2 = (r, w3)" by (cases "read_again w2")
  have "now w2 \<le> now w3" using time [of w2] w3 by simp
  then have "deadline - now w3 \<le> real m * 5" using Suc.prems(1) w1(2) w2(2) by (simp add: algebra_simps)
  note same = Suc.IH [OF this n(2)]
  show ?case
    unfolding n reread.simps(2) [of "Suc m"] reread.simps(2) [of n']
    by (auto simp: bindA_apply w1(1) w2(1) w3 same simp del: reread.simps split: sum.splits)
qed

subsection \<open>What the shared operations leave in the trail\<close>

named_theorems only_steps \<open>the events of an operation are among a set\<close>

declare few.steps_intros [only_steps] only_call [only_steps] only_effect [only_steps] only_wait_for [only_steps]
  only_truth [only_steps] only_wait_deployment [only_steps] only_wait_statefulset [only_steps] only_load_manifest [only_steps]
  only_run_tool [only_steps] only_require [only_steps] only_terminate [only_steps] only_start [only_steps] only_read_value [only_steps]

definition probes_in :: "string \<Rightarrow> event set" where
  "probes_in ns = {ev. \<exists>name. ev = ProbeCreated ns name \<or> ev = ProbeDeleted ns name}"

lemma only_expect [only_steps]: "steps (only evs) (expect_that b m)"
  by (simp add: expect_that_def few.steps_intros)

lemma probes_in_D: "probes_in ns \<subseteq> evs \<Longrightarrow> ProbeCreated ns name \<in> evs \<and> ProbeDeleted ns name \<in> evs"
  unfolding probes_in_def by blast

lemma only_probe_pod [only_steps]:
  assumes "probes_in ns \<subseteq> evs"
  shows "steps (only evs) (in_probe_pod h ns kind labels script deadline evaluate)"
proof -
  have evs: "ProbeCreated ns name \<in> evs" "ProbeDeleted ns name \<in> evs" for name using probes_in_D [OF assms] by blast+
  have "steps (only evs) (delete_probe h ns name)" for name
    by (auto simp: delete_probe_def intro!: only_steps evs split: exn.splits)
  then show ?thesis by (auto simp: in_probe_pod_def probe_finished_def Let_def intro!: only_steps evs)
qed

lemma only_tcp_probe [only_steps]: "probes_in ns \<subseteq> evs \<Longrightarrow> steps (only evs) (run_tcp_probe h ns ident ts extra timeout)"
  by (simp add: run_tcp_probe_def only_probe_pod)

lemma only_http_probe [only_steps]: "probes_in ns \<subseteq> evs \<Longrightarrow> steps (only evs) (run_http_probe h ns ident urls timeout)"
  by (simp add: run_http_probe_def only_probe_pod)

lemma only_probe_one [only_steps]: "probes_in ns \<subseteq> evs \<Longrightarrow> steps (only evs) (probe_one l ns ident t)"
  by (auto simp: probe_one_def intro!: only_steps)

lemma only_probe_all [only_steps]: "probes_in ns \<subseteq> evs \<Longrightarrow> steps (only evs) (probe_all l ns ident ts)"
  by (auto simp: probe_all_def intro!: only_steps)

lemma only_reread [only_steps]:
  assumes "steps (only evs) clock" and "steps (only evs) pause" and "steps (only evs) m"
  shows "steps (only evs) (reread n clock pause again m deadline v)"
  using assms by (induction n arbitrary: v) (auto intro!: only_steps)

lemma only_await_port [only_steps]: "steps (only evs) (await_port n h p deadline)"
  by (induction n) (auto intro!: only_steps split: option.splits)

lemma only_forwarded [only_steps]:
  assumes "ToolStarted ''kubectl'' (forward_args ns target port 0) \<in> evs" and "\<And>base. steps (only evs) (body base)"
  shows "steps (only evs) (forwarded l ns target port body)"
  using assms by (auto simp: forwarded_def forward_def Let_def intro!: only_steps)

lemma run_suite_ends: "\<exists>w1. snd (run_suite clk t s w) = snd (clean_up_suite s w1)"
  by (auto simp: run_suite_def finallyA_def split: prod.splits sum.splits) (metis snd_conv)+

lemma deleted_trail: "trail (snd (deleted kind ns name m w)) = trail w @ [ResourceDeleted kind ns name]"
  by (simp add: deleted_def effect_keeps)

subsection \<open>A lab for the examples\<close>

definition blank_lab :: "'k lab" where
  "blank_lab =
     \<lparr>station = blank_host, rounds = 100, node_items = ret [], create_namespace = (\<lambda>_ _. ret ()), delete_namespace = (\<lambda>_. ret ()),
      dry_run_pod = (\<lambda>_ _. raise (ApiException 403)), create_pod_in = (\<lambda>_ _. ret ()), create_claim = (\<lambda>_ _ _. ret ()),
      claim_phase = (\<lambda>_ _. ret ''Bound''), read_pod = (\<lambda>_ _. raise (ApiException 404)), live_pods = (\<lambda>_ _. ret []),
      create_service = (\<lambda>_ _ _ _. ret ()), read_service = (\<lambda>_ _. raise (ApiException 404)), all_services = ret [],
      deny_ingress = (\<lambda>_ _ _. ret ()), deployment_templates = (\<lambda>_. ret []), stateful_templates = (\<lambda>_. ret []),
      deployment_replicas = (\<lambda>_. ret []), stateful_replicas = (\<lambda>_. ret []), cron_templates = (\<lambda>_. ret []), config_maps = (\<lambda>_. ret []), read_config_map = (\<lambda>_ _. raise (ApiException 404)),
      get_custom = (\<lambda>_ _ _. raise (ApiException 404)), create_custom = (\<lambda>_ _ _. ret ()), delete_custom = (\<lambda>_ _ _. ret ()),
      tls_peer = (\<lambda>_ _ _. ret (''TLSv1.3'', [(''DNS'', ''localhost'')])), request = (\<lambda>_ _ _ _ _ _. raise HTTPError),
      post_spans = (\<lambda>_. raise HTTPError), time_ns = ret 0, token_hex = (\<lambda>n. ret (replicate (2 * n) CHR ''1'')),
      new_uuid = ret ''00000000-0000-4000-8000-000000000000'', today = ret ''2025-01-01'', cleaner_args = ret [], create_job = (\<lambda>_ _ _. ret ()), job_succeeded = (\<lambda>_. ret (Some 1)),
      delete_job = (\<lambda>_. ret ())\<rparr>"

end
