(* ===== verification/FoundationSuite.thy ===== *)
theory FoundationSuite
  imports Lab
begin

section \<open>The foundation suite (validation/foundation.py)\<close>

text \<open>
  Seven checks of the cluster itself. Two of them work in a namespace of their own, which the first of them
  creates and the clean-up deletes; whether it exists is the variable \<open>created\<close> of \<open>build\<close>, the first part of the
  state. The theorem says that a run leaves nothing behind outside that namespace and deletes it last.
\<close>

definition EXPECTED_PSA :: "(string, string) dict" where
  "EXPECTED_PSA = [(NS_GATEWAY, ''restricted''), (NS_APP, ''restricted''), (NS_OBSERVABILITY, ''restricted'')]"

type_synonym 'k foundation = "bool \<times> 'k world"

definition ensure_check_namespace :: "'k lab \<Rightarrow> string \<Rightarrow> ('k foundation, unit) act" where
  "ensure_check_namespace l ns =
     bindA (getW fst) (\<lambda>there.
       if there then ret ()
       else bindA (inner (created ''Namespace'' [] ns (create_namespace l ns
              [(''app.kubernetes.io/part-of'', ''txplatform''), (''txplatform.io/temporary'', ''true'')]))) (\<lambda>_.
            modW (\<lambda>(_, w). (True, w))))"

definition foundation_cleanup :: "'k lab \<Rightarrow> string \<Rightarrow> ('k foundation, unit) act" where
  "foundation_cleanup l ns =
     bindA (getW fst) (\<lambda>there.
       if there
       then catchA (inner (deleted ''Namespace'' [] ns (delete_namespace l ns)))
              (\<lambda>e. if e = ApiException 404 then ret () else raise e)
       else ret ())"

text \<open>\<open>nodeImage.split(":")[1].split("@")[0]\<close>.\<close>

definition pinned_kubelet :: "string \<Rightarrow> string result" where
  "pinned_kubelet img =
     (case split_on CHR '':'' img of
        _ # tag # _ \<Rightarrow> Inr (hd (split_on CHR ''@'' tag))
      | _ \<Rightarrow> Inl IndexError)"

definition node_is_ready :: "node_view \<Rightarrow> bool result" where
  "node_is_ready n = (case node_conditions n of None \<Rightarrow> Inl TypeError | Some cs \<Rightarrow> Inr ((''Ready'', ''True'') \<in> set cs))"

definition check_node :: "string \<Rightarrow> node_view \<Rightarrow> ('w, unit) act" where
  "check_node expected n =
     bindA (liftE (node_is_ready n)) (\<lambda>ready.
     bindA (expect_that ready (''node '' @ node_name n @ '' is not Ready'')) (\<lambda>_.
     expect_that (kubelet_version n = expected)
       (''node '' @ node_name n @ '' runs '' @ kubelet_version n @ '', expected '' @ expected)))"

definition nodes_check :: "'k lab \<Rightarrow> ('k world, string option) act" where
  "nodes_check l =
     bindA (load_manifest (station l)) (\<lambda>pins.
     bindA (liftE (pinned_kubelet (node_image pins))) (\<lambda>expected.
     bindA (call (node_items l)) (\<lambda>items.
     bindA (expect_that (length items = 3) (''expected 3 nodes, found '' @ show_nat (length items))) (\<lambda>_.
     bindA (forA items (check_node expected)) (\<lambda>_. ret None)))))"

definition check_level :: "'k lab \<Rightarrow> string \<times> string \<Rightarrow> ('k world, unit) act" where
  "check_level l = (\<lambda>(ns, level).
     bindA (call (read_namespace (station l) ns)) (\<lambda>labels.
     let actual = (case labels of None \<Rightarrow> None | Some d \<Rightarrow> dict_get d ''pod-security.kubernetes.io/enforce'') in
     expect_that (actual = Some level) (ns @ '' does not enforce '' @ level)))"

definition pod_security_labels :: "'k lab \<Rightarrow> ('k world, string option) act" where
  "pod_security_labels l = bindA (forA EXPECTED_PSA (check_level l)) (\<lambda>_. ret None)"

definition privileged_pod :: "string \<Rightarrow> pod_request" where
  "privileged_pod img =
     \<lparr>req_name = ''psa-check'', req_labels = [], req_container = ''privileged'', req_image = img, req_command = [],
      req_privileged = True, req_port = None, req_claim = None, req_restart = None\<rparr>"

text \<open>The rejection is expected; whatever else the API answers is a failure.\<close>

definition check_rejected :: "'k lab \<Rightarrow> exn_texts \<Rightarrow> string \<Rightarrow> string \<Rightarrow> ('k world, unit) act" where
  "check_rejected l t img ns =
     bindA (catchA (bindA (call (dry_run_pod l ns (privileged_pod img))) (\<lambda>_. ret False))
       (\<lambda>e. case e of
          ApiException status \<Rightarrow>
            bindA (expect_that (status = 403 \<and> sublist ''violates PodSecurity'' (api_body t e))
                     (ns @ '': unexpected rejection: '' @ api_reason t e)) (\<lambda>_. ret True)
        | _ \<Rightarrow> raise e)) (\<lambda>rejected.
     if rejected then ret () else raise (CheckFailed (''privileged pod was admitted into '' @ ns)))"

definition pod_security_enforced :: "'k lab \<Rightarrow> exn_texts \<Rightarrow> ('k world, string option) act" where
  "pod_security_enforced l t =
     bindA (load_manifest (station l)) (\<lambda>pins.
     bindA (forA (dict_keys EXPECTED_PSA) (check_rejected l t (probe_image (images pins)))) (\<lambda>_. ret None))"

subsection \<open>Storage and network policies, in the namespace of the suite\<close>

definition writer_pod :: "string \<Rightarrow> pod_request" where
  "writer_pod img =
     \<lparr>req_name = ''storage-writer'', req_labels = [], req_container = ''writer'', req_image = img,
      req_command = [''sh'', ''-c'', ''echo stored > /data/check && cat /data/check''], req_privileged = False,
      req_port = None, req_claim = Some (''storage-check'', ''/data''), req_restart = Some ''Never''\<rparr>"

definition writes_to_claim :: "'k lab \<Rightarrow> string \<Rightarrow> ('k world, string option) act" where
  "writes_to_claim l ns =
     bindA (created ''PersistentVolumeClaim'' ns ''storage-check'' (create_claim l ns ''storage-check'' ''16Mi'')) (\<lambda>_.
     bindA (load_manifest (station l)) (\<lambda>pins.
     bindA (created ''Pod'' ns ''storage-writer'' (create_pod_in l ns (writer_pod (probe_image (images pins))))) (\<lambda>_.
     bindA (wait_for (client l)
       (truth (bindA (call (read_pod l ''storage-writer'' ns)) (\<lambda>p. ret (live_phase p = ''Succeeded'')))) 180 2) (\<lambda>_.
     bindA (call (claim_phase l ''storage-check'' ns)) (\<lambda>phase.
     bindA (expect_that (phase = ''Bound'') (''claim is '' @ phase)) (\<lambda>_. ret None))))))"

definition storage_check :: "'k lab \<Rightarrow> string \<Rightarrow> ('k foundation, string option) act" where
  "storage_check l ns = bindA (ensure_check_namespace l ns) (\<lambda>_. inner (writes_to_claim l ns))"

definition server_labels :: "(string, string) dict" where
  "server_labels = [(''txplatform.io/network-identity'', ''np-check-server'')]"

definition server_pod :: "string \<Rightarrow> pod_request" where
  "server_pod img =
     \<lparr>req_name = ''np-server'', req_labels = server_labels, req_container = ''server'', req_image = img,
      req_command = [''sh'', ''-c'', ''mkdir -p /www && echo ok > /www/index.html && httpd -f -p 8080 -h /www''],
      req_privileged = False, req_port = Some 8080, req_claim = None, req_restart = None\<rparr>"

text \<open>Each round but the last sleeps three seconds, so seventeen rounds pass the 45 seconds.\<close>

fun becomes :: "nat \<Rightarrow> 'k lab \<Rightarrow> ('k world, bool) act \<Rightarrow> bool \<Rightarrow> real \<Rightarrow> ('k world, bool) act" where
  "becomes 0 l probe expected deadline = raise TimeoutError"
| "becomes (Suc n) l probe expected deadline =
     bindA probe (\<lambda>reachable.
       if reachable = expected then ret True
       else bindA (call (monotonic_clock (client l))) (\<lambda>t.
              if t > deadline then ret False
              else bindA (call (sleep_for (client l) 3)) (\<lambda>_. becomes n l probe expected deadline)))"

definition reachable_becomes :: "'k lab \<Rightarrow> string \<Rightarrow> bool \<Rightarrow> ('k world, bool) act" where
  "reachable_becomes l ns expected =
     bindA (call (monotonic_clock (client l))) (\<lambda>t.
     becomes 17 l (probe_one l ns (Some ''np-check-client'') (svc ns ''np-server'' 8080)) expected (t + 45))"

definition policy_stops_traffic :: "'k lab \<Rightarrow> string \<Rightarrow> ('k world, string option) act" where
  "policy_stops_traffic l ns =
     bindA (load_manifest (station l)) (\<lambda>pins.
     bindA (created ''Pod'' ns ''np-server'' (create_pod_in l ns (server_pod (probe_image (images pins))))) (\<lambda>_.
     bindA (created ''Service'' ns ''np-server'' (create_service l ns ''np-server'' server_labels 8080)) (\<lambda>_.
     bindA (wait_for (client l) (truth (bindA (call (read_pod l ''np-server'' ns)) (\<lambda>p. ret (live_ready p)))) 120 2) (\<lambda>_.
     bindA (reachable_becomes l ns True) (\<lambda>before.
     bindA (expect_that before ''server was unreachable before any policy existed'') (\<lambda>_.
     bindA (created ''NetworkPolicy'' ns ''deny-server-ingress'' (deny_ingress l ns ''deny-server-ingress'' server_labels)) (\<lambda>_.
     bindA (reachable_becomes l ns False) (\<lambda>blocked.
     bindA (expect_that blocked ''server was still reachable 45 s after a deny-all ingress policy was created'') (\<lambda>_.
     ret None)))))))))"

definition network_policy_enforced :: "'k lab \<Rightarrow> string \<Rightarrow> ('k foundation, string option) act" where
  "network_policy_enforced l ns = bindA (ensure_check_namespace l ns) (\<lambda>_. inner (policy_stops_traffic l ns))"

subsection \<open>Resources and host ports\<close>

definition undeclared :: "container_view \<Rightarrow> bool" where
  "undeclared c \<longleftrightarrow> (case container_resources c of None \<Rightarrow> True | Some (asked, allowed) \<Rightarrow> asked = [] \<or> allowed = [])"

definition template_problems :: "string \<Rightarrow> pod_template \<Rightarrow> string list" where
  "template_problems ns tpl =
     map (\<lambda>c. ns @ CHR ''/'' # template_owner tpl @ CHR ''/'' # container_name c @ '' declares no requests or limits'')
       (filter undeclared (init_containers tpl @ main_containers tpl))"

definition oom_problems :: "string \<Rightarrow> live_pod \<Rightarrow> string list" where
  "oom_problems ns p =
     map (\<lambda>s. ns @ CHR ''/'' # live_name p @ CHR ''/'' # status_name s @ '' was OOM-killed'')
       (filter (\<lambda>s. last_reason s = Some ''OOMKilled'') (live_statuses p))"

definition namespace_problems :: "'k lab \<Rightarrow> string \<Rightarrow> ('k world, string list) act" where
  "namespace_problems l ns =
     bindA (call (deployment_templates l ns)) (\<lambda>ds. bindA (call (stateful_templates l ns)) (\<lambda>ss.
     bindA (call (cron_templates l ns)) (\<lambda>cs. bindA (call (live_pods l ns [])) (\<lambda>pods.
     ret (concat (map (template_problems ns) (ds @ ss @ cs)) @ concat (map (oom_problems ns) pods))))))"

definition resources_check :: "'k lab \<Rightarrow> ('k world, string option) act" where
  "resources_check l =
     bindA (mapA (namespace_problems l) (dict_keys EXPECTED_PSA)) (\<lambda>found.
     bindA (expect_that (concat found = []) (join ''; '' (concat found))) (\<lambda>_. ret None))"

text \<open>\<open>b.split("->")[1]\<close> of a binding with an arrow.\<close>

definition after_arrow :: "string \<Rightarrow> string option" where
  "after_arrow b =
     map_option (\<lambda>i. let rest = drop (i + 2) b in
       case find_sub ''->'' rest of None \<Rightarrow> rest | Some j \<Rightarrow> take j rest) (find_sub ''->'' b)"

definition beyond_loopback :: "string \<Rightarrow> bool" where
  "beyond_loopback b \<longleftrightarrow> (case after_arrow b of None \<Rightarrow> False | Some t \<Rightarrow> \<not> prefix ''127.0.0.1:'' (strip t))"

definition public_port :: "string \<Rightarrow> bool" where
  "public_port b \<longleftrightarrow> prefix ''30443/'' b \<or> prefix ''31443/'' b"

definition host_ports_check :: "'k lab \<Rightarrow> ('k world, string option) act" where
  "host_ports_check l =
     bindA (host_port_bindings (station l)) (\<lambda>bindings.
     bindA (expect_that (bindings \<noteq> []) ''control-plane container has no port bindings'') (\<lambda>_.
     bindA (expect_that (filter beyond_loopback bindings = []) ''ports bound beyond loopback'') (\<lambda>_.
     let public = sort (filter public_port bindings) in
     bindA (expect_that (length public = 2) ''expected Kong and Keycloak port mappings'') (\<lambda>_.
     ret (Some (join ''; '' public))))))"

subsection \<open>The suite\<close>

definition foundation_suite :: "'k lab \<Rightarrow> exn_texts \<Rightarrow> string \<Rightarrow> 'k foundation suite" where
  "foundation_suite l t ns =
     \<lparr>suite_name = ''foundation'',
      suite_description = ''cluster version, pod security, storage, network policy enforcement, host ports'',
      suite_checks =
        [(''nodes ready on pinned Kubernetes version'', inner (nodes_check l)),
         (''namespaces carry Pod Security levels'', inner (pod_security_labels l)),
         (''platform namespaces reject a privileged pod'', inner (pod_security_enforced l t)),
         (''persistent volume claim binds and stores data'', storage_check l ns),
         (''NetworkPolicy is enforced for real traffic'', network_policy_enforced l ns),
         (''platform containers declare their own resources and none was killed for memory'', inner (resources_check l)),
         (''public host ports listen on loopback only'', inner (host_ports_check l))],
      suite_cleanup = Some (foundation_cleanup l ns)\<rparr>"

definition run_foundation :: "'k lab \<Rightarrow> exn_texts \<Rightarrow> ('k world, check_outcome list) act" where
  "run_foundation l t =
     bindA (call (uuid_hex (station l))) (\<lambda>uuid.
     run_with l t False (foundation_suite l t (''txplatform-check-'' @ take 6 uuid)))"

subsection \<open>A run cleans up after itself\<close>

definition port_query :: event where
  "port_query = ToolStarted ''docker'' [''port'', CLUSTER_NAME @ ''-control-plane'']"

text \<open>What is made inside the namespace of the suite disappears with it.\<close>

definition inside :: "string \<Rightarrow> event set" where
  "inside ns = {ev. \<exists>kind name. ev = ResourceCreated kind ns name} \<union> probes_in ns"

definition refuses_namespace :: "'k lab \<Rightarrow> string \<Rightarrow> bool" where
  "refuses_namespace l ns \<longleftrightarrow> (\<exists>labels k. isl (fst (create_namespace l ns labels k)))"

definition left_by :: "'k lab \<Rightarrow> string \<Rightarrow> bool \<Rightarrow> event \<Rightarrow> bool" where
  "left_by l ns c ev \<longleftrightarrow> ev = port_query \<or>
     (ev = ResourceCreated ''Namespace'' [] ns \<and> (c \<or> refuses_namespace l ns)) \<or> (c \<and> ev \<in> inside ns)"

definition tidy :: "'k lab \<Rightarrow> string \<Rightarrow> 'k foundation \<Rightarrow> 'k foundation \<Rightarrow> bool" where
  "tidy l ns = (\<lambda>(c, w) (c', w'). (c \<longrightarrow> c') \<and> (\<exists>new. trail w' = trail w @ new \<and>
     list_all (left_by l ns c') new))"

interpretation neat: step_rel "tidy l ns :: 'k foundation \<Rightarrow> 'k foundation \<Rightarrow> bool" for l ns
proof
  fix u v w :: "'k foundation" assume "tidy l ns u v" and "tidy l ns v w"
  then obtain new new' where "trail (snd v) = trail (snd u) @ new" "trail (snd w) = trail (snd v) @ new'"
    and "fst u \<longrightarrow> fst v" "fst v \<longrightarrow> fst w" and "list_all (left_by l ns (fst v)) new" "list_all (left_by l ns (fst w)) new'"
    unfolding tidy_def by (auto simp: case_prod_beta)
  moreover from this have "list_all (left_by l ns (fst w)) new" by (auto simp: left_by_def list_all_iff)
  ultimately show "tidy l ns u w"
    unfolding tidy_def by (auto simp: case_prod_beta intro!: exI [of _ "new @ new'"])
qed (auto simp: tidy_def)

lemma tidy_inner:
  fixes m :: "('k world, 'a) act"
  assumes "steps (only {port_query}) m"
  shows "steps (tidy l ns) (inner m)"
proof (rule stepsI)
  fix u v :: "'k foundation" and r assume run: "inner m u = (r, v)"
  then have "m (snd u) = (r, snd v)" "fst v = fst u" by (auto simp: inner_def split: prod.splits)
  with stepsD [OF assms this(1)] show "tidy l ns u v" by (auto simp: tidy_def only_def left_by_def list_all_iff case_prod_beta)
qed

lemma tidy_ensure:
  fixes u v :: "'k foundation"
  assumes run: "ensure_check_namespace l ns u = (r, v)"
  shows "tidy l ns u v" and "r = Inr () \<Longrightarrow> fst v"
proof -
  obtain c w where u: "u = (c, w)" by (cases u)
  have "tidy l ns u v \<and> (r = Inr () \<longrightarrow> fst v)"
  proof (cases c)
    case True
    then show ?thesis using run by (auto simp: u ensure_check_namespace_def bindA_apply tidy_def)
  next
    case False
    obtain r1 k where k: "create_namespace l ns [(''app.kubernetes.io/part-of'', ''txplatform''), (''txplatform.io/temporary'', ''true'')] (ext w) = (r1, k)"
      by (cases "create_namespace l ns [(''app.kubernetes.io/part-of'', ''txplatform''), (''txplatform.io/temporary'', ''true'')] (ext w)")
    show ?thesis
    proof (cases r1)
      case (Inl e)
      then have "refuses_namespace l ns" unfolding refuses_namespace_def using k by (metis fst_conv sum.disc(1))
      then show ?thesis using run False k Inl
        by (auto simp: u ensure_check_namespace_def bindA_apply inner_def created_def effect_def call_def tidy_def left_by_def)
    next
      case (Inr x)
      then show ?thesis using run False k
        by (auto simp: u ensure_check_namespace_def bindA_apply inner_def created_def effect_def call_def tidy_def left_by_def)
    qed
  qed
  then show "tidy l ns u v" "r = Inr () \<Longrightarrow> fst v" by blast+
qed

lemma tidy_within:
  assumes "steps (only (inside ns)) m"
  shows "steps (tidy l ns) (bindA (ensure_check_namespace l ns) (\<lambda>_. inner m))"
proof (rule stepsI)
  fix u r v assume "bindA (ensure_check_namespace l ns) (\<lambda>_. inner m) u = (r, v)"
  then show "tidy l ns u v"
  proof (cases rule: bindA_cases)
    case (Raise e)
    show ?thesis by (rule tidy_ensure(1) [OF Raise(1)])
  next
    case (Cont a v1)
    then have first: "tidy l ns u v1" "fst v1" using tidy_ensure [OF Cont(1)] by auto
    from Cont(2) have m: "m (snd v1) = (r, snd v)" "fst v = fst v1" by (auto simp: inner_def split: prod.splits)
    have "tidy l ns v1 v" using stepsD [OF assms m(1)] m(2) first(2) by (auto simp: tidy_def only_def left_by_def list_all_iff case_prod_beta)
    with first(1) show ?thesis by (rule neat.step_trans)
  qed
qed

lemma tidy_check:
  assumes "steps (tidy l ns) m"
  shows "steps (tidy l ns) (run_check (inner (call clk)) t s (name, m))"
  using assms tidy_inner [OF only_call]
  by (auto simp: run_check_def outcome_of_def excepting_def intro!: neat.steps_intros split: exn.splits)

lemma quiet_checks:
  "steps (only {port_query}) (nodes_check l)" "steps (only {port_query}) (pod_security_labels l)"
  "steps (only {port_query}) (pod_security_enforced l t)" "steps (only {port_query}) (resources_check l)"
  "steps (only {port_query}) (host_ports_check l)"
  by (auto simp: nodes_check_def check_node_def pod_security_labels_def check_level_def pod_security_enforced_def
    check_rejected_def resources_check_def namespace_problems_def host_ports_check_def host_port_bindings_def port_query_def Let_def
    intro!: only_steps split: exn.splits prod.splits)

lemma only_becomes: "steps (only evs) probe \<Longrightarrow> steps (only evs) (becomes n l probe expected deadline)"
  by (induction n) (auto intro!: only_steps)

lemma inside_checks: "steps (only (inside ns)) (writes_to_claim l ns)" "steps (only (inside ns)) (policy_stops_traffic l ns)"
proof -
  have made: "ResourceCreated kind ns name \<in> inside ns" "probes_in ns \<subseteq> inside ns" for kind name by (auto simp: inside_def)
  show "steps (only (inside ns)) (writes_to_claim l ns)" "steps (only (inside ns)) (policy_stops_traffic l ns)"
    by (auto simp: writes_to_claim_def policy_stops_traffic_def created_def reachable_becomes_def
      intro!: only_steps only_becomes made)
qed

lemma tidy_suite:
  assumes "chk \<in> set (suite_checks (foundation_suite l t ns))"
  shows "steps (tidy l ns) (run_check (inner (call clk)) t' s chk)"
  using assms by (auto simp: foundation_suite_def storage_check_def network_policy_enforced_def
    intro!: tidy_check tidy_within tidy_inner quiet_checks inside_checks)

lemma cleanup_trail:
  assumes "foundation_cleanup l ns (c, w) = (r, u)"
  shows "fst u = c \<and> trail (snd u) = trail w @ (if c then [ResourceDeleted ''Namespace'' [] ns] else [])"
proof (cases c)
  case True
  obtain r1 w1 where d: "deleted ''Namespace'' [] ns (delete_namespace l ns) w = (r1, w1)"
    by (cases "deleted ''Namespace'' [] ns (delete_namespace l ns) w")
  then have "trail w1 = trail w @ [ResourceDeleted ''Namespace'' [] ns]"
    unfolding deleted_def by (metis effect_keeps(4) snd_conv)
  then show ?thesis using assms d True
    by (cases r1) (auto simp: foundation_cleanup_def bindA_apply catchA_def inner_def split: if_splits)
qed (use assms in \<open>auto simp: foundation_cleanup_def bindA_apply\<close>)

lemma clean_up_trail:
  assumes "clean_up_suite (foundation_suite l t ns) (c, w) = (r, u)"
  shows "fst u = c \<and> trail (snd u) = trail w @ (if c then [ResourceDeleted ''Namespace'' [] ns] else [])"
proof -
  obtain r1 u1 where clean: "foundation_cleanup l ns (c, w) = (r1, u1)" by (cases "foundation_cleanup l ns (c, w)")
  then have "u = u1" using assms
    by (cases r1) (auto simp: clean_up_suite_def foundation_suite_def excepting_def catchA_def split: if_splits)
  then show ?thesis using cleanup_trail [OF clean] by simp
qed

text \<open>
  Property C25. The foundation suite cleans up after itself, however its checks end, even interrupted: all
  it leaves in the trail is the question for the ports and, inside the namespace it created, the resources of two
  checks; and if the namespace was created, its deletion is the last thing that happens. Without the
  namespace nothing else was created, and every attempt to create it was refused.
\<close>

theorem foundation_cleans_up:
  "case run_suite (inner (call clk)) t (foundation_suite l t ns) (False, w) of (r, (c, w')) \<Rightarrow>
     \<exists>new. trail w' = trail w @ new @ (if c then [ResourceDeleted ''Namespace'' [] ns] else []) \<and> list_all (left_by l ns c) new"
proof -
  let ?s = "foundation_suite l t ns"
  obtain r c w' where run: "run_suite (inner (call clk)) t ?s (False, w) = (r, (c, w'))"
    by (cases "run_suite (inner (call clk)) t ?s (False, w)") auto
  obtain r1 c1 w1 where body: "mapA (run_check (inner (call clk)) t ?s) (suite_checks ?s) (False, w) = (r1, (c1, w1))"
    by (cases "mapA (run_check (inner (call clk)) t ?s) (suite_checks ?s) (False, w)") auto
  have "steps (tidy l ns) (mapA (run_check (inner (call clk)) t ?s) (suite_checks ?s))"
    by (intro neat.steps_mapA tidy_suite)
  from stepsD [OF this body] obtain new where new: "trail w1 = trail w @ new" "list_all (left_by l ns c1) new"
    unfolding tidy_def by auto
  obtain r2 u where clean: "clean_up_suite ?s (c1, w1) = (r2, u)" by (cases "clean_up_suite ?s (c1, w1)")
  then have "u = (c, w')" using run body unfolding run_suite_def finallyA_def by (auto split: sum.splits)
  with clean_up_trail [OF clean] have "c = c1 \<and> trail w' = trail w1 @ (if c1 then [ResourceDeleted ''Namespace'' [] ns] else [])"
    by simp
  with new show ?thesis by (simp add: run)
qed

end
