(* ===== verification/ProbeLaws.thy ===== *)
theory ProbeLaws
  imports Lab
begin

section \<open>What a probe tells about the network\<close>

text \<open>
  A cluster that runs the pods it is given: \<open>pods\<close> are the pods that exist, \<open>net\<close> is what the network lets through
  for a namespace and a network identity, and the log of a finished probe is what the shell prints when it runs the
  script of that pod there. Then an answer of \<open>run_tcp_probe\<close> is the truth about the network of the identity.
\<close>

definition serves_probes ::
  "'k host \<Rightarrow> ('k \<Rightarrow> string \<times> string \<Rightarrow> pod_spec option) \<Rightarrow> (string \<Rightarrow> string option \<Rightarrow> net) \<Rightarrow> target list list \<Rightarrow> bool" where
  "serves_probes h pods net tss \<longleftrightarrow>
     (\<forall>ns name spec k k'. create_pod h ns name spec k = (Inr (), k') \<longrightarrow> pods k' (ns, name) = Some spec) \<and>
     (\<forall>name ns k r k'. read_pod_phase h name ns k = (r, k') \<longrightarrow> pods k' = pods k) \<and>
     (\<forall>k r k'. monotonic_clock (cluster h) k = (r, k') \<longrightarrow> pods k' = pods k) \<and>
     (\<forall>d k r k'. sleep_for (cluster h) d k = (r, k') \<longrightarrow> pods k' = pods k) \<and>
     (\<forall>name ns k logs k' spec ts. read_pod_log h name ns k = (Inr logs, k') \<and> pods k (ns, name) = Some spec \<and> ts \<in> set tss \<and>
        spec_command spec = [''sh'', ''-c'', build_probe_script ts 3] \<longrightarrow>
        logs = script_output (net ns (dict_get (spec_labels spec) IDENTITY_LABEL)) 0 (map (probe_command 3) ts))"

definition same_pods :: "('k \<Rightarrow> string \<times> string \<Rightarrow> pod_spec option) \<Rightarrow> 'k world \<Rightarrow> 'k world \<Rightarrow> bool" where
  "same_pods pods w w' \<longleftrightarrow> pods (ext w') = pods (ext w)"

interpretation settled: step_rel "same_pods pods :: 'k world \<Rightarrow> 'k world \<Rightarrow> bool" for pods
  by unfold_locales (simp_all add: same_pods_def)

lemma same_pods_call:
  "(\<And>k r k'. m k = (r, k') \<Longrightarrow> pods k' = pods k) \<Longrightarrow> steps (same_pods pods) (call m)"
  by (rule stepsI) (auto simp: same_pods_def dest!: call_D)

lemma same_pods_poll:
  assumes "steps (same_pods pods) (call (monotonic_clock a))" and "\<And>d. steps (same_pods pods) (call (sleep_for a d))"
    and "steps (same_pods pods) p"
  shows "steps (same_pods pods) (poll n a deadline interval p)"
proof (induction n)
  case (Suc n)
  have "steps (same_pods pods) (catchA p tolerate_api_errors)"
    using assms(3) by (auto simp: tolerate_api_errors_def intro!: settled.steps_intros split: exn.splits)
  with Suc show ?case by (auto intro!: settled.steps_intros assms split: option.splits)
qed (auto intro: settled.steps_intros)

lemma probe_identity:
  "ident \<noteq> Some [] \<Longrightarrow> dict_get (probe_labels ident []) IDENTITY_LABEL = ident"
proof -
  have "dict_get [(''app.kubernetes.io/part-of'', ''txplatform''), (''txplatform.io/probe'', ''true'')] IDENTITY_LABEL = None"
    by (simp add: dict_get_def IDENTITY_LABEL_def)
  then show "ident \<noteq> Some [] \<Longrightarrow> dict_get (probe_labels ident []) IDENTITY_LABEL = ident"
    by (auto simp: probe_labels_def Let_def dict_get_put split: option.splits)
qed

lemma probe_tells:
  assumes h: "serves_probes h pods net tss" and ts: "ts \<in> set tss" and plain: "list_all (\<lambda>t. plain_word (target_host t)) ts"
    and ident: "ident \<noteq> Some []" and run: "run_tcp_probe h ns ident ts [] 3 w = (Inr results, w')"
  shows "\<forall>t \<in> set ts. dict_get results (target_text t) = Some (reach (net ns ident) (target_host t) (target_port t))"
proof -
  have calls: "steps (same_pods pods) (call (monotonic_clock (cluster h)))" "steps (same_pods pods) (call (sleep_for (cluster h) d))"
    "steps (same_pods pods) (call (read_pod_phase h name ns'))" for d name ns'
    by (rule same_pods_call; use h in \<open>auto simp: serves_probes_def\<close>)+
  define labels script d where "labels = probe_labels ident []" and "script = build_probe_script ts 3"
    and "d = 90 + of_nat (length ts) * of_int (3 + 2 :: int) + (0 :: real)"
  have "in_probe_pod h ns ''netprobe'' labels script d (probe_answers ts) w = (Inr results, w')"
    using run by (simp add: run_tcp_probe_def labels_def script_def d_def)
  then obtain name img w1 w2 u where made: "effect (ProbeCreated ns name) (create_pod h ns name (probe_spec labels img script)) w1 = (Inr u, w2)"
    and inside: "finallyA (bindA (wait_for (cluster h) (truth (probe_finished h ns name)) d 1) (\<lambda>_.
          bindA (call (read_pod_log h name ns)) (\<lambda>logs. liftE (probe_answers ts logs)))) (delete_probe h ns name) w2 = (Inr results, w')"
    unfolding in_probe_pod_def Let_def by (elim bindA_InrE) blast
  let ?spec = "probe_spec labels img script"
  from inside obtain w5 where "bindA (wait_for (cluster h) (truth (probe_finished h ns name)) d 1) (\<lambda>_.
          bindA (call (read_pod_log h name ns)) (\<lambda>logs. liftE (probe_answers ts logs))) w2 = (Inr results, w5)"
    by (rule finallyA_cases) auto
  then obtain w3 logs w4 where waited: "wait_for (cluster h) (truth (probe_finished h ns name)) d 1 w2 = (Inr (), w3)"
    and logs: "call (read_pod_log h name ns) w3 = (Inr logs, w4)" "probe_answers ts logs = Inr results"
    by (elim bindA_InrE) simp
  have spec: "spec_command ?spec = [''sh'', ''-c'', build_probe_script ts 3]" "spec_labels ?spec = probe_labels ident []"
    by (simp_all add: probe_spec_def labels_def script_def)
  have "pods (ext w2) (ns, name) = Some ?spec"
    using made h unfolding effect_def serves_probes_def by (auto dest!: call_D)
  moreover have calm: "steps (same_pods pods) (wait_for (cluster h) (truth (probe_finished h ns name)) d 1)"
    by (auto simp: wait_for_def truth_def probe_finished_def intro!: settled.steps_intros same_pods_poll calls)
  have "pods (ext w3) = pods (ext w2)" using stepsD [OF calm waited] unfolding same_pods_def .
  ultimately have "pods (ext w3) (ns, name) = Some ?spec" by simp
  moreover obtain k4 where "read_pod_log h name ns (ext w3) = (Inr logs, k4)" using call_D [OF logs(1)] by blast
  ultimately have "logs = script_output (net ns ident) 0 (map (probe_command 3) ts)"
    using h ts spec probe_identity [OF ident] unfolding serves_probes_def by metis
  then have "results = reported (net ns ident) ts" using logs(2) probe_answers_reported [OF plain] by simp
  then show ?thesis by (simp add: reported_get)
qed

end
