(* ===== verification/SecuritySuite.thy ===== *)
theory SecuritySuite
  imports ProbeLaws
begin

section \<open>The security suite (validation/security.py)\<close>

text \<open>
  Identity, authorization and network boundaries of the running platform. The theorems say that the
  connection matrix is enforced exactly when the check passes, and that the check for leaked secrets finds
  every generated secret in a ConfigMap although it searches the JSON text of its data.
\<close>

definition SECURED_SERVICES :: "string list" where
  "SECURED_SERVICES = [''order-service'', ''inventory-service'', ''fraud-service'', ''payment-service'', ''shipping-service'']"

definition app_svc :: "string \<Rightarrow> int \<Rightarrow> target" where "app_svc name port = svc NS_APP name port"

definition pod_ip :: "'k lab \<Rightarrow> string \<Rightarrow> ('k world, string) act" where
  "pod_ip l name =
     bindA (ready_live l NS_APP (''app.kubernetes.io/name='' @ name)) (\<lambda>pods.
       case pods of [] \<Rightarrow> raise (CheckFailed (''no ready pod for '' @ name)) | p # _ \<Rightarrow> ret (live_ip p))"

type_synonym rule = "string \<times> string option \<times> target \<times> bool"

text \<open>The rules over the address of an inventory pod, in the order the code lists them.\<close>

definition matrix_rules :: "string \<Rightarrow> rule list" where
  "matrix_rules inventory_ip =
     map (\<lambda>name. (NS_APP, Some ''order-service'', app_svc name 8080, True)) (tl SECURED_SERVICES) @
     [(NS_APP, Some ''order-service'', app_svc ''keycloak'' 8080, True),
      (NS_APP, Some ''order-service'', \<lparr>target_host = inventory_ip, target_port = 8081\<rparr>, False),
      (NS_APP, Some ''inventory-service'', app_svc ''payment-service'' 8080, False),
      (NS_APP, Some ''inventory-service'', app_svc ''order-service'' 8080, False),
      (NS_APP, Some ''inventory-service'', app_svc ''keycloak'' 8080, False)] @
     map (\<lambda>t. (''default'', None, t, False))
       [app_svc ''order-service'' 8080, app_svc ''inventory-service'' 8080, app_svc ''keycloak'' 8080] @
     [(''default'', None, app_svc ''keycloak-public'' 8443, True)]"

definition expected_network_matrix :: "'k lab \<Rightarrow> ('k world, rule list) act" where
  "expected_network_matrix l = bindA (pod_ip l ''inventory-service'') (\<lambda>ip. ret (matrix_rules ip))"

subsection \<open>Identity and authorization\<close>

definition discovery_path :: string where
  "discovery_path = ''/realms/'' @ REALM @ ''/.well-known/openid-configuration''"

definition check_issuer :: "pyval \<Rightarrow> ('w, unit) act" where
  "check_issuer document =
     bindA (liftE (py_item document ''issuer'')) (\<lambda>issuer.
     expect_that (issuer = PStr ISSUER) ''the issuer is another one'')"

definition public_discovery :: "'k lab \<Rightarrow> ('k world, string option) act" where
  "public_discovery l =
     bindA (get_page l KEYCLOAK_PUBLIC_URL discovery_path []) (\<lambda>response.
     bindA (liftE (json_ok response)) (\<lambda>document.
     bindA (check_issuer document) (\<lambda>_. ret None)))"

definition internal_discovery :: "'k lab \<Rightarrow> ('k world, string option) act" where
  "internal_discovery l =
     bindA (run_http_probe (station l) NS_APP (Some ''order-service'')
              [''http://keycloak.'' @ NS_APP @ ''.svc.cluster.local:8080'' @ discovery_path] 5) (\<lambda>results.
     case results of
       [(ok, body)] \<Rightarrow>
         bindA (expect_that ok ''OrderService identity could not fetch discovery document'') (\<lambda>_.
         bindA (liftE (json_loads body)) (\<lambda>document.
         bindA (check_issuer document) (\<lambda>_.
         bindA (liftE (py_item document ''jwks_uri'')) (\<lambda>uri.
         bindA (case uri of PStr u \<Rightarrow> expect_that (prefix ''http://keycloak.'' u) ''jwks_uri is not internal'' | _ \<Rightarrow> raise AttributeError) (\<lambda>_.
         ret None)))))
     | _ \<Rightarrow> raise ValueError)"

definition EXPECTED_PERMISSIONS :: "(string, string list) dict" where
  "EXPECTED_PERMISSIONS =
     [(''scenario-runner'', [''orders.read'', ''orders.write'', ''traces.debug'']), (''order-reader'', [''orders.read''])]"

definition audience_of :: "pyval \<Rightarrow> pyval list" where
  "audience_of aud = (case aud of PList xs \<Rightarrow> xs | v \<Rightarrow> [v])"

definition hashable_items :: "pyval list \<Rightarrow> pyval list result" where
  "hashable_items xs = (if list_all hashable xs then Inr xs else Inl TypeError)"

definition check_claims :: "'k lab \<Rightarrow> string \<times> string list \<Rightarrow> ('k world, unit) act" where
  "check_claims l = (\<lambda>(client_id, permissions).
     bindA (call (fetch_token (client l) client_id)) (\<lambda>token.
     bindA (liftE (decode_claims token)) (\<lambda>claims.
     bindA (liftE (py_item claims ''aud'')) (\<lambda>aud.
     bindA (expect_that (PStr ''order-api'' \<in> set (audience_of aud)) (client_id @ '' token has another audience'')) (\<lambda>_.
     bindA (liftE (bindE (py_get claims ''permissions'' (PList [])) (\<lambda>v. bindE (py_iter v) hashable_items))) (\<lambda>granted.
     bindA (expect_that (set granted = set (map PStr permissions)) (client_id @ '' has other permissions'')) (\<lambda>_.
     bindA (liftE (py_item claims ''iss'')) (\<lambda>issuer.
     expect_that (issuer = PStr ISSUER) (client_id @ '' has another issuer'')))))))))"

definition token_claims :: "'k lab \<Rightarrow> ('k world, string option) act" where
  "token_claims l = bindA (forA EXPECTED_PERMISSIONS (check_claims l)) (\<lambda>_. ret None)"

definition bearer :: "string \<Rightarrow> (string, string) dict" where
  "bearer tok = [(''Authorization'', ''Bearer '' @ tok)]"

definition authorization_statuses :: "'k lab \<Rightarrow> string \<Rightarrow> ('k world, int list) act" where
  "authorization_statuses l address =
     (let base = ''http://'' @ address in
      bindA (post_order l base []) (\<lambda>anonymous.
      bindA (call (fetch_token (client l) ''order-reader'')) (\<lambda>reader.
      bindA (post_order l base (bearer reader)) (\<lambda>reader_create.
      bindA (call (new_uuid l)) (\<lambda>uuid.
      bindA (get_page l base (''/orders/'' @ uuid) (bearer reader)) (\<lambda>reader_read.
      bindA (call (fetch_token (client l) ''scenario-runner'')) (\<lambda>runner.
      bindA (post_order l base (bearer runner)) (\<lambda>runner_create.
      ret (map resp_status [anonymous, reader_create, reader_read, runner_create])))))))))"

definition api_authorization :: "'k lab \<Rightarrow> ('k world, string option) act" where
  "api_authorization l =
     bindA (forwarded l NS_APP ''svc/order-service'' 8080 (authorization_statuses l)) (\<lambda>outcome.
     bindA (expect_that (outcome = [401, 403, 404, 201]) ''(anonymous, reader POST, reader GET, runner POST)'') (\<lambda>_.
     ret (Some ''401 / 403 / 404 / 201'')))"

subsection \<open>Network boundaries\<close>

definition rule_key :: "rule \<Rightarrow> string \<times> string option" where "rule_key = (\<lambda>(ns, ident, _, _). (ns, ident))"
definition rule_target :: "rule \<Rightarrow> target" where "rule_target = (\<lambda>(_, _, t, _). t)"
definition rule_allows :: "rule \<Rightarrow> bool" where "rule_allows = (\<lambda>(_, _, _, allowed). allowed)"

definition anonymous_or :: "string option \<Rightarrow> string" where
  "anonymous_or ident = (case ident of None \<Rightarrow> ''anonymous'' | Some i \<Rightarrow> if i = [] then ''anonymous'' else i)"

definition mismatch_text :: "string \<Rightarrow> string option \<Rightarrow> target \<Rightarrow> bool \<Rightarrow> string" where
  "mismatch_text ns ident t reachable =
     anonymous_or ident @ CHR ''@'' # ns @ '' -> '' @ target_text t @ '' is '' @ (if reachable then ''reachable'' else ''blocked'')"

definition mismatches_of :: "string \<Rightarrow> string option \<Rightarrow> rule list \<Rightarrow> bool list \<Rightarrow> string list" where
  "mismatches_of ns ident rules replies =
     concat (map (\<lambda>(r, reachable). if reachable \<noteq> rule_allows r then [mismatch_text ns ident (rule_target r) reachable] else [])
       (zip rules replies))"

definition probe_group :: "'k lab \<Rightarrow> (string \<times> string option) \<times> rule list \<Rightarrow> ('k world, string list) act" where
  "probe_group l = (\<lambda>((ns, ident), rules).
     bindA (probe_all l ns ident (map rule_target rules)) (\<lambda>replies. ret (mismatches_of ns ident rules replies)))"

definition network_matrix :: "'k lab \<Rightarrow> ('k world, string option) act" where
  "network_matrix l =
     bindA (expected_network_matrix l) (\<lambda>rules.
     bindA (mapA (probe_group l) (group_by rule_key rules)) (\<lambda>mismatches.
     bindA (expect_that (concat mismatches = []) (join ''; '' (concat mismatches))) (\<lambda>_.
     ret (Some (show_nat (length rules) @ '' connections behave as declared'')))))"

text \<open>
  Tuples are compared entry by entry; two ports of one service of which only one has a node port cannot be
  compared.
\<close>

definition exposed_ports :: "service_view list \<Rightarrow> (string \<times> string \<times> int option) list" where
  "exposed_ports offered =
     concat (map (\<lambda>s. map (\<lambda>(_, node_port). (service_namespace s, service_name s, node_port)) (service_ports s))
       (filter (\<lambda>s. service_type s \<in> {''NodePort'', ''LoadBalancer''}) offered))"

definition incomparable :: "(string \<times> string \<times> int option) list \<Rightarrow> bool" where
  "incomparable ports \<longleftrightarrow> list_ex (\<lambda>(ns, name, p). p = None \<and> list_ex (\<lambda>(ns', name', q). ns' = ns \<and> name' = name \<and> q \<noteq> None) ports) ports"

definition exposure :: "'k lab \<Rightarrow> ('k world, string option) act" where
  "exposure l =
     bindA (call (all_services l)) (\<lambda>offered.
     let ports = exposed_ports offered in
     if incomparable ports then raise TypeError
     else bindA (expect_that
            (sort_key (\<lambda>(ns, name, p). (ns, name, case p of None \<Rightarrow> 0 | Some n \<Rightarrow> n)) ports =
               [(NS_GATEWAY, ''kong-gateway-proxy'', Some 30443), (NS_APP, ''keycloak-public'', Some 31443)])
            ''externally exposed service ports'') (\<lambda>_. ret None))"

subsection \<open>Leaked secrets\<close>

definition holds_secret :: "string list \<Rightarrow> string \<Rightarrow> bool" where
  "holds_secret vals content = list_ex (\<lambda>v. sublist v content) vals"

definition leaking_maps :: "'k lab \<Rightarrow> string list \<Rightarrow> string \<Rightarrow> ('k world, string list) act" where
  "leaking_maps l vals ns =
     bindA (call (config_maps l ns)) (\<lambda>maps.
     ret (map (\<lambda>(name, _). ''ConfigMap '' @ ns @ CHR ''/'' # name)
       (filter (\<lambda>(_, data). holds_secret vals (json_dumps (PDict data))) maps)))"

definition as_text :: "pyval \<Rightarrow> string result" where
  "as_text v = (case v of PStr s \<Rightarrow> Inr s | _ \<Rightarrow> Inl TypeError)"

definition leaking_release :: "'k lab \<Rightarrow> string list \<Rightarrow> pyval \<Rightarrow> ('k world, string list) act" where
  "leaking_release l vals rel =
     bindA (liftE (bindE (py_item rel ''name'') as_text)) (\<lambda>name.
     bindA (liftE (bindE (py_item rel ''namespace'') as_text)) (\<lambda>ns.
     bindA (get_values (station l) name ns) (\<lambda>rendered.
     ret (if holds_secret vals rendered then [''Helm release '' @ name] else []))))"

definition secret_values :: "'k lab \<Rightarrow> ('k world, string list) act" where
  "secret_values l =
     bindA (read_value (station l) NS_APP ADMIN_SECRET_NAME ''password'') (\<lambda>admin.
     bindA (mapA (read_value (station l) NS_APP CLIENT_SECRETS_NAME) CLIENTS) (\<lambda>clients.
     ret (admin # clients)))"

definition secrets_not_leaked :: "'k lab \<Rightarrow> ('k world, string option) act" where
  "secrets_not_leaked l =
     bindA (secret_values l) (\<lambda>vals.
     bindA (mapA (leaking_maps l vals) PLATFORM_NAMESPACES) (\<lambda>maps.
     bindA (list_releases (station l)) (\<lambda>releases.
     bindA (liftE (py_iter releases)) (\<lambda>rs.
     bindA (mapA (leaking_release l vals) rs) (\<lambda>rels.
     bindA (expect_that (concat maps @ concat rels = []) ''secret values found'') (\<lambda>_.
     ret (Some (show_nat (length vals) @ '' secret values checked''))))))))"

definition security_suite :: "'k lab \<Rightarrow> 'k world suite" where
  "security_suite l =
     \<lparr>suite_name = ''security'',
      suite_description = ''identity provider, API authorization, network policy matrix, secret handling'',
      suite_checks =
        [(''Keycloak serves verified TLS with the public issuer'', public_discovery l),
         (''in-cluster discovery uses public issuer and internal key endpoint'', internal_discovery l),
         (''client tokens carry order-api audience and exact permissions'', token_claims l),
         (''OrderService enforces authentication and permissions'', api_authorization l),
         (''network policies enforce the connection matrix'', network_matrix l),
         (''only the gateway and the identity provider are reachable from outside the cluster'', exposure l),
         (''secret values never appear in ConfigMaps or Helm values'', secrets_not_leaked l)],
      suite_cleanup = None\<rparr>"

subsection \<open>The matrix is enforced exactly when its check passes\<close>

definition kept :: "(string \<Rightarrow> string option \<Rightarrow> net) \<Rightarrow> rule \<Rightarrow> bool" where
  "kept net = (\<lambda>(ns, ident, t, allowed). reach (net ns ident) (target_host t) (target_port t) = allowed)"

definition matrix_groups :: "string \<Rightarrow> ((string \<times> string option) \<times> rule list) list" where
  "matrix_groups ip = group_by rule_key (matrix_rules ip)"

definition group_targets :: "string \<Rightarrow> target list list" where
  "group_targets ip = map (\<lambda>(_, rules). map rule_target rules) (matrix_groups ip)"

lemma plain_app: "plain_word name \<Longrightarrow> plain_word (target_host (app_svc name port))"
  by (simp add: app_svc_def svc_def plain_word_def NS_APP_def is_space_def)

lemma matrix_plain:
  assumes "plain_word ip" and "r \<in> set (matrix_rules ip)"
  shows "plain_word (target_host (rule_target r))"
proof -
  have names: "plain_word ''order-service''" "plain_word ''inventory-service''" "plain_word ''fraud-service''"
    "plain_word ''payment-service''" "plain_word ''shipping-service''" "plain_word ''keycloak''" "plain_word ''keycloak-public''"
    by (simp_all add: plain_word_def is_space_def)
  show ?thesis using assms by (auto simp: matrix_rules_def SECURED_SERVICES_def rule_target_def intro: plain_app names)
qed

lemma matrix_identities: "(ns, Some i, t, b) \<in> set (matrix_rules ip) \<Longrightarrow> i \<noteq> []"
  by (auto simp: matrix_rules_def SECURED_SERVICES_def)

lemma mismatches_Nil:
  assumes "list_all (\<lambda>r. rule_key r = (ns, ident)) rules"
  shows "mismatches_of ns ident rules (map (\<lambda>r. reach (net ns ident) (target_host (rule_target r)) (target_port (rule_target r))) rules) = [] \<longleftrightarrow>
    list_all (kept net) rules"
  using assms by (induction rules) (auto simp: mismatches_of_def kept_def rule_key_def rule_target_def rule_allows_def)

lemma probe_group_says:
  assumes "serves_probes (station l) pods net tss" and "map rule_target rules \<in> set tss"
    and "list_all (\<lambda>r. plain_word (target_host (rule_target r))) rules" and "ident \<noteq> Some []"
    and "list_all (\<lambda>r. rule_key r = (ns, ident)) rules" and "probe_group l ((ns, ident), rules) w = (Inr ms, w')"
  shows "ms = [] \<longleftrightarrow> list_all (kept net) rules"
proof -
  obtain results replies w1 where probed: "run_tcp_probe (station l) ns ident (map rule_target rules) [] 3 w = (Inr results, w1)"
    and replies: "mapE (answer results) (map rule_target rules) = Inr replies" and ms: "ms = mismatches_of ns ident rules replies"
    using assms(6) unfolding probe_group_def probe_all_def by (auto elim!: bindA_InrE)
  have plain: "list_all (\<lambda>t. plain_word (target_host t)) (map rule_target rules)" using assms(3) by (simp add: list_all_iff)
  have told: "answer results t = Inr (reach (net ns ident) (target_host t) (target_port t))" if "t \<in> set (map rule_target rules)" for t
    using probe_tells [OF assms(1,2) plain assms(4) probed] that by (auto simp: answer_def)
  have "mapE (answer results) (map rule_target rules) =
      Inr (map (\<lambda>t. reach (net ns ident) (target_host t) (target_port t)) (map rule_target rules))"
    by (rule mapE_all_Inr) (rule told)
  then have "replies = map (\<lambda>t. reach (net ns ident) (target_host t) (target_port t)) (map rule_target rules)"
    using replies by simp
  then show ?thesis using mismatches_Nil [OF assms(5), of net] by (simp add: ms comp_def)
qed

definition probed_group :: "target list list \<Rightarrow> (string \<times> string option) \<times> rule list \<Rightarrow> bool" where
  "probed_group tss = (\<lambda>((ns, ident), rules). map rule_target rules \<in> set tss \<and> ident \<noteq> Some [] \<and>
     list_all (\<lambda>r. plain_word (target_host (rule_target r))) rules \<and> list_all (\<lambda>r. rule_key r = (ns, ident)) rules)"

lemma probe_groups_say:
  assumes "serves_probes (station l) pods net tss" and "mapA (probe_group l) groups w = (Inr mss, w')"
    and "list_all (probed_group tss) groups"
  shows "concat mss = [] \<longleftrightarrow> list_all (\<lambda>(_, rules). list_all (kept net) rules) groups"
  using assms(2,3)
proof (induction groups arbitrary: w mss)
  case (Cons g groups)
  obtain ns ident rules where g: "g = ((ns, ident), rules)" by (cases g) auto
  from Cons.prems(1) obtain ms w1 mss' where one: "probe_group l g w = (Inr ms, w1)" and mss: "mss = ms # mss'"
    and rest: "mapA (probe_group l) groups w1 = (Inr mss', w')"
    by (auto elim!: bindA_InrE)
  have "ms = [] \<longleftrightarrow> list_all (kept net) rules"
    using Cons.prems(2) probe_group_says [OF assms(1) _ _ _ _ one [unfolded g]] by (auto simp: g probed_group_def)
  moreover have "concat mss' = [] \<longleftrightarrow> list_all (\<lambda>(_, rules). list_all (kept net) rules) groups"
    by (rule Cons.IH [OF rest]) (use Cons.prems(2) in simp)
  ultimately show ?case by (simp add: mss g)
qed simp

lemma groups_cover: "list_all (\<lambda>(_, rules). list_all P rules) (group_by key xs) \<longleftrightarrow> list_all P xs"
proof
  assume all: "list_all (\<lambda>(_, rules). list_all P rules) (group_by key xs)"
  have "P x" if "x \<in> set xs" for x
  proof -
    have "(key x, filter (\<lambda>y. key y = key x) xs) \<in> set (group_by key xs)" using that by (simp add: group_by_member)
    with all that show ?thesis by (fastforce simp: list_all_iff)
  qed
  then show "list_all P xs" by (simp add: list_all_iff)
qed (auto simp: list_all_iff group_by_member)

lemma matrix_groups_probed:
  assumes "plain_word ip"
  shows "list_all (probed_group (group_targets ip)) (matrix_groups ip)"
proof -
  have "probed_group (group_targets ip) ((ns, ident), rules)" if g: "((ns, ident), rules) \<in> set (matrix_groups ip)" for ns ident rules
  proof -
    have rules: "rules = filter (\<lambda>r. rule_key r = (ns, ident)) (matrix_rules ip)" and key: "(ns, ident) \<in> rule_key ` set (matrix_rules ip)"
      using g by (auto simp: matrix_groups_def group_by_member)
    have "map rule_target rules \<in> set (group_targets ip)" using g by (force simp: group_targets_def)
    moreover have "ident \<noteq> Some []" using key matrix_identities by (fastforce simp: rule_key_def)
    moreover have "list_all (\<lambda>r. plain_word (target_host (rule_target r))) rules"
      using matrix_plain [OF assms] by (simp add: list_all_iff rules)
    ultimately show ?thesis by (simp add: probed_group_def list_all_iff rules)
  qed
  then show ?thesis by (auto simp: list_all_iff)
qed


subsection \<open>Leaks are found\<close>

lemma alphabet_plain: "c \<in> set ALPHABET \<Longrightarrow> json_plain c"
proof -
  have "list_all json_plain ALPHABET" by code_simp
  then show "c \<in> set ALPHABET \<Longrightarrow> json_plain c" by (simp add: list_all_iff)
qed

lemma holds_value:
  assumes "v \<in> set vals" and "set v \<subseteq> set ALPHABET" and "(key, PStr text) \<in> set data" and "sublist v text"
  shows "holds_secret vals (json_dumps (PDict data))"
proof -
  have "sublist v (json_dumps (PStr text))"
    using sublist_json_text [OF assms(4)] assms(2) alphabet_plain by (auto simp del: json_dumps.simps simp: json_dumps.simps(5))
  then have "sublist v (json_dumps (PDict data))" by (rule sublist_dumps_value [OF assms(3)])
  then show ?thesis using assms(1) by (auto simp: holds_secret_def list_ex_iff)
qed

lemma leaking_maps_Inr:
  assumes "leaking_maps l vals ns w = (Inr leaks, w')" and "\<forall>ns k r k'. config_maps l ns k = (Inr r, k') \<longrightarrow> r = maps ns"
    and "(name, data) \<in> set (maps ns)" and "holds_secret vals (json_dumps (PDict data))"
  shows "leaks \<noteq> []"
proof -
  obtain found where "call (config_maps l ns) w = (Inr found, w')"
    and leaks: "leaks = map (\<lambda>(name, _). ''ConfigMap '' @ ns @ CHR ''/'' # name) (filter (\<lambda>(_, data). holds_secret vals (json_dumps (PDict data))) found)"
    using assms(1) unfolding leaking_maps_def by (auto elim!: bindA_InrE)
  then have "found = maps ns" using assms(2) by (auto dest!: call_D)
  then show ?thesis using assms(3,4) by (auto simp: leaks filter_empty_conv)
qed

lemma mapA_InrD: "mapA f xs w = (Inr ys, w') \<Longrightarrow> x \<in> set xs \<Longrightarrow> \<exists>y u u'. f x u = (Inr y, u') \<and> y \<in> set ys"
proof (induction xs arbitrary: w ys)
  case (Cons z zs)
  then show ?case by (fastforce elim!: bindA_InrE)
qed simp

text \<open>
  Property C24. Leaked secrets are found: when the check passes, no value of a ConfigMap of the platform contains the
  administrator password or a client secret, as long as these are made of letters and digits, as generated ones are,
  although the check searches the JSON text of the data, in which other characters are escaped.
\<close>

theorem no_secret_in_config_maps:
  assumes "secrets_not_leaked l w = (Inr d, w')" and "\<forall>ns k r k'. config_maps l ns k = (Inr r, k') \<longrightarrow> r = maps ns"
    and "ns \<in> set PLATFORM_NAMESPACES" and "(name, data) \<in> set (maps ns)" and "(key, PStr text) \<in> set data"
  shows "\<exists>vals w1. secret_values l w = (Inr vals, w1) \<and>
    list_all (\<lambda>v. set v \<subseteq> set ALPHABET \<longrightarrow> \<not> sublist v text) vals"
proof -
  obtain vals w1 mapss w2 rs w3 relss where vals: "secret_values l w = (Inr vals, w1)"
    and maps: "mapA (leaking_maps l vals) PLATFORM_NAMESPACES w1 = (Inr mapss, w2)"
    and none: "concat mapss @ concat relss = ([] :: string list)"
    using assms(1) unfolding secrets_not_leaked_def by (auto simp: expect_that_def elim!: bindA_InrE split: if_splits)
  obtain leaks u u' where leaks: "leaking_maps l vals ns u = (Inr leaks, u')" "leaks \<in> set mapss"
    using mapA_InrD [OF maps assms(3)] by blast
  then have "leaks = []" using none by simp
  then have "\<not> holds_secret vals (json_dumps (PDict data))" using leaking_maps_Inr [OF leaks(1) assms(2,4)] by blast
  then have "list_all (\<lambda>v. set v \<subseteq> set ALPHABET \<longrightarrow> \<not> sublist v text) vals"
    using holds_value [OF _ _ assms(5)] by (auto simp: list_all_iff)
  with vals show ?thesis by blast
qed

subsection \<open>A cluster that enforces the matrix\<close>

definition pod_address :: string where "pod_address = ''10.0.0.7''"

definition enforcing :: "string \<Rightarrow> string option \<Rightarrow> net" where
  "enforcing ns ident =
     \<lparr>reach = (\<lambda>host port. list_ex (\<lambda>(ns', i, t, allowed). ns' = ns \<and> i = ident \<and> allowed \<and> target_host t = host \<and> target_port t = port)
        (matrix_rules pod_address)), fetch = (\<lambda>_. (0, []))\<rparr>"

definition script_of :: "target list \<Rightarrow> string list" where
  "script_of ts = [''sh'', ''-c'', build_probe_script ts 3]"

definition pod_log :: "string \<Rightarrow> pod_spec \<Rightarrow> string" where
  "pod_log ns spec =
     (case find (\<lambda>ts. script_of ts = spec_command spec) (group_targets pod_address) of
        None \<Rightarrow> []
      | Some ts \<Rightarrow> script_output (enforcing ns (dict_get (spec_labels spec) IDENTITY_LABEL)) 0 (map (probe_command 3) ts))"

type_synonym pods = "string \<times> string \<Rightarrow> pod_spec option"

definition pod_host :: "pods host" where
  "pod_host = blank_host\<lparr>read_text := (\<lambda>_. ret []), parse_yaml := (\<lambda>_. Inr sample_manifest),
     create_pod := (\<lambda>ns name spec k. (Inr (), k((ns, name) \<mapsto> spec))),
     read_pod_log := (\<lambda>name ns k. (case k (ns, name) of None \<Rightarrow> Inl (ApiException 404) | Some spec \<Rightarrow> Inr (pod_log ns spec), k))\<rparr>"

definition inventory_pod :: live_pod where
  "inventory_pod = \<lparr>live_name = ''inventory-1'', live_uid = ''u1'', live_ip = pod_address, live_node = ''worker'', live_phase = ''Running'',
     live_deleting = False, live_labels = [], live_conditions = [(''Ready'', ''True'')], live_statuses = []\<rparr>"

definition matrix_lab :: "pods lab" where
  "matrix_lab = blank_lab\<lparr>station := pod_host, live_pods := (\<lambda>_ _. ret [inventory_pod])\<rparr>"

text \<open>The scripts of the three groups differ in the first letter of their first host.\<close>

lemma join_nth: "i < length x \<Longrightarrow> join sep (x # xs) ! i = x ! i"
  by (cases xs) (simp_all add: nth_append)

lemma script_letter:
  assumes "target_host t \<noteq> []"
  shows "build_probe_script (t # ts) 3 ! 14 = hd (target_host t)"
proof -
  have "show_int 3 = ''3''" by code_simp
  moreover obtain c cs where "target_host t = c # cs" using assms by (cases "target_host t") auto
  ultimately show ?thesis by (simp add: build_probe_script_def join_nth)
qed

lemma find_by_letter:
  "distinct (map f xs) \<Longrightarrow> \<forall>y \<in> set xs. f y \<noteq> f x \<longrightarrow> g y \<noteq> g x \<Longrightarrow> x \<in> set xs \<Longrightarrow> find (\<lambda>y. g y = g x) xs = Some x"
  by (induction xs) auto

lemma scripts_differ:
  assumes "ts \<in> set (group_targets pod_address)"
  shows "find (\<lambda>ts'. script_of ts' = script_of ts) (group_targets pod_address) = Some ts"
proof (rule find_by_letter [OF _ _ assms])
  show "distinct (map (\<lambda>ts. hd (target_host (hd ts))) (group_targets pod_address))" by code_simp
  have "list_all (\<lambda>ts. ts \<noteq> [] \<and> target_host (hd ts) \<noteq> []) (group_targets pod_address)" by code_simp
  then have letter: "build_probe_script ts' 3 ! 14 = hd (target_host (hd ts'))" if "ts' \<in> set (group_targets pod_address)" for ts'
    using that script_letter by (cases ts') (auto simp: list_all_iff)
  show "\<forall>ts' \<in> set (group_targets pod_address). hd (target_host (hd ts')) \<noteq> hd (target_host (hd ts)) \<longrightarrow> script_of ts' \<noteq> script_of ts"
    using letter letter [OF assms] unfolding script_of_def by (metis list.inject)
qed

lemma pod_host_parts:
  "uuid_hex pod_host = ret ''0123456789abcdef0123456789abcdef''" "delete_pod_at_once pod_host name ns = ret ()"
  "create_pod pod_host ns name spec k = (Inr (), k((ns, name) \<mapsto> spec))"
  "read_pod_log pod_host name ns k = (case k (ns, name) of None \<Rightarrow> Inl (ApiException 404) | Some spec \<Rightarrow> Inr (pod_log ns spec), k)"
  "read_pod_phase pod_host name ns = ret ''Succeeded''" "monotonic_clock (cluster pod_host) = ret 0"
  "sleep_for (cluster pod_host) d = ret ()"
  by (simp_all add: pod_host_def blank_host_def blank_api_def)

lemma pod_log_of:
  assumes "ts \<in> set (group_targets pod_address)" and "spec_command spec = script_of ts"
  shows "pod_log ns spec = script_output (enforcing ns (dict_get (spec_labels spec) IDENTITY_LABEL)) 0 (map (probe_command 3) ts)"
  by (simp add: pod_log_def assms(2) scripts_differ [OF assms(1)])

lemma pod_host_serves: "serves_probes pod_host (\<lambda>k. k) enforcing (group_targets pod_address)"
proof -
  have log: "logs = script_output (enforcing ns (dict_get (spec_labels spec) IDENTITY_LABEL)) 0 (map (probe_command 3) ts)"
    if "read_pod_log pod_host name ns k = (Inr logs, k') \<and> k (ns, name) = Some spec \<and> ts \<in> set (group_targets pod_address) \<and>
      spec_command spec = [''sh'', ''-c'', build_probe_script ts 3]" for name ns k logs k' spec ts
    using that pod_log_of [of ts spec ns] by (auto simp: pod_host_parts script_of_def)
  show ?thesis
    unfolding serves_probes_def
  proof (intro conjI allI impI)
    fix name ns k logs k' spec ts
    assume "read_pod_log pod_host name ns k = (Inr logs, k') \<and> k (ns, name) = Some spec \<and> ts \<in> set (group_targets pod_address) \<and>
      spec_command spec = [''sh'', ''-c'', build_probe_script ts 3]"
    then show "logs = script_output (enforcing ns (dict_get (spec_labels spec) IDENTITY_LABEL)) 0 (map (probe_command 3) ts)" by (rule log)
  qed (auto simp: pod_host_parts)
qed

lemma pod_host_probes:
  assumes "ts \<in> set (group_targets pod_address)" and "list_all (\<lambda>t. plain_word (target_host t)) ts" and "ident \<noteq> Some []"
  shows "\<exists>w'. run_tcp_probe pod_host ns ident ts [] 3 w = (Inr (reported (enforcing ns ident) ts), w')"
proof -
  have load: "load_manifest pod_host u = (Inr sample_versions, u)" for u
    by (simp add: load_manifest_def pod_host_def bindA_apply call_def parse_manifest_def sample_validates)
  have wait: "wait_for (cluster pod_host) (truth (probe_finished pod_host ns name)) d 1 u = (Inr (), u)" if "0 < d" for ns name d u
    using that by (simp add: wait_for_def polls_def pod_host_def blank_host_def blank_api_def call_def bindA_apply
      catchA_def truth_def probe_finished_def)
  have log: "pod_log ns (probe_spec (probe_labels ident []) img (build_probe_script ts 3)) =
      script_output (enforcing ns ident) 0 (map (probe_command 3) ts)" for img
    using scripts_differ [OF assms(1)] probe_identity [OF assms(3)] by (simp add: pod_log_def probe_spec_def script_of_def)
  show ?thesis
    by (simp add: run_tcp_probe_def in_probe_pod_def bindA_apply call_def effect_def load wait finallyA_def delete_probe_def catchA_def
      Let_def pod_host_parts log probe_answers_reported [OF assms(2)])
qed


definition secret_lab :: "unit lab" where
  "secret_lab = blank_lab\<lparr>
     station := blank_host\<lparr>read_secret := (\<lambda>_ _. ret (Some [(''password'', ''czNjcmV0''), (''scenario-runner'', ''czNjcmV0''), (''order-reader'', ''czNjcmV0'')]))\<rparr>,
     config_maps := (\<lambda>_. ret [(''jaeger-collector-config'', [(''config.yaml'', PStr ''num_traces: 5'')])])\<rparr>"

theorem no_secret_in_config_maps_witness:
  "\<exists>vals w1. secret_values secret_lab (empty_world ()) = (Inr vals, w1) \<and> vals = replicate 3 ''s3cret'' \<and>
    list_all (\<lambda>v. set v \<subseteq> set ALPHABET \<longrightarrow> \<not> sublist v ''num_traces: 5'') vals"
proof -
  have "read_value (station secret_lab) ns name key w = (Inr ''s3cret'', w)" if "key \<in> {''password'', ''scenario-runner'', ''order-reader''}" for ns name key w
  proof -
    have "bindE (b64decode ''czNjcmV0'') decode_text = Inr ''s3cret''" by code_simp
    with that show ?thesis by (auto simp: read_value_def secret_lab_def call_def bindA_apply dict_get_def)
  qed
  then have vals: "secret_values secret_lab w = (Inr (replicate 3 ''s3cret''), w)" for w
    by (simp add: secret_values_def CLIENTS_def bindA_apply numeral_3_eq_3)
  have "\<not> holds_secret (replicate 3 ''s3cret'') (json_dumps (PDict [(''config.yaml'', PStr ''num_traces: 5'')]))" by code_simp
  then have "leaking_maps secret_lab (replicate 3 ''s3cret'') ns w = (Inr [], w)" for ns w
    by (simp add: leaking_maps_def secret_lab_def bindA_apply call_def del: json_dumps.simps)
  moreover obtain w' where "list_releases (station secret_lab) (empty_world ()) = (Inr (PList []), w')"
  proof -
    have "loads_or ''[]'' [] = Inr (PList [])" by code_simp
    then have "fst (list_releases (station secret_lab) (empty_world ())) = Inr (PList [])"
      by (simp add: list_releases_def helm_def run_tool_def require_tool_def find_tool_def start_tool_def secret_lab_def blank_host_def
        bindA_apply catchA_def call_def effect_def Let_def)
    then show ?thesis by (metis prod.collapse that)
  qed
  ultimately obtain d where run: "secrets_not_leaked secret_lab (empty_world ()) = (Inr d, w')"
    using vals by (simp add: secrets_not_leaked_def PLATFORM_NAMESPACES_def bindA_apply expect_that_def)
  have static: "\<forall>ns k r k'. config_maps secret_lab ns k = (Inr r, k') \<longrightarrow>
      r = [(''jaeger-collector-config'', [(''config.yaml'', PStr ''num_traces: 5'')])]"
    by (simp add: secret_lab_def)
  have "NS_OBSERVABILITY \<in> set PLATFORM_NAMESPACES" by (simp add: PLATFORM_NAMESPACES_def)
  then show ?thesis
    using no_secret_in_config_maps [OF run static, of NS_OBSERVABILITY "''jaeger-collector-config''" "[(''config.yaml'', PStr ''num_traces: 5'')]"
      "''config.yaml''" "''num_traces: 5''"] vals by simp
qed

end
