(* ===== verification/EdgeSuite.thy ===== *)
theory EdgeSuite
  imports Lab
begin

section \<open>The edge suite (validation/edge.py)\<close>

text \<open>
  Kong as the only public entry point. One check walks from the server span of OrderService up to a span of
  Kong; the walk is a partial function whose value is \<open>None\<close> when it does not end, which in the check can
  only be left by an interrupt. The first theorem says when that happens; the second that the route the
  suite creates is deleted last.
\<close>

definition GATEWAY_NAMESPACE :: string where "GATEWAY_NAMESPACE = ''gateway-system''"
definition GATEWAY_NAME :: string where "GATEWAY_NAME = ''platform-gateway''"

subsection \<open>Conditions of Gateway API objects\<close>

text \<open>\<open>next((c for c in conditions or [] if c.get("type") == kind), {})\<close>.\<close>

fun first_of_type :: "string \<Rightarrow> pyval list \<Rightarrow> pyval result" where
  "first_of_type kind [] = Inr (PDict [])"
| "first_of_type kind (c # cs) = bindE (py_get c ''type'' PNone) (\<lambda>v. if v = PStr kind then Inr c else first_of_type kind cs)"

definition condition :: "pyval \<Rightarrow> string \<Rightarrow> pyval result" where
  "condition conditions kind =
     bindE (if truthy conditions then py_iter conditions else Inr []) (first_of_type kind)"

definition condition_status :: "pyval \<Rightarrow> string \<Rightarrow> pyval result" where
  "condition_status conditions kind = bindE (condition conditions kind) (\<lambda>c. py_get c ''status'' PNone)"

text \<open>\<open>next(p for p in parents if p["parentRef"]["name"] == name)\<close>.\<close>

fun parent_named :: "string \<Rightarrow> pyval list \<Rightarrow> pyval result" where
  "parent_named name [] = Inl StopIteration"
| "parent_named name (p # ps) =
     bindE (bindE (py_item p ''parentRef'') (\<lambda>r. py_item r ''name'')) (\<lambda>v. if v = PStr name then Inr p else parent_named name ps)"

definition route_parent :: "pyval \<Rightarrow> pyval result" where
  "route_parent route =
     bindE (bindE (bindE (py_item route ''status'') (\<lambda>s. py_item s ''parents'')) py_iter) (parent_named GATEWAY_NAME)"

definition expect_true :: "pyval result \<Rightarrow> string \<Rightarrow> ('w, unit) act" where
  "expect_true status message = bindA (liftE status) (\<lambda>v. expect_that (v = PStr ''True'') message)"

definition gateway_status :: "'k lab \<Rightarrow> ('k world, string option) act" where
  "gateway_status l =
     bindA (call (get_custom l GATEWAY_NAMESPACE ''gateways'' GATEWAY_NAME)) (\<lambda>gw.
     bindA (expect_true (bindE (bindE (py_item gw ''status'') (\<lambda>s. py_get s ''conditions'' PNone)) (\<lambda>cs. condition_status cs ''Programmed''))
              ''Gateway not programmed'') (\<lambda>_.
     bindA (call (get_custom l NS_APP ''httproutes'' ''order-api'')) (\<lambda>route.
     bindA (liftE (route_parent route)) (\<lambda>parent.
     bindA (forA [''Accepted'', ''ResolvedRefs''] (\<lambda>kind.
        expect_true (bindE (py_item parent ''conditions'') (\<lambda>cs. condition_status cs kind)) (''HTTPRoute '' @ kind @ '' is not True''))) (\<lambda>_.
     ret None)))))"

subsection \<open>TLS and routing\<close>

definition tls_check :: "'k lab \<Rightarrow> ('k world, string option) act" where
  "tls_check l =
     bindA (call (tls_peer l ''127.0.0.1'' 8443 ''localhost'')) (\<lambda>(version, alternatives).
     bindA (expect_that (version \<in> {''TLSv1.2'', ''TLSv1.3''}) (''negotiated '' @ version)) (\<lambda>_.
     bindA (expect_that (dict_get (dict_of alternatives) ''DNS'' = Some ''localhost'') ''certificate has other names'') (\<lambda>_.
     bindA (call (read_service l ''kong-gateway-proxy'' NS_GATEWAY)) (\<lambda>proxy.
     bindA (expect_that (service_ports proxy = [(443, Some 30443)]) ''proxy service exposes other ports'') (\<lambda>_.
     ret (Some (version @ '', only the HTTPS listener is exposed'')))))))"

definition routing :: "'k lab \<Rightarrow> ('k world, string option) act" where
  "routing l =
     bindA (post_order l GATEWAY_URL []) (\<lambda>unauthenticated.
     bindA (get_page l GATEWAY_URL ''/does-not-exist'' []) (\<lambda>unknown.
     bindA (get_page l GATEWAY_URL ''/inventory/reservations'' []) (\<lambda>internal.
     bindA (expect_that (resp_status unauthenticated = 401 \<and> sublist ''Bearer'' (header unauthenticated ''www-authenticate''))
              (''/orders without token returned '' @ show_int (resp_status unauthenticated))) (\<lambda>_.
     bindA (expect_that (resp_status unknown = 404 \<and> resp_status internal = 404)
              (''unrouted paths returned '' @ show_int (resp_status unknown) @ CHR ''/'' # show_int (resp_status internal))) (\<lambda>_.
     ret None)))))"

subsection \<open>A route from a namespace without access\<close>

definition hijack_route :: "string \<Rightarrow> pyval" where
  "hijack_route name =
     PDict [(''apiVersion'', PStr ''gateway.networking.k8s.io/v1''), (''kind'', PStr ''HTTPRoute''),
       (''metadata'', PDict [(''name'', PStr name)]),
       (''spec'', PDict
         [(''parentRefs'', PList [PDict [(''name'', PStr GATEWAY_NAME), (''namespace'', PStr GATEWAY_NAMESPACE), (''sectionName'', PStr ''https'')]]),
          (''rules'', PList [PDict
            [(''matches'', PList [PDict [(''path'', PDict [(''type'', PStr ''PathPrefix''), (''value'', PStr ''/hijack'')])]]),
             (''backendRefs'', PList [PDict [(''name'', PStr ''kubernetes''), (''port'', PInt 443)]])]])])]"

text \<open>The reason of the first parent that did not accept the route.\<close>

fun first_rejection :: "pyval list \<Rightarrow> pyval result" where
  "first_rejection [] = Inr PNone"
| "first_rejection (p # ps) =
     bindE (bindE (py_get p ''conditions'' PNone) (\<lambda>cs. condition cs ''Accepted'')) (\<lambda>accepted.
     bindE (py_get accepted ''status'' PNone) (\<lambda>status.
       if status = PStr ''False'' then py_get accepted ''reason'' PNone else first_rejection ps))"

definition rejected_reason :: "pyval \<Rightarrow> pyval result" where
  "rejected_reason route =
     bindE (py_get route ''status'' (PDict [])) (\<lambda>status.
     bindE (bindE (py_get status ''parents'' (PList [])) py_iter) first_rejection)"

definition rejected :: "'k lab \<Rightarrow> string \<Rightarrow> ('k world, pyval option) act" where
  "rejected l name =
     bindA (call (get_custom l ''default'' ''httproutes'' name)) (\<lambda>route.
     bindA (liftE (rejected_reason route)) (\<lambda>reason. ret (if truthy reason then Some reason else None)))"

definition route_attachment :: "'k lab \<Rightarrow> string \<Rightarrow> ('k world, string option) act" where
  "route_attachment l name =
     bindA (created ''HTTPRoute'' ''default'' name (create_custom l ''default'' ''httproutes'' (hijack_route name))) (\<lambda>_.
     bindA (wait_for (client l) (rejected l name) 60 2) (\<lambda>reason.
     bindA (expect_that (reason \<in> {PStr ''NotAllowedByListeners'', PStr ''NoMatchingParent''}) ''unexpected rejection reason'') (\<lambda>_.
     bindA (get_page l GATEWAY_URL ''/hijack'' []) (\<lambda>response.
     bindA (expect_that (resp_status response = 404) ''the rejected route is being served'') (\<lambda>_. ret None)))))"

definition edge_cleanup :: "'k lab \<Rightarrow> string \<Rightarrow> ('k world, unit) act" where
  "edge_cleanup l name =
     catchA (deleted ''HTTPRoute'' ''default'' name (delete_custom l ''default'' ''httproutes'' name))
       (\<lambda>e. case e of ApiException _ \<Rightarrow> ret () | _ \<Rightarrow> raise e)"

subsection \<open>Headers\<close>

definition correlation_check :: "'k lab \<Rightarrow> ('k world, string option) act" where
  "correlation_check l =
     bindA (post_order l GATEWAY_URL []) (\<lambda>first.
     bindA (post_order l GATEWAY_URL [(''X-Correlation-ID'', ''edge-check-123'')]) (\<lambda>second.
     let generated = header first ''x-correlation-id'' in
     bindA (expect_that (32 \<le> length generated) (''generated correlation id '' @ generated)) (\<lambda>_.
     bindA (expect_that (dict_get (resp_headers second) ''x-correlation-id'' = Some ''edge-check-123'')
              ''client correlation id came back changed'') (\<lambda>_.
     ret (Some (''generated '' @ generated))))))"

definition header_item :: "http_response \<Rightarrow> string \<Rightarrow> string result" where
  "header_item r name = (case dict_get (resp_headers r) name of None \<Rightarrow> Inl (KeyError name) | Some v \<Rightarrow> Inr v)"

definition forwarded_metadata :: "'k lab \<Rightarrow> ('k world, string option) act" where
  "forwarded_metadata l =
     bindA (call (fetch_token (client l) ''scenario-runner'')) (\<lambda>token.
     let headers = [(''Authorization'', ''Bearer '' @ token)] in
     bindA (post_order l GATEWAY_URL headers) (\<lambda>through_kong.
     bindA (expect_that (resp_status through_kong = 201) (''order through Kong returned '' @ show_int (resp_status through_kong))) (\<lambda>_.
     bindA (liftE (header_item through_kong ''location'')) (\<lambda>location.
     bindA (expect_that (prefix ''https://localhost:8443/orders/'' location) (''Location is '' @ location)) (\<lambda>_.
     bindA (forwarded l NS_APP ''svc/order-service'' 8080 (\<lambda>address.
              post_order l (''http://'' @ address) (headers @ [(''X-Forwarded-Proto'', ''https'')]))) (\<lambda>spoofed.
     bindA (liftE (header_item spoofed ''location'')) (\<lambda>direct.
     bindA (expect_that (prefix ''http://'' direct) (''spoofed request produced Location '' @ direct)) (\<lambda>_.
     ret (Some location)))))))))"

subsection \<open>Kong's retries\<close>

definition starts_with :: "string \<Rightarrow> pyval \<Rightarrow> bool result" where
  "starts_with p v = (case v of PStr s \<Rightarrow> Inr (prefix p s) | _ \<Rightarrow> Inl AttributeError)"

definition is_order_service :: "pyval \<Rightarrow> bool result" where
  "is_order_service s =
     bindE (py_get s ''name'' (PStr [])) (starts_with (''httproute.'' @ NS_APP @ ''.order-api.''))"

definition selected :: "('a \<Rightarrow> bool result) \<Rightarrow> 'a list \<Rightarrow> 'a list result" where
  "selected p xs = bindE (mapE (\<lambda>x. bindE (p x) (\<lambda>b. Inr (if b then [x] else []))) xs) (\<lambda>yss. Inr (concat yss))"

definition retries_of :: "pyval \<Rightarrow> (pyval \<times> pyval) result" where
  "retries_of s = bindE (py_item s ''name'') (\<lambda>n. bindE (py_item s ''retries'') (\<lambda>r. Inr (n, r)))"

definition kong_retries :: "'k lab \<Rightarrow> ('k world, string option) act" where
  "kong_retries l =
     bindA (forwarded l NS_GATEWAY ''svc/kong-gateway-admin'' 8444 (\<lambda>address.
        bindA (get_page l (''https://'' @ address) ''/services'' []) (\<lambda>response.
        liftE (bindE (json_ok response) (\<lambda>v. bindE (py_item v ''data'') py_iter))))) (\<lambda>services.
     bindA (liftE (selected is_order_service services)) (\<lambda>order_services.
     bindA (expect_that (order_services \<noteq> []) ''no Kong service for the order-api route'') (\<lambda>_.
     bindA (liftE (mapE retries_of order_services)) (\<lambda>retries.
     bindA (expect_that (list_all (\<lambda>(_, r). py_eq r (PInt 0)) (dict_of retries)) ''Kong retries'') (\<lambda>_. ret None)))))"

subsection \<open>Kong starts every trace\<close>

definition KONG :: string where "KONG = ''kong-gateway''"

text \<open>\<open>while ancestor is not None and ancestor.service != "kong-gateway": ancestor = trace.parent_of(ancestor)\<close>.\<close>

partial_function (option) kong_ancestor :: "trace \<Rightarrow> span option \<Rightarrow> span option option" where
  "kong_ancestor t current =
     (case current of
        None \<Rightarrow> Some None
      | Some s \<Rightarrow> if service s = KONG then Some (Some s) else kong_ancestor t (parent_of t s))"

definition client_trace :: string where "client_trace = ''0af7651916cd43dd8448eb211c80319c''"

definition spoofing_headers :: "string \<Rightarrow> (string, string) dict" where
  "spoofing_headers tok =
     [(''Authorization'', ''Bearer '' @ tok), (''traceparent'', ''00-'' @ client_trace @ ''-b7ad6b7169203331-01''),
      (''baggage'', ''scenario.id=spoofed-by-client''), (''X-Debug-Trace'', ''true'')]"

definition second_part :: "string \<Rightarrow> string result" where
  "second_part s = (case split_on CHR ''-'' s of _ # p # _ \<Rightarrow> Inr p | _ \<Rightarrow> Inl IndexError)"

definition check_root :: "trace \<Rightarrow> string \<Rightarrow> ('w, unit) act" where
  "check_root t request_id =
     (case roots t of
        [r] \<Rightarrow>
          bindA (expect_that (service r = KONG) ''the root is not a span of Kong'') (\<lambda>_.
          expect_that (attr (span_attrs r) ''kong.request.id'' = PStr request_id) ''kong.request.id differs from the header'')
      | _ \<Rightarrow> raise (CheckFailed ''there is not one root''))"

definition check_descent :: "trace \<Rightarrow> string \<Rightarrow> ('w, unit) act" where
  "check_descent t request_id =
     bindA (liftE (first_item (by_service t ''order-service'' (Some ''SERVER'')))) (\<lambda>order_server.
     bindA (case kong_ancestor t (parent_of t order_server) of None \<Rightarrow> raise KeyboardInterrupt | Some a \<Rightarrow> ret a) (\<lambda>ancestor.
     bindA (expect_that (ancestor \<noteq> None) ''OrderService server span does not descend from a Kong span'') (\<lambda>_.
     expect_that (attr (span_attrs order_server) ''kong.request.id'' = PStr request_id) ''OrderService did not record the Kong request id'')))"

definition kong_trace_root :: "'k lab \<Rightarrow> ('k world, string option) act" where
  "kong_trace_root l =
     bindA (call (fetch_token (client l) ''scenario-runner'')) (\<lambda>token.
     bindA (post_order l GATEWAY_URL (spoofing_headers token)) (\<lambda>response.
     bindA (expect_that (resp_status response = 201) (''order returned '' @ show_int (resp_status response))) (\<lambda>_.
     bindA (liftE (bindE (header_item response ''traceresponse'') second_part)) (\<lambda>tid.
     let request_id = header response ''x-kong-request-id'' in
     bindA (expect_that (tid \<noteq> client_trace) ''Kong continued the trace id of the client'') (\<lambda>_.
     bindA (wait_for_trace (client l) tid 60 (\<lambda>t. KONG \<in> services t \<and> ''shipping-service'' \<in> services t)) (\<lambda>found.
       case found of
         None \<Rightarrow> raise (CheckFailed (''trace '' @ tid @ '' not found''))
       | Some t \<Rightarrow>
           bindA (check_root t request_id) (\<lambda>_.
           bindA (check_descent t request_id) (\<lambda>_.
           bindA (expect_that (list_all (\<lambda>s. attr (span_attrs s) ''scenario.id'' \<noteq> PStr ''spoofed-by-client'') (spans t))
                    ''client baggage reached a span'') (\<lambda>_. ret None)))))))))"

subsection \<open>Network policies of the gateway\<close>

definition kong_targets :: "(target \<times> bool) list" where
  "kong_targets =
     [(svc NS_APP ''order-service'' 8080, True), (svc NS_APP ''inventory-service'' 8080, False), (svc NS_APP ''keycloak'' 8080, False)]"

definition gateway_policies :: "'k lab \<Rightarrow> ('k world, string option) act" where
  "gateway_policies l =
     bindA (probe_all l NS_GATEWAY (Some ''kong-proxy'') (map fst kong_targets)) (\<lambda>replies.
     let wrong = concat (map (\<lambda>((t, expected), r). if r \<noteq> expected then [target_text t @ (if r then '' reachable'' else '' blocked'')] else [])
                   (zip kong_targets replies)) in
     bindA (ready_live l NS_GATEWAY ''txplatform.io/network-identity=kong-proxy'') (\<lambda>pods.
     bindA (liftE (first_item pods)) (\<lambda>admin_pod.
     bindA (probe_one l NS_GATEWAY None \<lparr>target_host = live_ip admin_pod, target_port = 8444\<rparr>) (\<lambda>open_admin.
     let mismatches = wrong @ (if open_admin then [''Kong Admin API reachable from a non-controller pod''] else []) in
     bindA (expect_that (mismatches = []) (join ''; '' mismatches)) (\<lambda>_. ret None)))))"

definition edge_suite :: "'k lab \<Rightarrow> string \<Rightarrow> 'k world suite" where
  "edge_suite l route =
     \<lparr>suite_name = ''edge'',
      suite_description = ''Gateway API routing, TLS, forwarded metadata, correlation, Kong trace root, gateway policies'',
      suite_checks =
        [(''Gateway and HTTPRoute are accepted and programmed'', gateway_status l),
         (''HTTPS on 8443 uses TLS 1.2+ with the local CA certificate'', tls_check l),
         (''only /orders is routed, and it reaches OrderService's authentication'', routing l),
         (''routes from namespaces without gateway access are rejected'', route_attachment l route),
         (''correlation ids are generated when absent and preserved when valid'', correlation_check l),
         (''Location uses the public HTTPS endpoint; spoofed forwarding headers are ignored'', forwarded_metadata l),
         (''Kong never retries order requests upstream'', kong_retries l),
         (''Kong starts every trace and ignores client trace context'', kong_trace_root l),
         (''gateway network policies limit Kong to its intended connections'', gateway_policies l)],
      suite_cleanup = Some (edge_cleanup l route)\<rparr>"

definition run_edge :: "'k lab \<Rightarrow> exn_texts \<Rightarrow> ('k world, check_outcome list) act" where
  "run_edge l t =
     bindA (call (uuid_hex (station l))) (\<lambda>uuid.
     run_suite (call (monotonic_clock (client l))) t (edge_suite l (''route-attachment-check-'' @ take 6 uuid)))"

subsection \<open>When the walk to Kong ends\<close>

text \<open>One step of the walk, which stays where it has arrived: beyond the first span or at a span of Kong.\<close>

definition arrived :: "span option \<Rightarrow> bool" where
  "arrived current \<longleftrightarrow> (case current of None \<Rightarrow> True | Some s \<Rightarrow> service s = KONG)"

definition climb_step :: "trace \<Rightarrow> span option \<Rightarrow> span option" where
  "climb_step t current = (if arrived current then current else case current of None \<Rightarrow> None | Some s \<Rightarrow> parent_of t s)"

definition climb :: "trace \<Rightarrow> nat \<Rightarrow> span option \<Rightarrow> span option" where
  "climb t n = climb_step t ^^ n"

lemma climb_simps: "climb t 0 c = c" "climb t (Suc n) c = climb t n (climb_step t c)" "climb t (m + n) c = climb t n (climb t m c)"
  by (simp_all add: climb_def funpow_Suc_right funpow_add add.commute [of m n] del: funpow.simps(2))

lemma climb_stays: "arrived c \<Longrightarrow> climb t n c = c"
  by (induction n) (simp_all add: climb_simps climb_step_def)

lemma kong_ancestor_arrives: "arrived (climb t n c) \<Longrightarrow> kong_ancestor t c = Some (climb t n c)"
proof (induction n arbitrary: c)
  case 0
  then show ?case by (subst kong_ancestor.simps) (auto simp: arrived_def climb_simps split: option.splits)
next
  case (Suc n)
  show ?case
  proof (cases "arrived c")
    case True
    then show ?thesis
      by (subst kong_ancestor.simps) (auto simp: climb_stays arrived_def split: option.splits)
  next
    case False
    then obtain s where s: "c = Some s" "service s \<noteq> KONG" by (auto simp: arrived_def split: option.splits)
    then have "climb_step t c = parent_of t s" using False by (simp add: climb_step_def)
    then show ?thesis using Suc s by (subst kong_ancestor.simps) (simp add: climb_simps)
  qed
qed

lemma kong_ancestor_SomeD:
  assumes "kong_ancestor t c = Some a"
  shows "\<exists>n. climb t n c = a \<and> arrived a"
  using assms
proof (rule kong_ancestor.raw_induct [where P = "\<lambda>t c a. \<exists>n. climb t n c = a \<and> arrived a", rotated])
  fix walk t c a
  assume IH: "\<And>t c a. walk t c = Some a \<Longrightarrow> \<exists>n. climb t n c = a \<and> arrived a"
    and body: "(case c of None \<Rightarrow> Some None | Some s \<Rightarrow> if service s = KONG then Some (Some s) else walk t (parent_of t s)) = Some a"
  show "\<exists>n. climb t n c = a \<and> arrived a"
  proof (cases "arrived c")
    case True
    then have "a = c" using body by (auto simp: arrived_def split: option.splits)
    then show ?thesis using True climb_simps(1) by blast
  next
    case False
    then obtain s where s: "c = Some s" "service s \<noteq> KONG" by (auto simp: arrived_def split: option.splits)
    then have "walk t (parent_of t s) = Some a" using body by simp
    then obtain n where "climb t n (parent_of t s) = a" "arrived a" using IH by blast
    then have "climb t (Suc n) c = a" using False s by (simp add: climb_simps climb_step_def)
    then show ?thesis using \<open>arrived a\<close> by blast
  qed
qed

text \<open>A walk that has not arrived after as many steps as there are spans has come to some span twice.\<close>

lemma climb_in_trace:
  assumes "c = parent_of t s" and "\<not> arrived (climb t n c)"
  shows "\<exists>p. climb t n c = Some p \<and> p \<in> set (spans t)"
  using assms(2)
proof (induction n)
  case 0
  then obtain p where "c = Some p" by (cases c) (auto simp: climb_simps arrived_def)
  then show ?case using assms(1) parent_of_SomeD [of t s p] by (simp add: climb_simps)
next
  case (Suc n)
  have next': "climb t (Suc n) c = climb_step t (climb t n c)" using climb_simps(3) [of t n 1 c] by (simp add: climb_simps)
  then have "\<not> arrived (climb t n c)" using Suc.prems climb_step_def by metis
  then have "climb t (Suc n) c = (case climb t n c of None \<Rightarrow> None | Some q \<Rightarrow> parent_of t q)" by (simp add: next' climb_step_def)
  then show ?case using Suc.prems by (auto simp: arrived_def dest: parent_of_SomeD split: option.splits)
qed

lemma climb_within:
  assumes c: "c = parent_of t s" and far: "\<not> arrived (climb t (length (spans t)) c)"
  shows "\<not> arrived (climb t n c)"
proof -
  let ?N = "length (spans t)"
  have still: "\<not> arrived (climb t i c)" if "i \<le> ?N" for i
    using far climb_simps(3) [of t i "?N - i" c] climb_stays [of "climb t i c" t "?N - i"] that by auto
  let ?visit = "\<lambda>i. the (climb t i c)"
  have "?visit ` {..?N} \<subseteq> set (spans t)" using climb_in_trace [OF c] still by fastforce
  then have "card (?visit ` {..?N}) \<le> card (set (spans t))" by (rule card_mono [rotated]) simp
  then have "card (?visit ` {..?N}) < card {..?N}" using card_length [of "spans t"] by simp
  then have "\<not> inj_on ?visit {..?N}" using card_image by fastforce
  then obtain i j where ij: "i < j" "j \<le> ?N" "the (climb t i c) = the (climb t j c)"
    unfolding inj_on_def by (metis atMost_iff linorder_neqE_nat)
  have same: "climb t i c = climb t j c"
    using ij climb_in_trace [OF c still [of i]] climb_in_trace [OF c still [of j]] by auto
  show ?thesis
  proof (induction n rule: less_induct)
    case (less n)
    show ?case
    proof (cases "n \<le> ?N")
      case False
      then have "climb t n c = climb t (n - j) (climb t j c)" using climb_simps(3) [of t j "n - j" c] ij(2) by simp
      also have "\<dots> = climb t (i + (n - j)) c" using climb_simps(3) [of t i "n - j" c] same by simp
      finally show ?thesis using less [of "i + (n - j)"] ij False by simp
    qed (rule still)
  qed
qed

text \<open>
  Property C32. The walk from the server span of OrderService to Kong ends exactly when it has arrived after as many
  steps as the trace has spans: at the end of the chain of parents or at a span of Kong, which is its
  result. Otherwise the parents run in a circle and the check never returns.
\<close>

theorem kong_walk_ends_iff:
  "kong_ancestor t (parent_of t s) =
     (let a = climb t (length (spans t)) (parent_of t s) in if arrived a then Some a else None)"
proof (cases "arrived (climb t (length (spans t)) (parent_of t s))")
  case True
  then show ?thesis using kong_ancestor_arrives by (simp add: Let_def)
next
  case False
  then have "kong_ancestor t (parent_of t s) = None"
    using climb_within [OF refl False] kong_ancestor_SomeD by (metis not_Some_eq)
  then show ?thesis using False by (simp add: Let_def)
qed

text \<open>Two spans of OrderService that name each other as parent, below the root of Kong.\<close>

definition circling_span :: "string \<Rightarrow> string \<Rightarrow> string \<Rightarrow> span" where
  "circling_span sid parent svc_name =
     \<lparr>span_trace_id = ''t'', span_id = sid, parent_span_id = parent, span_name = ''s'', span_kind = ''SERVER'', start_unix_nano = 0,
      end_unix_nano = 1, span_status = ''UNSET'', span_attrs = [], span_events = [], span_resource = [(''service.name'', PStr svc_name)]\<rparr>"

definition circling_trace :: trace where
  "circling_trace = \<lparr>trace_id = ''t'', spans = [circling_span ''r'' [] KONG,
     circling_span ''a'' ''b'' ''order-service'', circling_span ''b'' ''a'' ''order-service'']\<rparr>"

lemma circling_check_never_returns:
  "integrity circling_trace = Inr []"
  "check_descent circling_trace req w = (Inl KeyboardInterrupt, w)"
proof -
  show "integrity circling_trace = Inr []" by code_simp
  have "by_service circling_trace ''order-service'' (Some ''SERVER'') =
      [circling_span ''a'' ''b'' ''order-service'', circling_span ''b'' ''a'' ''order-service'']"
    by code_simp
  moreover have "\<not> arrived (climb circling_trace (length (spans circling_trace)) (parent_of circling_trace (circling_span ''a'' ''b'' ''order-service'')))"
    by code_simp
  ultimately show "check_descent circling_trace req w = (Inl KeyboardInterrupt, w)"
    by (simp add: check_descent_def bindA_apply kong_walk_ends_iff Let_def)
qed

subsection \<open>The clean-up\<close>

text \<open>
  The route the suite tries to attach is deleted last: however its checks end, even interrupted, the last
  thing a run of the suite does is to delete that route.
\<close>

theorem edge_deletes_its_route:
  "\<exists>before. trail (snd (run_suite clk t (edge_suite l route) w)) = before @ [ResourceDeleted ''HTTPRoute'' ''default'' route]"
proof -
  obtain w1 where "snd (run_suite clk t (edge_suite l route) w) = snd (clean_up_suite (edge_suite l route) w1)"
    using run_suite_ends [of clk t "edge_suite l route" w] by blast
  moreover have "snd (clean_up_suite (edge_suite l route) w1) =
      snd (deleted ''HTTPRoute'' ''default'' route (delete_custom l ''default'' ''httproutes'' route) w1)"
    by (auto simp: clean_up_suite_def edge_suite_def edge_cleanup_def excepting_def catchA_def split: prod.splits sum.splits exn.splits)
  ultimately show ?thesis by (auto simp: deleted_trail)
qed

end
