(* ===== verification/ResilienceSuite.thy ===== *)
theory ResilienceSuite
  imports Lab
begin

section \<open>The observability-resilience suite (validation/observability_resilience.py)\<close>

text \<open>
  OpenSearch is restarted, and the Collector and Query are scaled to zero one at a time. The theorem says
  that both are scaled back at the end of every run, as long as the API accepts that; the lemma after it shows
  what happens when it refuses the first of the two calls.
\<close>

definition scale_to :: "'k lab \<Rightarrow> string \<Rightarrow> int \<Rightarrow> ('k world, unit) act" where
  "scale_to l name n = effect (DeploymentScaled name n) (patch_scale (client l) Deployment name NS_OBSERVABILITY n)"

definition wait_scaled_down :: "'k lab \<Rightarrow> string \<Rightarrow> ('k world, unit) act" where
  "wait_scaled_down l name =
     wait_for (client l)
       (truth (bindA (call (list_pods (client l) NS_OBSERVABILITY (''app.kubernetes.io/name='' @ name))) (\<lambda>pods. ret (pods = []))))
       120 2"

definition order_trace_id :: "'k lab \<Rightarrow> ('k world, string) act" where
  "order_trace_id l =
     bindA (place_order l True) (\<lambda>response.
     bindA (expect_that (resp_status response = 201) (''order returned '' @ show_int (resp_status response))) (\<lambda>_.
     ret (trace_id_of response)))"

definition restore_roles :: "'k lab \<Rightarrow> ('k world, unit) act" where
  "restore_roles l =
     bindA (forA [''jaeger-collector'', ''jaeger-query''] (\<lambda>name. scale_to l name 1)) (\<lambda>_.
     forA [''jaeger-collector'', ''jaeger-query''] (\<lambda>name. wait_deployment_available (client l) NS_OBSERVABILITY name 300))"

definition shipped :: "trace \<Rightarrow> bool" where
  "shipped t \<longleftrightarrow> ''shipping-service'' \<in> services t"

definition persistence :: "'k lab \<Rightarrow> ('k world, string option) act" where
  "persistence l =
     bindA (order_trace_id l) (\<lambda>tid.
     bindA (wait_for_trace (client l) tid 60 shipped) (\<lambda>found.
       case found of
         None \<Rightarrow> raise (CheckFailed ''trace was not stored before the restart'')
       | Some old \<Rightarrow>
           bindA (call (live_pods l NS_OBSERVABILITY ''txplatform.io/network-identity=opensearch'')) (\<lambda>pods.
           bindA (liftE (first_item pods)) (\<lambda>pod.
           bindA (deleted ''Pod'' NS_OBSERVABILITY (live_name pod) (delete_pod_call (client l) (live_name pod) NS_OBSERVABILITY)) (\<lambda>_.
           bindA (wait_for (client l)
             (truth (bindA (call (read_pod l (live_name pod) NS_OBSERVABILITY)) (\<lambda>p. ret (live_uid p \<noteq> live_uid pod)))) 180 2) (\<lambda>_.
           bindA (wait_statefulset_ready (client l) NS_OBSERVABILITY ''opensearch-traces'' 600) (\<lambda>_.
           bindA (wait_for_trace (client l) tid 120 (\<lambda>_. True)) (\<lambda>after.
           bindA (expect_that (case after of None \<Rightarrow> False | Some t \<Rightarrow> length (spans t) = length (spans old))
                    ''trace lost or incomplete after the restart'') (\<lambda>_. ret None)))))))))"

definition query_without_collector :: "'k lab \<Rightarrow> ('k world, string option) act" where
  "query_without_collector l =
     bindA (order_trace_id l) (\<lambda>tid.
     bindA (wait_for_trace (client l) tid 60 shipped) (\<lambda>found.
     bindA (expect_that (found \<noteq> None) ''trace not stored'') (\<lambda>_.
     bindA (scale_to l ''jaeger-collector'' 0) (\<lambda>_.
     bindA (wait_scaled_down l ''jaeger-collector'') (\<lambda>_.
     bindA (get_trace (client l) tid) (\<lambda>served.
     bindA (place_order l False) (\<lambda>response.
     bindA (scale_to l ''jaeger-collector'' 1) (\<lambda>_.
     bindA (wait_deployment_available (client l) NS_OBSERVABILITY ''jaeger-collector'' 300) (\<lambda>_.
     bindA (expect_that (served \<noteq> None) ''Query could not serve a stored trace without the Collector'') (\<lambda>_.
     bindA (expect_that (resp_status response = 201)
              (''order failed with '' @ show_int (resp_status response) @ '' while the Collector was down'')) (\<lambda>_.
     ret (Some ''stored trace served and orders completed while the Collector was down''))))))))))))"

definition ingest_without_query :: "'k lab \<Rightarrow> ('k world, string option) act" where
  "ingest_without_query l =
     bindA (scale_to l ''jaeger-query'' 0) (\<lambda>_.
     bindA (wait_scaled_down l ''jaeger-query'') (\<lambda>_.
     bindA (order_trace_id l) (\<lambda>tid.
     bindA (scale_to l ''jaeger-query'' 1) (\<lambda>_.
     bindA (wait_deployment_available (client l) NS_OBSERVABILITY ''jaeger-query'' 300) (\<lambda>_.
     bindA (wait_for_trace (client l) tid 90 shipped) (\<lambda>found.
     bindA (expect_that (found \<noteq> None) ''trace produced while Query was down was not stored'') (\<lambda>_. ret None)))))))"

definition resilience_suite :: "'k lab \<Rightarrow> 'k world suite" where
  "resilience_suite l =
     \<lparr>suite_name = ''observability-resilience'', suite_description = ''OpenSearch persistence, Collector and Query fail independently'',
      suite_checks =
        [(''stored traces survive an OpenSearch pod restart'', persistence l),
         (''Query serves stored traces while the Collector is down'', query_without_collector l),
         (''the Collector keeps ingesting while Query is down'', ingest_without_query l)],
      suite_cleanup = Some (restore_roles l)\<rparr>"

subsection \<open>Both roles come back\<close>

definition accepts_restore :: "'k lab \<Rightarrow> bool" where
  "accepts_restore l \<longleftrightarrow> (\<forall>name k. \<exists>k'. patch_scale (client l) Deployment name NS_OBSERVABILITY 1 k = (Inr (), k'))"

lemma scale_accepted:
  assumes "accepts_restore l"
  obtains w' where "scale_to l name 1 w = (Inr (), w')" and "trail w' = trail w @ [DeploymentScaled name 1]"
proof -
  obtain k' where "patch_scale (client l) Deployment name NS_OBSERVABILITY 1 (ext w) = (Inr (), k')"
    using assms unfolding accepts_restore_def by blast
  then show thesis using that by (simp add: scale_to_def effect_def call_def)
qed

text \<open>
  Property C33. A run of the suite leaves both roles of Jaeger switched on: if the API accepts the two calls, then
  however the checks end, even interrupted while one of the roles is down, the last changes a run makes
  are to scale the Collector and Query back to one replica.
\<close>

theorem roles_are_restored:
  assumes "accepts_restore l"
  shows "\<exists>es. trail (snd (run_suite clk t (resilience_suite l) w)) =
    es @ [DeploymentScaled ''jaeger-collector'' 1, DeploymentScaled ''jaeger-query'' 1]"
proof -
  obtain w1 where "snd (run_suite clk t (resilience_suite l) w) = snd (clean_up_suite (resilience_suite l) w1)"
    using run_suite_ends [of clk t "resilience_suite l" w] by blast
  moreover have "snd (clean_up_suite (resilience_suite l) w1) = snd (restore_roles l w1)"
    by (auto simp: clean_up_suite_def resilience_suite_def excepting_def catchA_def split: prod.splits sum.splits)
  moreover obtain w2 where w2: "scale_to l ''jaeger-collector'' 1 w1 = (Inr (), w2)" "trail w2 = trail w1 @ [DeploymentScaled ''jaeger-collector'' 1]"
    using scale_accepted [OF assms] by blast
  moreover obtain w3 where w3: "scale_to l ''jaeger-query'' 1 w2 = (Inr (), w3)" "trail w3 = trail w2 @ [DeploymentScaled ''jaeger-query'' 1]"
    using scale_accepted [OF assms] by blast
  moreover have "steps (only {}) (forA [''jaeger-collector'', ''jaeger-query''] (\<lambda>name. wait_deployment_available (client l) NS_OBSERVABILITY name 300))"
    by (intro only_steps)
  then have "trail (snd (forA [''jaeger-collector'', ''jaeger-query''] (\<lambda>name. wait_deployment_available (client l) NS_OBSERVABILITY name 300) w3)) = trail w3"
    unfolding steps_def by (blast intro: only_trail)
  ultimately have "trail (snd (run_suite clk t (resilience_suite l) w)) =
      trail w1 @ [DeploymentScaled ''jaeger-collector'' 1, DeploymentScaled ''jaeger-query'' 1]"
    by (simp add: restore_roles_def bindA_Inr)
  then show ?thesis by blast
qed

text \<open>
  The other case: the clean-up stops at the first call the API refuses, and the framework only warns. After an
  interruption while Query is down, a refusal for the Collector leaves Query at zero replicas.
\<close>

lemma refused_clean_up_skips_query:
  assumes "patch_scale (client l) Deployment ''jaeger-collector'' NS_OBSERVABILITY 1 (ext w) = (Inl (ApiException n), k')"
  shows "\<exists>w'. clean_up_suite (resilience_suite l) w = (Inr (), w') \<and> trail w' = trail w @ [DeploymentScaled ''jaeger-collector'' 1]"
  using assms
  by (simp add: clean_up_suite_def resilience_suite_def restore_roles_def scale_to_def effect_def call_def excepting_def
    catchA_def bindA_apply is_exception_def)

theorem roles_are_restored_witness:
  "\<exists>es. trail (snd (run_suite (ret 0) plain_texts (resilience_suite blank_lab) (empty_world ()))) =
    es @ [DeploymentScaled ''jaeger-collector'' 1, DeploymentScaled ''jaeger-query'' 1]"
proof (rule roles_are_restored)
  show "accepts_restore blank_lab" by (simp add: accepts_restore_def blank_lab_def blank_host_def blank_api_def)
qed

end
