(* ===== verification/RecoverySuite.thy ===== *)
theory RecoverySuite
  imports Lab
begin

section \<open>The recovery suite (validation/recovery.py)\<close>

text \<open>
  The platform is deployed a second time, and the sampling buffer of the Collector is overflowed. The suite
  compares snapshots of the pods; the theorems say what equal snapshots mean and that the first check passes
  exactly if they are equal.
\<close>

definition DROPPED_TOO_EARLY :: string where
  "DROPPED_TOO_EARLY = metric_selector ''otelcol_processor_tail_sampling_sampling_trace_dropped_too_early'' []"

definition DECISION_DELAY :: real where "DECISION_DELAY = 35"

subsection \<open>Snapshots\<close>

text \<open>Probe pods and the pods of jobs come and go; what is left is named by its namespace.\<close>

definition long_running :: "live_pod \<Rightarrow> bool" where
  "long_running p \<longleftrightarrow>
     (case dict_get (live_labels p) ''txplatform.io/probe'' of None \<Rightarrow> True | Some v \<Rightarrow> v = []) \<and>
     dict_get (live_labels p) ''job-name'' = None \<and> live_phase p = ''Running''"

type_synonym pods_seen = "(string, string \<times> int) dict"

definition pod_state :: "live_pod \<Rightarrow> string \<times> int" where
  "pod_state p = (live_uid p, sum_list (map restart_count (live_statuses p)))"

definition snapshot_namespace :: "string \<Rightarrow> live_pod list \<Rightarrow> pods_seen \<Rightarrow> pods_seen" where
  "snapshot_namespace ns pods snap =
     fold (\<lambda>p. dict_put (ns @ CHR ''/'' # live_name p) (pod_state p)) (filter long_running pods) snap"

definition pod_snapshot :: "'k lab \<Rightarrow> ('k world, pods_seen) act" where
  "pod_snapshot l =
     foldA (\<lambda>snap ns. bindA (call (live_pods l ns [])) (\<lambda>pods. ret (snapshot_namespace ns pods snap))) [] PLATFORM_NAMESPACES"

definition collector_buffer_size :: "'k lab \<Rightarrow> ('k world, int) act" where
  "collector_buffer_size l =
     bindA (call (read_config_map l ''jaeger-collector-config'' NS_OBSERVABILITY)) (\<lambda>data.
     liftE (bindE (py_item (PDict data) ''config.yaml'') (\<lambda>text.
       bindE (case text of PStr s \<Rightarrow> parse_yaml (station l) s | _ \<Rightarrow> Inl TypeError) (\<lambda>config.
       bindE (py_item config ''processors'') (\<lambda>processors.
       bindE (py_item processors ''tail_sampling'') (\<lambda>sampling.
       bindE (py_item sampling ''num_traces'') py_int))))))"

subsection \<open>Deploying again\<close>

definition replaced_pods :: "pods_seen \<Rightarrow> pods_seen \<Rightarrow> string list" where
  "replaced_pods old new = sorted_set (filter (\<lambda>n. dict_get new n = None) (dict_keys old) @ filter (\<lambda>n. dict_get old n = None) (dict_keys new))"

definition restarted_pods :: "pods_seen \<Rightarrow> pods_seen \<Rightarrow> string list" where
  "restarted_pods old new = sorted_set (filter (\<lambda>n. dict_get new n \<noteq> None \<and> dict_get old n \<noteq> dict_get new n) (dict_keys old))"

definition idempotent_redeploy :: "'k lab \<Rightarrow> ('k world, string option) act" where
  "idempotent_redeploy l =
     bindA (pod_snapshot l) (\<lambda>old.
     bindA (deploy (station l) component_names) (\<lambda>_.
     bindA (pod_snapshot l) (\<lambda>new.
     bindA (expect_that (replaced_pods old new = [] \<and> restarted_pods old new = [])
              (''replaced pods: '' @ listed (replaced_pods old new) @ ''; restarted pods: '' @ listed (restarted_pods old new))) (\<lambda>_.
     ret (Some (show_nat (length new) @ '' pods unchanged after deploying '' @ show_nat (length component_names) @ '' components again''))))))"

subsection \<open>Overflowing the sampling buffer\<close>

definition collector_pods :: "pods_seen \<Rightarrow> pods_seen" where
  "collector_pods = filter (\<lambda>(name, _). sublist ''/jaeger-collector-'' name)"

definition same_dict :: "('a, 'b) dict \<Rightarrow> ('a, 'b) dict \<Rightarrow> bool" where
  "same_dict d e \<longleftrightarrow> list_all (\<lambda>k. dict_get d k = dict_get e k) (dict_keys d @ dict_keys e)"

definition sampling_buffer_overflow :: "'k lab \<Rightarrow> ('k world, string option) act" where
  "sampling_buffer_overflow l =
     bindA (collector_buffer_size l) (\<lambda>buffer_size.
     bindA (pod_snapshot l) (\<lambda>old.
     bindA (total (client l) DROPPED_TOO_EARLY) (\<lambda>dropped_before.
     bindA (mapA (\<lambda>_. synthetic l ''probe.overflow'' []) [0..<nat (buffer_size + buffer_size div 4)]) (\<lambda>overflow.
     bindA (send_synthetic l 2000 overflow) (\<lambda>_.
     bindA (call (monotonic_clock (client l))) (\<lambda>t.
     bindA (reread (polls 90 5) (call (monotonic_clock (client l))) (call (sleep_for (client l) 5)) (\<lambda>d. d = 0)
              (bindA (total (client l) DROPPED_TOO_EARLY) (\<lambda>v. ret (v - dropped_before))) (t + 90) 0) (\<lambda>dropped.
     bindA (expect_that (dropped > 0) ''no trace was reported as dropped although the buffer overflowed'') (\<lambda>_.
     bindA (pod_snapshot l) (\<lambda>new.
     bindA (expect_that (same_dict (collector_pods new) (collector_pods old)) ''the Collector was restarted or replaced'') (\<lambda>_.
     bindA (synthetic l ''probe.after-overflow'' [(''sampling.debug'', PBool True)]) (\<lambda>marker.
     bindA (send_synthetic l 200 [marker]) (\<lambda>_.
     bindA (wait_for_trace (client l) (syn_trace_id marker) (DECISION_DELAY + 60) (\<lambda>_. True)) (\<lambda>stored.
     bindA (expect_that (stored \<noteq> None) ''a trace sent after the overflow was not stored'') (\<lambda>_. ret None))))))))))))))"

definition recovery_suite :: "'k lab \<Rightarrow> 'k world suite" where
  "recovery_suite l =
     \<lparr>suite_name = ''recovery'', suite_description = ''idempotent redeployment, bounded Collector overload'',
      suite_checks =
        [(''redeploying every component replaces or restarts no healthy pod'', idempotent_redeploy l),
         (''an overflow of the Collector's sampling buffer is bounded, visible and survived'', sampling_buffer_overflow l)],
      suite_cleanup = None\<rparr>"

subsection \<open>Equal snapshots\<close>

lemma replaced_none: "replaced_pods old new = [] \<longleftrightarrow> set (dict_keys old) = set (dict_keys new)"
  by (auto simp: replaced_pods_def sorted_set_Nil_iff filter_empty_conv dict_get_None_iff)

lemma agree_iff:
  "replaced_pods old new = [] \<and> restarted_pods old new = [] \<longleftrightarrow> dict_get old = dict_get new"
proof
  assume none: "replaced_pods old new = [] \<and> restarted_pods old new = []"
  then have keys: "set (dict_keys old) = set (dict_keys new)" by (simp add: replaced_none)
  show "dict_get old = dict_get new"
  proof
    fix n
    show "dict_get old n = dict_get new n"
    proof (cases "n \<in> set (dict_keys old)")
      case True
      then have "dict_get new n \<noteq> None" using keys by (simp add: dict_get_None_iff)
      then show ?thesis using none True by (auto simp: restarted_pods_def sorted_set_Nil_iff filter_empty_conv)
    next
      case False
      then have "dict_get old n = None" "dict_get new n = None" using keys by (simp_all add: dict_get_None_iff)
      then show ?thesis by simp
    qed
  qed
next
  assume same: "dict_get old = dict_get new"
  then have "n \<in> set (dict_keys old) \<longleftrightarrow> n \<in> set (dict_keys new)" for n
    using dict_get_None_iff [of old n] dict_get_None_iff [of new n] by simp
  then show "replaced_pods old new = [] \<and> restarted_pods old new = []"
    using same by (auto simp: replaced_none restarted_pods_def sorted_set_Nil_iff filter_empty_conv)
qed

text \<open>A pod that runs for long, by its name and state. Names are unique within a namespace.\<close>

definition runs_as :: "live_pod list \<Rightarrow> string \<Rightarrow> string \<times> int \<Rightarrow> bool" where
  "runs_as pods name st \<longleftrightarrow> (\<exists>p \<in> set pods. long_running p \<and> live_name p = name \<and> pod_state p = st)"

definition named_in :: "live_pod list \<Rightarrow> string \<Rightarrow> bool" where
  "named_in pods name \<longleftrightarrow> name \<in> live_name ` set (filter long_running pods)"

definition pod_key :: "string \<Rightarrow> string \<Rightarrow> string" where "pod_key ns name = ns @ CHR ''/'' # name"

lemma fold_put_get:
  assumes "distinct (map live_name pods)"
  shows "dict_get (fold (\<lambda>p. dict_put (pod_key ns (live_name p)) (pod_state p)) pods snap) k = Some st \<longleftrightarrow>
    (\<exists>p \<in> set pods. k = pod_key ns (live_name p) \<and> st = pod_state p) \<or>
    (\<forall>p \<in> set pods. k \<noteq> pod_key ns (live_name p)) \<and> dict_get snap k = Some st"
  using assms
proof (induction pods arbitrary: snap)
  case (Cons p pods)
  then show ?case by (auto simp: dict_get_put pod_key_def split: if_splits)
qed simp

lemma pod_key_inj:
  assumes "CHR ''/'' \<notin> set ns" and "CHR ''/'' \<notin> set ns'"
  shows "pod_key ns name = pod_key ns' name' \<longleftrightarrow> ns = ns' \<and> name = name'"
proof
  assume "pod_key ns name = pod_key ns' name'"
  then have eq: "ns @ CHR ''/'' # name = ns' @ CHR ''/'' # name'" by (simp add: pod_key_def)
  have "takeWhile (\<lambda>c. c \<noteq> CHR ''/'') (ns @ CHR ''/'' # name) = ns"
    "takeWhile (\<lambda>c. c \<noteq> CHR ''/'') (ns' @ CHR ''/'' # name') = ns'"
    using assms by (auto simp: takeWhile_append)
  with eq have "ns = ns'" by metis
  with eq show "ns = ns' \<and> name = name'" by simp
qed simp

lemma snapshot_namespace_get:
  assumes "distinct (map live_name (filter long_running pods))"
  shows "dict_get (snapshot_namespace ns pods snap) k = Some st \<longleftrightarrow>
    (\<exists>name. k = pod_key ns name \<and> runs_as pods name st) \<or>
    (\<forall>name. k = pod_key ns name \<longrightarrow> \<not> named_in pods name) \<and> dict_get snap k = Some st"
proof -
  have "snapshot_namespace ns pods snap = fold (\<lambda>p. dict_put (pod_key ns (live_name p)) (pod_state p)) (filter long_running pods) snap"
    by (simp add: snapshot_namespace_def pod_key_def)
  moreover have "(\<exists>p \<in> set (filter long_running pods). k = pod_key ns (live_name p) \<and> st = pod_state p) \<longleftrightarrow>
      (\<exists>name. k = pod_key ns name \<and> runs_as pods name st)"
    unfolding runs_as_def set_filter by blast
  moreover have "(\<forall>p \<in> set (filter long_running pods). k \<noteq> pod_key ns (live_name p)) \<longleftrightarrow>
      (\<forall>name. k = pod_key ns name \<longrightarrow> \<not> named_in pods name)"
    unfolding named_in_def by blast
  ultimately show ?thesis using fold_put_get [OF assms, of ns snap k st] by simp
qed

definition snapshot_of :: "(string \<Rightarrow> live_pod list) \<Rightarrow> pods_seen" where
  "snapshot_of pods = fold (\<lambda>ns. snapshot_namespace ns (pods ns)) PLATFORM_NAMESPACES []"

definition unique_names :: "(string \<Rightarrow> live_pod list) \<Rightarrow> bool" where
  "unique_names pods \<longleftrightarrow> (\<forall>ns. distinct (map live_name (filter long_running (pods ns))))"

lemma fold_namespaces_get:
  assumes "unique_names pods" and "list_all (\<lambda>ns. CHR ''/'' \<notin> set ns) nss" and "distinct nss"
  shows "dict_get (fold (\<lambda>ns. snapshot_namespace ns (pods ns)) nss snap) k = Some st \<longleftrightarrow>
    (\<exists>ns \<in> set nss. \<exists>name. k = pod_key ns name \<and> runs_as (pods ns) name st) \<or>
    (\<forall>ns \<in> set nss. \<forall>name. k = pod_key ns name \<longrightarrow> \<not> named_in (pods ns) name) \<and> dict_get snap k = Some st"
  using assms(2,3)
proof (induction nss arbitrary: snap)
  case (Cons ns nss)
  have d: "distinct (map live_name (filter long_running (pods ns)))" using assms(1) by (simp add: unique_names_def)
  have other: "pod_key ns name \<noteq> pod_key ns' name'" if "ns' \<in> set nss" for ns' name name'
    using that Cons.prems pod_key_inj [of ns ns' name name'] by (auto simp: list_all_iff)
  let ?here = "\<exists>name. k = pod_key ns name \<and> runs_as (pods ns) name st"
  let ?free = "\<forall>name. k = pod_key ns name \<longrightarrow> \<not> named_in (pods ns) name"
  let ?later = "\<exists>ns' \<in> set nss. \<exists>name. k = pod_key ns' name \<and> runs_as (pods ns') name st"
  let ?rest = "\<forall>ns' \<in> set nss. \<forall>name. k = pod_key ns' name \<longrightarrow> \<not> named_in (pods ns') name"
  have IH: "dict_get (fold (\<lambda>ns. snapshot_namespace ns (pods ns)) nss (snapshot_namespace ns (pods ns) snap)) k = Some st \<longleftrightarrow>
      ?later \<or> ?rest \<and> (?here \<or> ?free \<and> dict_get snap k = Some st)"
    using Cons.IH [of "snapshot_namespace ns (pods ns) snap"] Cons.prems snapshot_namespace_get [OF d, of ns snap k st] by simp
  have "?here \<longrightarrow> ?rest" using other by metis
  with IH show ?case by (simp only: fold_Cons comp_apply list.set ball_simps bex_simps) blast
qed simp

lemma snapshot_of_get:
  assumes "unique_names pods" and "ns \<in> set PLATFORM_NAMESPACES"
  shows "dict_get (snapshot_of pods) (pod_key ns name) = Some st \<longleftrightarrow> runs_as (pods ns) name st"
proof -
  have plain: "list_all (\<lambda>ns. CHR ''/'' \<notin> set ns) PLATFORM_NAMESPACES" "distinct PLATFORM_NAMESPACES"
    by (simp_all add: PLATFORM_NAMESPACES_def NS_APP_def NS_GATEWAY_def NS_OBSERVABILITY_def)
  have keys: "pod_key ns name = pod_key ns' name' \<longleftrightarrow> ns = ns' \<and> name = name'" if "ns' \<in> set PLATFORM_NAMESPACES" for ns' name'
    using that plain(1) assms(2) by (intro pod_key_inj) (auto simp: list_all_iff)
  have "(\<exists>ns' \<in> set PLATFORM_NAMESPACES. \<exists>name'. pod_key ns name = pod_key ns' name' \<and> runs_as (pods ns') name' st) \<longleftrightarrow>
      runs_as (pods ns) name st"
    using keys assms(2) by (metis (no_types, lifting))
  then show ?thesis
    unfolding snapshot_of_def fold_namespaces_get [OF assms(1) plain] by simp
qed

lemma snapshot_of_other:
  assumes "unique_names pods" and "\<forall>ns \<in> set PLATFORM_NAMESPACES. \<forall>name. k \<noteq> pod_key ns name"
  shows "dict_get (snapshot_of pods) k = None"
proof -
  have plain: "list_all (\<lambda>ns. CHR ''/'' \<notin> set ns) PLATFORM_NAMESPACES" "distinct PLATFORM_NAMESPACES"
    by (simp_all add: PLATFORM_NAMESPACES_def NS_APP_def NS_GATEWAY_def NS_OBSERVABILITY_def)
  have "dict_get (snapshot_of pods) k \<noteq> Some st" for st
    unfolding snapshot_of_def fold_namespaces_get [OF assms(1) plain] dict_get_Nil using assms(2) by blast
  then show ?thesis by (metis option.exhaust)
qed

lemma same_snapshots_iff:
  assumes "unique_names pods" and "unique_names pods'"
  shows "dict_get (snapshot_of pods) = dict_get (snapshot_of pods') \<longleftrightarrow>
    list_all (\<lambda>ns. runs_as (pods ns) = runs_as (pods' ns)) PLATFORM_NAMESPACES"
proof
  assume eq: "dict_get (snapshot_of pods) = dict_get (snapshot_of pods')"
  show "list_all (\<lambda>ns. runs_as (pods ns) = runs_as (pods' ns)) PLATFORM_NAMESPACES"
    unfolding list_all_iff
  proof (intro ballI ext)
    fix ns name st
    assume "ns \<in> set PLATFORM_NAMESPACES"
    from snapshot_of_get [OF assms(1) this, of name st] snapshot_of_get [OF assms(2) this, of name st]
    show "runs_as (pods ns) name st = runs_as (pods' ns) name st" by (simp only: eq)
  qed
next
  assume same: "list_all (\<lambda>ns. runs_as (pods ns) = runs_as (pods' ns)) PLATFORM_NAMESPACES"
  show "dict_get (snapshot_of pods) = dict_get (snapshot_of pods')"
  proof
    fix k
    show "dict_get (snapshot_of pods) k = dict_get (snapshot_of pods') k"
    proof (cases "\<exists>ns \<in> set PLATFORM_NAMESPACES. \<exists>name. k = pod_key ns name")
      case True
      then obtain ns name where k: "ns \<in> set PLATFORM_NAMESPACES" "k = pod_key ns name" by blast
      have "runs_as (pods ns) = runs_as (pods' ns)" using same k(1) by (simp add: list_all_iff)
      then have "dict_get (snapshot_of pods) k = Some st \<longleftrightarrow> dict_get (snapshot_of pods') k = Some st" for st
        unfolding k(2) snapshot_of_get [OF assms(1) k(1)] snapshot_of_get [OF assms(2) k(1)] by simp
      then show ?thesis by (metis option.exhaust)
    next
      case False
      then show ?thesis using snapshot_of_other [OF assms(1)] snapshot_of_other [OF assms(2)] by simp
    qed
  qed
qed

text \<open>A cluster whose pods are listed truthfully, and listing them changes nothing.\<close>

definition lists_pods :: "'k lab \<Rightarrow> ('k \<Rightarrow> string \<Rightarrow> live_pod list) \<Rightarrow> bool" where
  "lists_pods l pods \<longleftrightarrow> (\<forall>ns k. live_pods l ns [] k = (Inr (pods k ns), k)) \<and> (\<forall>k. unique_names (pods k))"

lemma foldA_snapshots:
  assumes "lists_pods l pods"
  shows "foldA (\<lambda>snap ns. bindA (call (live_pods l ns [])) (\<lambda>ps. ret (snapshot_namespace ns ps snap))) snap nss w =
    (Inr (fold (\<lambda>ns. snapshot_namespace ns (pods (ext w) ns)) nss snap), w)"
proof (induction nss arbitrary: snap)
  case (Cons ns nss)
  have "call (live_pods l ns []) w = (Inr (pods (ext w) ns), w)" using assms by (simp add: lists_pods_def call_def)
  with Cons show ?case by (simp add: bindA_Inr)
qed simp

lemma pod_snapshot_lists: "lists_pods l pods \<Longrightarrow> pod_snapshot l w = (Inr (snapshot_of (pods (ext w))), w)"
  unfolding pod_snapshot_def snapshot_of_def by (rule foldA_snapshots)

text \<open>
  Property C30. The check of the second deployment raises what the deployment raises. If the deployment
  returns, the check passes exactly if it left every long-running pod of the platform alone: in every
  platform namespace the same names run with the same uids and the same numbers of restarts as before, and
  nothing else runs.
\<close>

theorem redeploy_passes_iff_same_pods:
  assumes "lists_pods l pods"
  shows "case deploy (station l) component_names w of
      (Inl e, w') \<Rightarrow> idempotent_redeploy l w = (Inl e, w')
    | (Inr _, w') \<Rightarrow> isl (fst (idempotent_redeploy l w)) \<noteq>
        list_all (\<lambda>ns. runs_as (pods (ext w) ns) = runs_as (pods (ext w') ns)) PLATFORM_NAMESPACES"
proof -
  have u: "unique_names (pods k)" for k using assms by (simp add: lists_pods_def)
  note snap = pod_snapshot_lists [OF assms]
  obtain r w' where d: "deploy (station l) component_names w = (r, w')" by (cases "deploy (station l) component_names w")
  let ?old = "snapshot_of (pods (ext w))" and ?new = "snapshot_of (pods (ext w'))"
  show ?thesis
  proof (cases r)
    case (Inl e)
    then show ?thesis using d snap by (simp add: idempotent_redeploy_def bindA_Inr bindA_Inl)
  next
    case (Inr x)
    have "isl (fst (idempotent_redeploy l w)) \<noteq> (replaced_pods ?old ?new = [] \<and> restarted_pods ?old ?new = [])"
      using snap d Inr by (simp add: idempotent_redeploy_def bindA_Inr expect_that_def)
    then show ?thesis unfolding agree_iff same_snapshots_iff [OF u u] using d Inr by simp
  qed
qed

text \<open>A lab with one Collector pod that was restarted twice.\<close>

definition collector_pod :: live_pod where
  "collector_pod = \<lparr>live_name = ''jaeger-collector-0'', live_uid = ''u'', live_ip = ''10.0.0.9'', live_node = ''worker'',
     live_phase = ''Running'', live_deleting = False, live_labels = [], live_conditions = [],
     live_statuses = [\<lparr>status_name = ''jaeger'', last_reason = None, restart_count = 2\<rparr>]\<rparr>"

definition collector_pods_of :: "string \<Rightarrow> live_pod list" where
  "collector_pods_of ns = (if ns = NS_OBSERVABILITY then [collector_pod] else [])"

definition collector_lab :: "unit lab" where
  "collector_lab = blank_lab\<lparr>live_pods := (\<lambda>ns _. ret (collector_pods_of ns))\<rparr>"

theorem redeploy_passes_iff_same_pods_witness:
  "case deploy (station collector_lab) component_names (empty_world ()) of
      (Inl e, w') \<Rightarrow> idempotent_redeploy collector_lab (empty_world ()) = (Inl e, w')
    | (Inr _, w') \<Rightarrow> isl (fst (idempotent_redeploy collector_lab (empty_world ()))) \<noteq>
        list_all (\<lambda>ns. runs_as (collector_pods_of ns) = runs_as (collector_pods_of ns)) PLATFORM_NAMESPACES"
proof -
  have "lists_pods collector_lab (\<lambda>_. collector_pods_of)"
    by (simp add: lists_pods_def collector_lab_def unique_names_def collector_pods_of_def)
  from redeploy_passes_iff_same_pods [OF this, of "empty_world ()"] show ?thesis .
qed

end
