(* ===== verification/SuiteLaws.thy ===== *)
theory SuiteLaws
  imports Lab
begin

section \<open>What a passing suite has done\<close>

text \<open>
  A suite all of whose checks passed has run each of them to its end, one after the other, with only readings of
  the clock in between. Besides this chain, the theory counts requests that create traffic, and takes apart a
  forwarded call that returned.
\<close>

text \<open>What every check and the clean-up preserve, a run of the suite preserves.\<close>

context step_rel
begin

lemma steps_run_check: "steps R clock \<Longrightarrow> steps R f \<Longrightarrow> steps R (run_check clock t s (name, f))"
  by (auto simp: run_check_def outcome_of_def excepting_def intro!: steps_intros split: exn.splits)

lemma steps_run_suite:
  assumes "steps R clock" and "list_all (\<lambda>(_, f). steps R f) (suite_checks s)"
    and "case suite_cleanup s of None \<Rightarrow> True | Some c \<Rightarrow> steps R c"
  shows "steps R (run_suite clock t s)"
proof -
  have "steps R (run_check clock t s c)" if "c \<in> set (suite_checks s)" for c
    using that assms(1,2) steps_run_check by (cases c) (auto simp: list_all_iff)
  then have "steps R (mapA (run_check clock t s) (suite_checks s))" by (rule steps_mapA)
  moreover have "steps R (clean_up_suite s)"
    using assms(3) by (auto simp: clean_up_suite_def excepting_def intro!: steps_intros split: option.splits)
  ultimately show ?thesis by (simp add: run_suite_def steps_finallyA)
qed

end

fun chained :: "('w, real) act \<Rightarrow> (string \<times> ('w, string option) act) list \<Rightarrow> 'w \<Rightarrow> 'w \<Rightarrow> bool" where
  "chained clock [] w w' = (w' = w)"
| "chained clock ((name, f) # cs) w w' =
     (\<exists>t w1 d w2 t' w3. clock w = (Inr t, w1) \<and> f w1 = (Inr d, w2) \<and> clock w2 = (Inr t', w3) \<and> chained clock cs w3 w')"

lemma check_passed:
  assumes "run_check clock t s (name, f) w = (Inr out, w')" and "outcome_passed out"
  shows "\<exists>t0 w1 d w2 t1. clock w = (Inr t0, w1) \<and> f w1 = (Inr d, w2) \<and> clock w2 = (Inr t1, w')"
proof -
  obtain t0 w1 where w1: "clock w = (Inr t0, w1)"
    and run: "excepting (bindA f (\<lambda>d. outcome_of clock s name t0 True (case d of None \<Rightarrow> [] | Some text \<Rightarrow> text)))
         (\<lambda>e. case e of
            CheckFailed m \<Rightarrow> outcome_of clock s name t0 False m
          | _ \<Rightarrow> bindA (liftE (describe_error t e)) (\<lambda>detail. outcome_of clock s name t0 False detail)) w1 = (Inr out, w')"
    using assms(1) unfolding run_check_def prod.case by (rule bindA_InrE)
  have failing: "\<not> outcome_passed out" if "outcome_of clock s name t0 False detail v = (Inr out, w')" for detail v
    using that unfolding outcome_of_def by (rule bindA_InrE) auto
  from run have "bindA f (\<lambda>d. outcome_of clock s name t0 True (case d of None \<Rightarrow> [] | Some text \<Rightarrow> text)) w1 = (Inr out, w')"
    unfolding excepting_def
  proof (cases rule: catchA_cases)
    case (Handler e w2)
    then have False
      using failing assms(2) by (cases e) (auto split: if_splits elim!: bindA_InrE)
    then show ?thesis ..
  qed simp
  then obtain d w2 where "f w1 = (Inr d, w2)"
    and "outcome_of clock s name t0 True (case d of None \<Rightarrow> [] | Some text \<Rightarrow> text) w2 = (Inr out, w')"
    by (rule bindA_InrE)
  moreover from this(2) obtain t1 where "clock w2 = (Inr t1, w')" unfolding outcome_of_def by (rule bindA_InrE) auto
  ultimately show ?thesis using w1 by blast
qed

lemma checks_passed:
  assumes "mapA (run_check clock t s) cs w = (Inr os, w')" and "list_all outcome_passed os"
  shows "chained clock cs w w'"
  using assms
proof (induction cs arbitrary: w os)
  case (Cons c cs)
  obtain name f where c: "c = (name, f)" by (cases c)
  obtain out w1 where one: "run_check clock t s c w = (Inr out, w1)"
    and rest: "bindA (mapA (run_check clock t s) cs) (\<lambda>ys. ret (out # ys)) w1 = (Inr os, w')"
    using Cons.prems(1) unfolding mapA.simps by (rule bindA_InrE)
  from rest obtain ys where ys: "mapA (run_check clock t s) cs w1 = (Inr ys, w')" "os = out # ys"
    by (rule bindA_InrE) auto
  have "outcome_passed out" "list_all outcome_passed ys" using Cons.prems(2) ys(2) by simp_all
  moreover have "chained clock cs w1 w'" using Cons.IH [OF ys(1)] \<open>list_all outcome_passed ys\<close> .
  moreover obtain t0 w1' d w2 t1 where "clock w = (Inr t0, w1')" "f w1' = (Inr d, w2)" "clock w2 = (Inr t1, w1)"
    using check_passed one \<open>outcome_passed out\<close> unfolding c by metis
  ultimately show ?case unfolding c by auto
qed simp

lemma suite_passed:
  assumes "run_suite clock t s w = (Inr os, w')" and "summarize os" and "suite_cleanup s = None"
  shows "chained clock (suite_checks s) w w'"
proof -
  have "mapA (run_check clock t s) (suite_checks s) w = (Inr os, w')"
    using assms(1,3) by (auto simp: run_suite_def finallyA_def clean_up_suite_def split: prod.splits)
  moreover have "list_all outcome_passed os" using assms(2) by (auto simp: summarize_def filter_empty_conv list_all_iff)
  ultimately show ?thesis by (rule checks_passed)
qed

lemma suite_with_memory_passed:
  assumes "run_with l t m s w = (Inr os, w')" and "summarize os" and "suite_cleanup s = None"
  shows "\<exists>m'. chained (inner (call (monotonic_clock (client l)))) (suite_checks s) (m, w) (m', w')"
proof -
  obtain m' where "run_suite (inner (call (monotonic_clock (client l)))) t s (m, w) = (Inr os, (m', w'))"
    using assms(1) unfolding run_with_def with_memory_def by (auto split: prod.splits)
  from suite_passed [OF this assms(2,3)] show ?thesis by blast
qed

lemma inner_InrD: "inner a (m, w) = (Inr x, (m', w')) \<Longrightarrow> m' = m \<and> a w = (Inr x, w')"
  by (simp add: inner_def split: prod.splits)

lemma call_world: "call a w = (r, w') \<Longrightarrow> trail w' = trail w \<and> (\<exists>k. a (ext w) = (r, k) \<and> ext w' = k)"
  by (auto simp: call_def split: prod.splits)

lemma chained_ConsE:
  assumes "chained (inner (call clk)) ((name, f) # cs) (m, w) s'"
  obtains w1 d m2 w2 w3 where "only {} w w1" "f (m, w1) = (Inr d, (m2, w2))" "only {} w2 w3"
    "chained (inner (call clk)) cs (m2, w3) s'"
proof -
  obtain t s1 d s2 t' s3 where s: "inner (call clk) (m, w) = (Inr t, s1)" "f s1 = (Inr d, s2)"
    "inner (call clk) s2 = (Inr t', s3)" "chained (inner (call clk)) cs s3 s'"
    using assms unfolding chained.simps by blast
  obtain w1 where w1: "s1 = (m, w1)" "call clk w = (Inr t, w1)" using s(1) inner_InrD by (cases s1) fastforce
  obtain m2 w2 where s2: "s2 = (m2, w2)" by (cases s2)
  obtain w3 where w3: "s3 = (m2, w3)" "call clk w2 = (Inr t', w3)" using s(3) inner_InrD unfolding s2 by (cases s3) fastforce
  have "only {} w w1" "only {} w2 w3" using stepsD [OF only_call w1(2)] stepsD [OF only_call w3(2)] by blast+
  then show thesis using that s(2,4) w1(1) s2 w3(1) by blast
qed

text \<open>Conversely, with a clock that stands still a suite passes if its checks can be run one after the other.\<close>

fun runs_through :: "(string \<times> ('w, string option) act) list \<Rightarrow> 'w \<Rightarrow> 'w \<Rightarrow> bool" where
  "runs_through [] w w' = (w' = w)"
| "runs_through ((name, f) # cs) w w' = (\<exists>d w1. f w = (Inr d, w1) \<and> runs_through cs w1 w')"

lemma runs_through_passes:
  assumes "\<And>w. clock w = (Inr 0, w)" and "runs_through cs w w'"
  shows "\<exists>os. mapA (run_check clock t s) cs w = (Inr os, w') \<and> list_all outcome_passed os"
  using assms(2)
proof (induction cs arbitrary: w)
  case (Cons c cs)
  obtain name f where c: "c = (name, f)" by (cases c)
  obtain d w1 where d: "f w = (Inr d, w1)" "runs_through cs w1 w'" using Cons.prems unfolding c by auto
  obtain os where os: "mapA (run_check clock t s) cs w1 = (Inr os, w')" "list_all outcome_passed os" using Cons.IH [OF d(2)] by blast
  have "\<exists>out. run_check clock t s c w = (Inr out, w1) \<and> outcome_passed out"
    using assms(1) d(1) by (simp add: c run_check_def outcome_of_def excepting_def catchA_def bindA_apply)
  with os show ?case by (auto simp: bindA_apply)
qed simp

lemma runs_through_suite:
  assumes "\<And>w. clock w = (Inr 0, w)" and "runs_through (suite_checks s) w w'" and "suite_cleanup s = None"
  shows "\<exists>os. run_suite clock t s w = (Inr os, w') \<and> summarize os"
proof -
  obtain os where os: "mapA (run_check clock t s) (suite_checks s) w = (Inr os, w')" "list_all outcome_passed os"
    using runs_through_passes [OF assms(1,2), of t s] by blast
  then have "run_suite clock t s w = (Inr os, w')" using assms(3) by (simp add: run_suite_def finallyA_def clean_up_suite_def)
  moreover have "summarize os" using os(2) by (auto simp: summarize_def filter_empty_conv list_all_iff)
  ultimately show ?thesis by blast
qed

lemma unit_world [simp]: "(w :: unit world)\<lparr>ext := ()\<rparr> = w"
  by (cases w) simp

subsection \<open>Requests that create traffic\<close>

definition traffic_count :: "'k world \<Rightarrow> nat" where
  "traffic_count w = length (filter (\<lambda>ev. \<exists>s. ev = TrafficSent s) (trail w))"

definition quiet_events :: "event set" where
  "quiet_events = {ev. \<forall>s. ev \<noteq> TrafficSent s}"

lemma traffic_quiet: "only quiet_events w w' \<Longrightarrow> traffic_count w' = traffic_count w"
proof -
  assume "only quiet_events w w'"
  then obtain new where "trail w' = trail w @ new" "set new \<subseteq> quiet_events" unfolding only_def by blast
  moreover from this have "filter (\<lambda>ev. \<exists>s. ev = TrafficSent s) new = []"
    by (auto simp: filter_empty_conv quiet_events_def)
  ultimately show ?thesis by (simp add: traffic_count_def)
qed

lemma traffic_same: "only {} w w' \<Longrightarrow> traffic_count w' = traffic_count w"
  by (auto simp: only_def traffic_count_def)

lemma tools_quiet [simp]: "ToolStarted tool args \<in> quiet_events" by (simp add: quiet_events_def)

lemma traffic_effect: "effect (TrafficSent s) m w = (r, w') \<Longrightarrow> traffic_count w' = Suc (traffic_count w)"
proof -
  assume "effect (TrafficSent s) m w = (r, w')"
  then have "trail w' = trail w @ [TrafficSent s]" using effect_keeps(4) [of "TrafficSent s" m w] by simp
  then show ?thesis by (simp add: traffic_count_def)
qed

lemma only_jaeger [only_steps]: "steps (only evs) (jaeger_get a path params)" "steps (only evs) (get_trace a tid)"
  by (auto simp: jaeger_get_def get_trace_def intro!: only_steps)

lemma only_trace_poll [only_steps]: "steps (only evs) (trace_poll n a tid until_ok deadline interval latest)"
  by (induction n arbitrary: latest) (auto intro!: only_steps split: option.splits)

lemma only_wait_for_trace [only_steps]: "steps (only evs) (wait_for_trace a tid timeout until_ok)"
  by (auto simp: wait_for_trace_def intro!: only_steps)

lemma only_total [only_steps]: "steps (only evs) (prom_query a sel)" "steps (only evs) (total a sel)"
  by (auto simp: prom_query_def total_def intro!: only_steps)

lemma forwarded_InrD:
  assumes "forwarded l ns target port body w = (Inr r, w')"
  shows "\<exists>base w1 w2. only quiet_events w w1 \<and> body base w1 = (Inr r, w2) \<and> only quiet_events w2 w'"
proof -
  let ?h = "station l" and ?args = "forward_args ns target port 0"
  obtain kubectl w1 where k: "require_tool ?h ''kubectl'' w = (Inr kubectl, w1)"
    and rest: "bindA (start_tool ?h ''kubectl'' ?args (kubectl # ?args)) (\<lambda>p. finallyA
       (bindA (call (monotonic_clock (cluster ?h))) (\<lambda>t. bindA (await_port (rounds l) ?h p (t + 30))
          (\<lambda>local. body (''127.0.0.1:'' @ show_int local))))
       (terminate_tree ?h p 10)) w1 = (Inr r, w')"
    using assms unfolding forwarded_def forward_def Let_def by (rule bindA_InrE)
  from rest obtain p w2 where s: "start_tool ?h ''kubectl'' ?args (kubectl # ?args) w1 = (Inr p, w2)"
    and f: "finallyA (bindA (call (monotonic_clock (cluster ?h))) (\<lambda>t. bindA (await_port (rounds l) ?h p (t + 30))
          (\<lambda>local. body (''127.0.0.1:'' @ show_int local)))) (terminate_tree ?h p 10) w2 = (Inr r, w')"
    by (rule bindA_InrE)
  from f obtain w5 u where b: "bindA (call (monotonic_clock (cluster ?h))) (\<lambda>t. bindA (await_port (rounds l) ?h p (t + 30))
          (\<lambda>local. body (''127.0.0.1:'' @ show_int local))) w2 = (Inr r, w5)" and e: "terminate_tree ?h p 10 w5 = (Inr u, w')"
    by (rule finallyA_cases) auto
  from b obtain t w3 where c: "call (monotonic_clock (cluster ?h)) w2 = (Inr t, w3)"
    and b2: "bindA (await_port (rounds l) ?h p (t + 30)) (\<lambda>local. body (''127.0.0.1:'' @ show_int local)) w3 = (Inr r, w5)"
    by (rule bindA_InrE)
  from b2 obtain local w4 where a: "await_port (rounds l) ?h p (t + 30) w3 = (Inr local, w4)"
    and b3: "body (''127.0.0.1:'' @ show_int local) w4 = (Inr r, w5)" by (rule bindA_InrE)
  note q = stepsD [of "only quiet_events"]
  have "only quiet_events w w1" using q [OF only_require k] .
  moreover have "only quiet_events w1 w2" using q [OF only_start [OF tools_quiet] s] .
  moreover have "only quiet_events w2 w3" using q [OF only_call c] .
  moreover have "only quiet_events w3 w4" using q [OF only_await_port a] .
  ultimately have "only quiet_events w w4" using few.step_trans by blast
  moreover have "only quiet_events w5 w'" using q [OF only_terminate e] .
  ultimately show ?thesis using b3 by blast
qed

lemma post_order_InrD: "post_order l base headers w = (r, w') \<Longrightarrow> traffic_count w' = Suc (traffic_count w)"
  unfolding post_order_def by (rule traffic_effect)

end
