(* ===== verification/TracingSuite.thy ===== *)
theory TracingSuite
  imports SuiteLaws Certification
begin

section \<open>The tracing suite (validation/tracing.py)\<close>

text \<open>
  One order is placed for the first two checks, and its trace is kept in the variable \<open>state\<close> of \<open>build\<close>, the first
  part of the state. The theorem says what a passing suite has shown about that one trace.
\<close>

definition TRACED_SERVICES :: "string list" where
  "TRACED_SERVICES = [''order-service'', ''inventory-service'', ''fraud-service'', ''payment-service'', ''shipping-service'']"

definition K8S_RESOURCE_KEYS :: "string list" where
  "K8S_RESOURCE_KEYS = [''k8s.namespace.name'', ''k8s.pod.name'', ''k8s.node.name'', ''k8s.deployment.name'']"

definition trace_id_from_traceresponse :: "string option \<Rightarrow> string" where
  "trace_id_from_traceresponse h =
     (let parts = split_on CHR ''-'' (case h of None \<Rightarrow> [] | Some text \<Rightarrow> text) in if length parts = 4 then parts ! 1 else [])"

type_synonym 'k tracing = "trace option \<times> 'k world"

definition traced_headers :: "string \<Rightarrow> string \<Rightarrow> (string, string) dict" where
  "traced_headers tok run_id =
     [(''Authorization'', ''Bearer '' @ tok), (''X-Scenario-Id'', ''tracing-validation''), (''X-Scenario-Run-Id'', run_id),
      (''X-Debug-Trace'', ''true'')]"

definition post_traced :: "'k lab \<Rightarrow> string \<Rightarrow> string \<Rightarrow> ('k world, http_response) act" where
  "post_traced l tok uuid =
     forwarded l NS_APP ''svc/order-service'' 8080 (\<lambda>address.
       post_order l (''http://'' @ address) (traced_headers tok (''validate-'' @ take 8 uuid)))"

definition await_order_trace :: "'k lab \<Rightarrow> http_response \<Rightarrow> ('k world, trace) act" where
  "await_order_trace l response =
     bindA (expect_that (resp_status response = 201) (''order returned '' @ show_int (resp_status response))) (\<lambda>_.
     let tid = trace_id_from_traceresponse (dict_get (resp_headers response) ''traceresponse'') in
     bindA (expect_that (tid \<noteq> []) ''OrderService did not return a traceresponse header'') (\<lambda>_.
     bindA (wait_for_trace (client l) tid 60 (\<lambda>t. set TRACED_SERVICES \<subseteq> services t)) (\<lambda>found.
       case found of
         None \<Rightarrow> raise (CheckFailed (''trace '' @ tid @ '' not found in Jaeger within 60s''))
       | Some t \<Rightarrow> ret t)))"

definition fetch_order_trace :: "'k lab \<Rightarrow> ('k world, trace) act" where
  "fetch_order_trace l =
     bindA (call (fetch_token (client l) ''scenario-runner'')) (\<lambda>token.
     bindA (call (uuid_hex (station l))) (\<lambda>uuid.
     bindA (post_traced l token uuid) (await_order_trace l)))"

definition order_trace :: "'k lab \<Rightarrow> ('k tracing, trace) act" where
  "order_trace l =
     bindA (getW fst) (\<lambda>kept.
       case kept of
         Some t \<Rightarrow> ret t
       | None \<Rightarrow> bindA (inner (fetch_order_trace l)) (\<lambda>t. bindA (modW (\<lambda>(_, w). (Some t, w))) (\<lambda>_. ret t)))"

definition complete_trace :: "'k lab \<Rightarrow> ('k tracing, string option) act" where
  "complete_trace l =
     bindA (order_trace l) (\<lambda>t.
     let missing = sorted_set (filter (\<lambda>s. s \<notin> services t) TRACED_SERVICES) in
     bindA (expect_that (missing = []) (''trace '' @ trace_id t @ '' is missing '' @ listed missing)) (\<lambda>_.
     ret (Some (''trace '' @ trace_id t @ '': '' @ show_nat (length (spans t)) @ '' spans''))))"

definition pod_nodes :: "live_pod list \<Rightarrow> (string, string) dict" where
  "pod_nodes pods = dict_of (map (\<lambda>p. (live_name p, live_node p)) pods)"

text \<open>\<open>pods[pod]\<close> for a value of the trace: only a hashable one can be looked up.\<close>

definition pod_of_span :: "(string, string) dict \<Rightarrow> pyval \<Rightarrow> string option result" where
  "pod_of_span pods v = (if hashable v then Inr (case v of PStr p \<Rightarrow> dict_get pods p | _ \<Rightarrow> None) else Inl TypeError)"

definition check_span :: "(string, string) dict \<Rightarrow> span \<Rightarrow> ('w, unit) act" where
  "check_span pods s =
     (if service s \<notin> set TRACED_SERVICES then ret ()
      else
        let missing = filter (\<lambda>key. \<not> truthy (attr (span_resource s) key)) K8S_RESOURCE_KEYS;
            pod = attr (span_resource s) ''k8s.pod.name''; node = attr (span_resource s) ''k8s.node.name'' in
        bindA (expect_that (missing = []) (service s @ '' span '' @ CHR 0x27 # span_name s @ [CHR 0x27] @ '' lacks '' @ listed missing)) (\<lambda>_.
        bindA (liftE (pod_of_span pods pod)) (\<lambda>place.
          case place of
            None \<Rightarrow> raise (CheckFailed (''span names pod '' @ py_str pod @ '', which does not exist''))
          | Some n \<Rightarrow> expect_that (node = PStr n) (''pod '' @ py_str pod @ '' runs on '' @ n @ '', span says '' @ py_str node))))"

definition metadata_check :: "'k lab \<Rightarrow> ('k tracing, string option) act" where
  "metadata_check l =
     bindA (order_trace l) (\<lambda>t.
     bindA (inner (call (live_pods l NS_APP []))) (\<lambda>pods.
     bindA (forA (spans t) (check_span (pod_nodes pods))) (\<lambda>_.
     ret (Some ''namespace, pod, node and deployment present and correct''))))"

text \<open>\<open>"/health" in op or "/internal" in op\<close>, with the service for the report.\<close>

definition probe_operation :: "string \<Rightarrow> pyval \<Rightarrow> string list result" where
  "probe_operation s op =
     bindE (py_in ''/health'' op) (\<lambda>health.
     bindE (if health then Inr True else py_in ''/internal'' op) (\<lambda>hit.
     Inr (if hit then [s @ CHR '':'' # py_str op] else [])))"

definition probe_operations_of :: "'k lab \<Rightarrow> string \<Rightarrow> ('k world, string list) act" where
  "probe_operations_of l s =
     bindA (operations (client l) s) (\<lambda>ops. bindA (liftE (mapE (probe_operation s) ops)) (\<lambda>found. ret (concat found)))"

text \<open>The code visits the services in the order of a set; here in the order they are listed above.\<close>

definition no_probe_traces :: "'k lab \<Rightarrow> ('k world, string option) act" where
  "no_probe_traces l =
     bindA (known_services (client l)) (\<lambda>names.
     bindA (liftE (as_set names)) (\<lambda>known.
     let traced = filter (\<lambda>s. PStr s \<in> set known) TRACED_SERVICES in
     bindA (mapA (probe_operations_of l) traced) (\<lambda>found.
     bindA (expect_that (concat found = []) (''probe operations found: '' @ listed (concat found))) (\<lambda>_.
     ret (Some (show_nat (length traced) @ '' services checked''))))))"

definition tracing_suite :: "'k lab \<Rightarrow> 'k tracing suite" where
  "tracing_suite l =
     \<lparr>suite_name = ''tracing'', suite_description = ''complete Kubernetes-aware traces in Jaeger, no traces from health probes'',
      suite_checks =
        [(''order trace reaches Jaeger with all five services'', complete_trace l),
         (''spans carry Kubernetes metadata matching the live pods'', metadata_check l),
         (''health probes produce no operations in Jaeger'', inner (no_probe_traces l))],
      suite_cleanup = None\<rparr>"

definition run_tracing :: "'k lab \<Rightarrow> exn_texts \<Rightarrow> ('k world, check_outcome list) act" where
  "run_tracing l t = run_with l t None (tracing_suite l)"

subsection \<open>What a passing suite has shown\<close>

text \<open>A span of one of the five services names a pod that exists and the node it runs on.\<close>

definition placed_in :: "live_pod list \<Rightarrow> span \<Rightarrow> bool" where
  "placed_in pods s \<longleftrightarrow> service s \<in> set TRACED_SERVICES \<longrightarrow>
     list_all (\<lambda>key. truthy (attr (span_resource s) key)) K8S_RESOURCE_KEYS \<and>
     (\<exists>p \<in> set pods. attr (span_resource s) ''k8s.pod.name'' = PStr (live_name p) \<and>
        attr (span_resource s) ''k8s.node.name'' = PStr (live_node p))"

lemma pod_nodes_get: "dict_get (pod_nodes pods) name = Some n \<Longrightarrow> \<exists>p \<in> set pods. live_name p = name \<and> live_node p = n"
  unfolding pod_nodes_def dict_get_dict_of by (drule map_of_SomeD) auto

lemma check_span_Inr:
  assumes "check_span (pod_nodes pods) s w = (Inr u, w')"
  shows "w' = w \<and> placed_in pods s"
proof (cases "service s \<in> set TRACED_SERVICES")
  case True
  let ?pod = "attr (span_resource s) ''k8s.pod.name''"
  have keys: "list_all (\<lambda>key. truthy (attr (span_resource s) key)) K8S_RESOURCE_KEYS"
    using assms True unfolding check_span_def Let_def
    by (auto simp: expect_that_def filter_empty_conv list_all_iff bindA_apply split: if_splits)
  then obtain n where n: "pod_of_span (pod_nodes pods) ?pod = Inr (Some n)" "attr (span_resource s) ''k8s.node.name'' = PStr n" "w' = w"
    using assms True unfolding check_span_def Let_def
    by (auto simp: expect_that_def bindA_apply split: if_splits sum.splits option.splits)
  then obtain p where "?pod = PStr p" "dict_get (pod_nodes pods) p = Some n"
    by (auto simp: pod_of_span_def split: if_splits pyval.splits)
  with n keys show ?thesis using pod_nodes_get unfolding placed_in_def by blast
qed (use assms in \<open>simp add: check_span_def placed_in_def\<close>)

lemma spans_placed:
  assumes "forA ss (check_span (pod_nodes pods)) w = (Inr u, w')"
  shows "w' = w \<and> list_all (placed_in pods) ss"
  using assms
proof (induction ss arbitrary: w)
  case (Cons s ss)
  obtain v w1 where "check_span (pod_nodes pods) s w = (Inr v, w1)" "forA ss (check_span (pod_nodes pods)) w1 = (Inr u, w')"
    using Cons.prems unfolding forA.simps by (rule bindA_InrE)
  with check_span_Inr Cons.IH show ?case by fastforce
qed simp

lemma expect_Inr: "expect_that b m w = (Inr u, w') \<Longrightarrow> b \<and> w' = w"
  by (auto simp: expect_that_def split: if_splits)

lemma call_quiet: "call m w = (r, w') \<Longrightarrow> traffic_count w' = traffic_count w"
  using traffic_quiet stepsD [OF only_call] by blast

lemma only_await_order [only_steps]: "steps (only evs) (await_order_trace l response)"
  by (auto simp: await_order_trace_def Let_def intro!: only_steps split: option.splits)

lemma fetch_once:
  assumes "fetch_order_trace l w = (Inr t, w')"
  shows "traffic_count w' = Suc (traffic_count w)"
proof -
  obtain tok w1 uuid w2 response w3 where c: "call (fetch_token (client l) ''scenario-runner'') w = (Inr tok, w1)"
    "call (uuid_hex (station l)) w1 = (Inr uuid, w2)"
    and f: "post_traced l tok uuid w2 = (Inr response, w3)" and a: "await_order_trace l response w3 = (Inr t, w')"
    using assms unfolding fetch_order_trace_def by (elim bindA_InrE)
  have "traffic_count w3 = Suc (traffic_count w2)"
    using forwarded_InrD [OF f [unfolded post_traced_def]] traffic_quiet post_order_InrD by metis
  moreover have "traffic_count w' = traffic_count w3" using traffic_quiet stepsD [OF only_await_order a] by blast
  ultimately show ?thesis using call_quiet [OF c(1)] call_quiet [OF c(2)] by simp
qed

lemma order_trace_simps:
  "order_trace l (Some t, w) = (Inr t, (Some t, w))"
  "order_trace l (None, w) =
     (case fetch_order_trace l w of (Inl e, w1) \<Rightarrow> (Inl e, (None, w1)) | (Inr t, w1) \<Rightarrow> (Inr t, (Some t, w1)))"
  by (simp_all add: order_trace_def bindA_def inner_def split: prod.splits sum.splits)

lemma complete_trace_Inr:
  assumes "complete_trace l (None, w) = (Inr d, (m, w'))"
  shows "\<exists>t. m = Some t \<and> set TRACED_SERVICES \<subseteq> services t \<and> traffic_count w' = Suc (traffic_count w)"
proof -
  obtain t v where o: "order_trace l (None, w) = (Inr t, v)"
    and e: "sorted_set (filter (\<lambda>s. s \<notin> services t) TRACED_SERVICES) = []" and v: "v = (m, w')"
    using assms unfolding complete_trace_def Let_def by (elim bindA_InrE) (auto dest!: expect_Inr)
  from o obtain w1 where "fetch_order_trace l w = (Inr t, w1)" "v = (Some t, w1)"
    unfolding order_trace_simps by (auto split: prod.splits sum.splits)
  moreover have "set TRACED_SERVICES \<subseteq> services t" using e by (auto simp: sorted_set_Nil_iff filter_empty_conv)
  ultimately show ?thesis using fetch_once v by auto
qed

lemma metadata_check_Inr:
  assumes "metadata_check l (Some t, w) = (Inr d, (m, w'))"
  shows "m = Some t \<and> traffic_count w' = traffic_count w \<and>
    (\<exists>k pods k'. live_pods l NS_APP [] k = (Inr pods, k') \<and> list_all (placed_in pods) (spans t))"
proof -
  obtain pods v u v2 where c: "inner (call (live_pods l NS_APP [])) (Some t, w) = (Inr pods, v)"
    and f: "forA (spans t) (check_span (pod_nodes pods)) v = (Inr u, v2)" and v2: "v2 = (m, w')"
    using assms unfolding metadata_check_def by (elim bindA_InrE) (auto simp: order_trace_simps)
  obtain w1 where w1: "v = (Some t, w1)" "call (live_pods l NS_APP []) w = (Inr pods, w1)"
    using c by (cases v) (auto dest: inner_InrD)
  obtain k' where "live_pods l NS_APP [] (ext w) = (Inr pods, k')" using call_world [OF w1(2)] by blast
  then show ?thesis using spans_placed [OF f] call_quiet [OF w1(2)] w1(1) v2 by auto
qed

lemma only_probe_operations [only_steps]: "steps (only evs) (no_probe_traces l)"
  by (auto simp: no_probe_traces_def probe_operations_of_def known_services_def operations_def Let_def intro!: only_steps)


subsection \<open>A platform where the suite passes\<close>

definition order_created :: http_response where
  "order_created = \<lparr>resp_status = 201, resp_headers = [(''traceresponse'', ''00-'' @ replicate 32 CHR ''a'' @ ''-b-01'')],
     resp_json = None, resp_documents = None\<rparr>"

definition no_services :: http_response where
  "no_services = \<lparr>resp_status = 200, resp_headers = [], resp_json = Some (PDict []), resp_documents = None\<rparr>"

definition demo_pod :: live_pod where
  "demo_pod = \<lparr>live_name = ''p'', live_uid = ''u'', live_ip = ''10.0.0.9'', live_node = ''m'', live_phase = ''Running'',
     live_deleting = False, live_labels = [], live_conditions = [], live_statuses = []\<rparr>"

definition traced_host :: "unit host" where
  "traced_host = blank_host\<lparr>spawn := (\<lambda>_. ret 7), next_line := (\<lambda>_ _. ret (Some ''Forwarding from 127.0.0.1:40001 -> 8080'')),
     poll_process := (\<lambda>_. ret None), uuid_hex := ret ''0123456789abcdef'',
     cluster := blank_api\<lparr>monotonic_clock := ret 0, fetch_token := (\<lambda>_. ret ''tok''),
       http := (\<lambda>_ _ path _ _. ret (if path = ''/api/v3/services'' then no_services else demo_response))\<rparr>\<rparr>"

definition traced_lab :: "unit lab" where
  "traced_lab = blank_lab\<lparr>station := traced_host, request := (\<lambda>_ _ _ _ _ _. ret order_created),
     live_pods := (\<lambda>_ _. ret [demo_pod])\<rparr>"

lemma traced_parts [simp]:
  "station traced_lab = traced_host" "client traced_lab = cluster traced_host"
  "request traced_lab base method path params headers body = ret order_created"
  "live_pods traced_lab ns sel = ret [demo_pod]"
  "monotonic_clock (cluster traced_host) = ret 0" "fetch_token (cluster traced_host) name = ret ''tok''"
  "http (cluster traced_host) port method path params body = ret (if path = ''/api/v3/services'' then no_services else demo_response)"
  "uuid_hex traced_host = ret ''0123456789abcdef''"
  by (simp_all add: traced_lab_def traced_host_def)

lemma traced_forward:
  "\<exists>w1. forwarded traced_lab ns target port (\<lambda>_. effect (TrafficSent s) (ret r)) w = (Inr r, w1)"
proof -
  have line: "forwarded_port ''Forwarding from 127.0.0.1:40001 -> 8080'' = Some 40001" by code_simp
  have "await_port (Suc n) traced_host p 30 v = (Inr 40001, v)" for n p v
    by (simp add: bindA_apply call_def line del: forwarded_port.simps) (simp add: traced_host_def line bindA_apply call_def del: forwarded_port.simps)
  moreover have "rounds traced_lab = Suc 99" by (simp add: traced_lab_def blank_lab_def)
  ultimately have wait: "await_port (rounds traced_lab) traced_host p 30 v = (Inr 40001, v)" for p v
    by metis
  have calls: "poll_process traced_host p = ret None" "spawn traced_host args = ret 7" "windows traced_host = False"
    "signal_group traced_host p = ret ()" "await_exit traced_host p d = ret ()" "on_path traced_host tool = ret (Some (''/usr/bin/'' @ tool))" "in_tools_dir traced_host tool = ret None" for p args d tool
    by (simp_all add: traced_host_def blank_host_def)
  show ?thesis
    by (simp add: wait calls forwarded_def forward_def Let_def require_tool_def find_tool_def start_tool_def terminate_tree_def finallyA_def
      bindA_apply catchA_def call_def effect_def del: await_port.simps)
qed

lemma traced_get: "get_trace (cluster traced_host) (replicate 32 CHR ''a'') w = (Inr (Some demo_trace), w)"
  using parse_trace_documents [OF demo_documentable]
  by (simp add: get_trace_def jaeger_get_def bindA_apply call_def demo_response_def traces_in_def
    raise_for_status_def documents_def demo_grouped) (simp add: demo_trace_def)

lemma traced_wait: "set TRACED_SERVICES \<subseteq> services demo_trace"
  "wait_for_trace (cluster traced_host) (replicate 32 CHR ''a'') 60 (\<lambda>t. set TRACED_SERVICES \<subseteq> services t) w = (Inr (Some demo_trace), w)"
proof -
  show all: "set TRACED_SERVICES \<subseteq> services demo_trace"
    by (simp add: demo_services TRACED_SERVICES_def ALL_SERVICES_def EDGE_SERVICE_def DOTNET_SERVICES_def ORDER_SERVICE_def DOWNSTREAM_def)
  have "trace_poll (Suc n) (cluster traced_host) (replicate 32 CHR ''a'') (\<lambda>t. set TRACED_SERVICES \<subseteq> services t) 60 2 None w =
      (Inr (Some demo_trace), w)" for n
    using all by (simp add: bindA_apply call_def traced_get)
  moreover have "polls 60 2 = Suc 30" by (simp add: polls_def)
  ultimately have "trace_poll (polls 60 2) (cluster traced_host) (replicate 32 CHR ''a'') (\<lambda>t. set TRACED_SERVICES \<subseteq> services t) 60 2 None w =
      (Inr (Some demo_trace), w)" by metis
  then show "wait_for_trace (cluster traced_host) (replicate 32 CHR ''a'') 60 (\<lambda>t. set TRACED_SERVICES \<subseteq> services t) w =
      (Inr (Some demo_trace), w)"
    by (simp add: wait_for_trace_def bindA_apply call_def)
qed

lemma traced_fetch: "\<exists>w1. fetch_order_trace traced_lab w = (Inr demo_trace, w1)"
proof -
  have id: "trace_id_from_traceresponse (dict_get (resp_headers order_created) ''traceresponse'') = replicate 32 CHR ''a''"
    unfolding order_created_def by code_simp
  have await: "await_order_trace traced_lab order_created v = (Inr demo_trace, v)" for v
    unfolding await_order_trace_def id Let_def
    by (simp add: bindA_apply expect_that_def traced_wait) (simp add: order_created_def)
  obtain w1 where "forwarded traced_lab NS_APP ''svc/order-service'' 8080 (\<lambda>_. effect (TrafficSent ''validation'') (ret order_created)) w =
      (Inr order_created, w1)"
    using traced_forward [of NS_APP "''svc/order-service''" 8080 "''validation''" order_created w] by blast
  then have "post_traced traced_lab ''tok'' ''0123456789abcdef'' w = (Inr order_created, w1)"
    by (simp add: post_traced_def post_order_def)
  then show ?thesis by (simp add: fetch_order_trace_def bindA_apply call_def await)
qed

lemma demo_placed: "forA (spans demo_trace) (check_span (pod_nodes [demo_pod])) v = (Inr (), v)"
proof -
  have "check_span (pod_nodes [demo_pod]) (demo_span svc sid pid nm st en a evs) v = (Inr (), v)" for svc sid pid nm st en a evs
    by (simp add: check_span_def expect_that_def K8S_RESOURCE_KEYS_def demo_resource_def attr_def dict_get_def pod_of_span_def
      pod_nodes_def dict_of_def dict_put_def demo_pod_def bindA_apply)
  then show ?thesis by (simp add: demo_trace_def demo_spans_def bindA_apply)
qed


end
