(* ===== verification/TelemetrySuite.thy ===== *)
theory TelemetrySuite
  imports SuiteLaws Stats
begin

section \<open>The telemetry-pipeline suite (validation/telemetry_pipeline.py)\<close>

text \<open>
  Synthetic spans are sent once, and ten checks look at what became of them. What the checks share (the spans, the
  real trace, the counters before, the time of sending) are the variables of \<open>build\<close>, a record in the first part of
  the state. The theorems say that this record has the entries every check reads as soon as anything was
  sent, that it is never changed after that, and that no check looks before the decision window is over.
\<close>

definition DECISION_WINDOW :: real where "DECISION_WINDOW = 35"
definition BASELINE_TRACES :: int where "BASELINE_TRACES = 400"
definition BASELINE_PROBABILITY :: real where "BASELINE_PROBABILITY = 1 / 4"

definition FORBIDDEN_METRIC_LABELS :: "string list" where
  "FORBIDDEN_METRIC_LABELS =
     [''order_id'', ''scenario_id'', ''scenario_run_id'', ''correlation_id'', ''kong_request_id'', ''trace_id'', ''span_id'',
      ''exported_instance'', ''service_instance_id'', ''k8s_pod_name'', ''collector_instance_id'']"

definition CLIENT_ADDRESS_KEYS :: "string list" where
  "CLIENT_ADDRESS_KEYS = [''http.client_ip'', ''net.peer.ip'', ''client.address'', ''network.peer.address'']"

definition COUNTERS :: "(string, string) dict" where
  "COUNTERS =
     [(''baseline_calls'', metric_selector ''traces_span_metrics_calls'' [(''service_name'', PROBE_SERVICE), (''span_name'', ''probe.baseline'')]),
      (''health_calls'', metric_selector ''traces_span_metrics_calls'' [(''service_name'', PROBE_SERVICE), (''span_name'', ''GET /health/ready'')]),
      (''kong_401'', metric_selector ''traces_span_metrics_calls'' [(''service_name'', ''kong-gateway''), (''http_response_status_code'', ''401'')]),
      (''dropped_too_early'', metric_selector ''otelcol_processor_tail_sampling_sampling_trace_dropped_too_early'' []),
      (''refused'', metric_selector ''otelcol_receiver_refused_spans'' []),
      (''export_failed'', metric_selector ''otelcol_exporter_send_failed_spans'' []),
      (''errors_policy_sampled'', metric_selector ''otelcol_processor_tail_sampling_count_traces_sampled''
         [(''policy'', ''errors''), (''sampled'', ''true'')])]"

subsection \<open>Addresses in clear text\<close>

text \<open>\<open>ipaddress.IPv4Address\<close>: four decimal octets without leading zeros.\<close>

definition octet :: "string \<Rightarrow> bool" where
  "octet s \<longleftrightarrow> s \<noteq> [] \<and> list_all is_digit s \<and> length s \<le> 3 \<and> (hd s \<noteq> CHR ''0'' \<or> length s = 1) \<and>
     (case digits_value False 0 s of None \<Rightarrow> False | Some v \<Rightarrow> v \<le> 255)"

definition looks_like_ipv4 :: "string \<Rightarrow> bool" where
  "looks_like_ipv4 s \<longleftrightarrow> length (split_on CHR ''.'' s) = 4 \<and> list_all octet (split_on CHR ''.'' s)"

text \<open>
  \<open>ipaddress.IPv6Address\<close>: up to eight groups of hexadecimal digits, one run of which may be left out, the last
  two of which may be written as an IPv4 address, and a scope after a percent sign.
\<close>

definition hextet :: "string \<Rightarrow> bool" where
  "hextet s \<longleftrightarrow> s \<noteq> [] \<and> length s \<le> 4 \<and> list_all (\<lambda>c. c \<in> set ''0123456789abcdefABCDEF'') s"

definition scoped :: "string \<Rightarrow> string option" where
  "scoped s =
     (case split_on CHR ''%'' s of
        [addr] \<Rightarrow> Some addr
      | [addr, zone] \<Rightarrow> if zone = [] then None else Some addr
      | _ \<Rightarrow> None)"

definition with_last_ipv4 :: "string list \<Rightarrow> string list option" where
  "with_last_ipv4 parts =
     (if CHR ''.'' \<in> set (last parts)
      then (if looks_like_ipv4 (last parts) then Some (butlast parts @ [''0'', ''0'']) else None)
      else Some parts)"

text \<open>The positions of empty parts that are neither the first nor the last: there may be one.\<close>

definition gaps :: "string list \<Rightarrow> nat list" where
  "gaps parts = filter (\<lambda>i. parts ! i = []) [1..<length parts - 1]"

definition ipv6_groups :: "string list \<Rightarrow> bool" where
  "ipv6_groups parts \<longleftrightarrow>
     (case gaps parts of
        [] \<Rightarrow> length parts = 8 \<and> list_all hextet parts
      | [i] \<Rightarrow>
          (let before_gap = take i parts; after_gap = drop (i + 1) parts;
               hi = (if hd parts = [] then tl before_gap else before_gap);
               lo = (if last parts = [] then butlast after_gap else after_gap) in
           (hd parts = [] \<longrightarrow> hi = []) \<and> (last parts = [] \<longrightarrow> lo = []) \<and>
           length hi + length lo < 8 \<and> list_all hextet (hi @ lo))
      | _ \<Rightarrow> False)"

definition looks_like_ipv6 :: "string \<Rightarrow> bool" where
  "looks_like_ipv6 s \<longleftrightarrow> CHR ''/'' \<notin> set s \<and>
     (case scoped s of
        None \<Rightarrow> False
      | Some addr \<Rightarrow>
          addr \<noteq> [] \<and> 3 \<le> length (split_on CHR '':'' addr) \<and>
          (case with_last_ipv4 (split_on CHR '':'' addr) of
             None \<Rightarrow> False
           | Some parts \<Rightarrow> length parts \<le> 9 \<and> ipv6_groups parts))"

definition looks_like_ip :: "pyval \<Rightarrow> bool" where
  "looks_like_ip v \<longleftrightarrow> looks_like_ipv4 (py_str v) \<or> looks_like_ipv6 (py_str v)"

subsection \<open>Sending once\<close>

record probe_memory =
  sent_groups :: "(string, synthetic_span list) dict"
  real_ids :: "(string, string) dict"
  counted_before :: "(string, real) dict"
  sent_at :: "real list"

definition nothing_sent :: probe_memory where
  "nothing_sent = \<lparr>sent_groups = [], real_ids = [], counted_before = [], sent_at = []\<rparr>"

type_synonym 'k pipeline = "probe_memory \<times> 'k world"

definition remember :: "(probe_memory \<Rightarrow> probe_memory) \<Rightarrow> ('k pipeline, unit) act" where
  "remember f = modW (\<lambda>(m, w). (f m, w))"

definition recalled :: "(probe_memory \<Rightarrow> 'a result) \<Rightarrow> ('k pipeline, 'a) act" where
  "recalled f = (\<lambda>(m, w). (f m, (m, w)))"

text \<open>\<open>otlp.SyntheticSpan(...)\<close> n times with other arguments, and a child of another span.\<close>

definition several :: "'k lab \<Rightarrow> nat \<Rightarrow> string \<Rightarrow> attrs \<Rightarrow> (synthetic_span \<Rightarrow> synthetic_span) \<Rightarrow> ('k world, synthetic_span list) act" where
  "several l n name attrs0 f = mapA (\<lambda>_. bindA (synthetic l name attrs0) (\<lambda>s. ret (f s))) [0..<n]"

definition child_span :: "'k lab \<Rightarrow> string \<Rightarrow> attrs \<Rightarrow> synthetic_span \<Rightarrow> ('k world, synthetic_span) act" where
  "child_span l name attrs0 parent =
     bindA (call (token_hex l 8)) (\<lambda>sid.
     ret \<lparr>syn_name = name, syn_trace_id = syn_trace_id parent, syn_span_id = sid, syn_parent = syn_span_id parent,
          syn_duration_ms = 20, syn_error = False, syn_attributes = attrs0, syn_service = PROBE_SERVICE, syn_kind = 2, syn_end = 0\<rparr>)"

definition health_pair :: "'k lab \<Rightarrow> ('k world, synthetic_span list) act" where
  "health_pair l =
     bindA (synthetic l ''probe.parent'' [(''sampling.debug'', PBool True)]) (\<lambda>parent.
     bindA (child_span l ''GET /health/live'' [(''url.path'', PStr ''/health/live'')] parent) (\<lambda>c.
     ret [parent, c\<lparr>syn_kind := 3\<rparr>]))"

definition sensitive_attributes :: "string \<Rightarrow> attrs" where
  "sensitive_attributes rid =
     [(''sampling.debug'', PBool True), (''http.request.header.authorization'', PStr (''Bearer canary-auth-'' @ rid)),
      (''user.password'', PStr (''canary-password-'' @ rid)), (''payment.card_number'', PStr ''4111111111111111''),
      (''http.url'', PStr (''https://shop.test/orders?access_token=canary-url-'' @ rid)), (''order.id'', PStr (''order-'' @ rid))]"

definition probe_groups :: "'k lab \<Rightarrow> string \<Rightarrow> (string \<times> ('k world, synthetic_span list) act) list" where
  "probe_groups l rid =
     [(''errors'', several l 5 ''probe.error'' [] (\<lambda>s. s\<lparr>syn_error := True\<rparr>)),
      (''slow'', several l 5 ''probe.slow'' [] (\<lambda>s. s\<lparr>syn_duration_ms := 1500\<rparr>)),
      (''debug'', several l 5 ''probe.debug'' [(''sampling.debug'', PBool True)] id),
      (''baseline'', several l (nat BASELINE_TRACES) ''probe.baseline'' [] id),
      (''health_root'', several l 1 ''GET /health/ready'' [(''url.path'', PStr ''/health/ready''), (''sampling.debug'', PBool True)] id),
      (''health_child'', health_pair l),
      (''sensitive'', several l 1 ''probe.sensitive'' (sensitive_attributes rid) id),
      (''late'', several l 1 ''probe.late'' [(''sampling.debug'', PBool True)] id)]"

definition read_counters :: "'k lab \<Rightarrow> ('k world, (string \<times> real) list) act" where
  "read_counters l = mapA (\<lambda>(key, sel). bindA (total (client l) sel) (\<lambda>v. ret (key, v))) COUNTERS"

definition make_group :: "string \<times> ('k world, synthetic_span list) act \<Rightarrow> ('k pipeline, unit) act" where
  "make_group = (\<lambda>(grp, build_it).
     bindA (inner build_it) (\<lambda>ss. remember (\<lambda>m. m\<lparr>sent_groups := dict_put grp ss (sent_groups m)\<rparr>)))"

definition send_everything :: "'k lab \<Rightarrow> string \<Rightarrow> ('k pipeline, real) act" where
  "send_everything l rid =
     bindA (inner (read_counters l)) (\<lambda>vs.
     bindA (remember (\<lambda>m. m\<lparr>counted_before := fold (\<lambda>(k, v). dict_put k v) vs (counted_before m)\<rparr>)) (\<lambda>_.
     bindA (forA (probe_groups l rid) make_group) (\<lambda>_.
     bindA (recalled (\<lambda>m. Inr (concat (map snd (sent_groups m))))) (\<lambda>ss.
     bindA (inner (send_synthetic l 200 ss)) (\<lambda>_.
     bindA (inner (place_order l True)) (\<lambda>response.
     bindA (remember (\<lambda>m. m\<lparr>real_ids := dict_put ''trace_id'' (trace_id_of response) (real_ids m)\<rparr>)) (\<lambda>_.
     bindA (inner (post_order l GATEWAY_URL [])) (\<lambda>_.
     inner (call (monotonic_clock (client l)))))))))))"

definition prepare :: "'k lab \<Rightarrow> string \<Rightarrow> ('k pipeline, unit) act" where
  "prepare l rid =
     bindA (recalled (\<lambda>m. Inr (sent_at m))) (\<lambda>times.
     if times \<noteq> [] then ret ()
     else bindA (send_everything l rid) (\<lambda>t. remember (\<lambda>m. m\<lparr>sent_at := sent_at m @ [t]\<rparr>)))"

definition after_decision :: "'k lab \<Rightarrow> string \<Rightarrow> ('k pipeline, unit) act" where
  "after_decision l rid =
     bindA (prepare l rid) (\<lambda>_.
     bindA (recalled (\<lambda>m. first_item (sent_at m))) (\<lambda>sent.
     bindA (inner (call (monotonic_clock (client l)))) (\<lambda>t.
     let remaining = sent + DECISION_WINDOW - t in
     if remaining > 0 then inner (call (sleep_for (client l) remaining)) else ret ())))"

subsection \<open>Reading what was sent\<close>

definition found_in :: "('a, 'b) dict \<Rightarrow> 'a \<Rightarrow> string \<Rightarrow> 'b result" where
  "found_in d k name = (case dict_get d k of None \<Rightarrow> Inl (KeyError name) | Some v \<Rightarrow> Inr v)"

definition group_of :: "string \<Rightarrow> ('k pipeline, synthetic_span list) act" where
  "group_of grp = recalled (\<lambda>m. found_in (sent_groups m) grp grp)"

definition first_of :: "string \<Rightarrow> ('k pipeline, synthetic_span) act" where
  "first_of grp = bindA (group_of grp) (\<lambda>ss. liftE (first_item ss))"

definition delta :: "'k lab \<Rightarrow> string \<Rightarrow> ('k pipeline, real) act" where
  "delta l key =
     bindA (liftE (found_in COUNTERS key key)) (\<lambda>sel.
     bindA (inner (total (client l) sel)) (\<lambda>v.
     bindA (recalled (\<lambda>m. found_in (counted_before m) key key)) (\<lambda>old. ret (v - old))))"

definition wait_for_delta :: "'k lab \<Rightarrow> string \<Rightarrow> real \<Rightarrow> real \<Rightarrow> ('k pipeline, real) act" where
  "wait_for_delta l key expected timeout =
     bindA (inner (call (monotonic_clock (client l)))) (\<lambda>t.
     bindA (delta l key) (\<lambda>v.
     reread (polls timeout 5) (inner (call (monotonic_clock (client l)))) (inner (call (sleep_for (client l) 5)))
       (\<lambda>v. v < expected) (delta l key) (t + timeout) v))"

definition stored :: "'k lab \<Rightarrow> string \<Rightarrow> ('k pipeline, bool list) act" where
  "stored l grp =
     bindA (group_of grp) (\<lambda>ss.
     mapA (\<lambda>s. bindA (inner (get_trace (client l) (syn_trace_id s))) (\<lambda>t. ret (t \<noteq> None))) ss)"

subsection \<open>The checks\<close>

definition show_counts :: "(string \<times> nat) list \<Rightarrow> string" where
  "show_counts counts =
     ''{'' @ join '', '' (map (\<lambda>(g, n). CHR 0x27 # g @ CHR 0x27 # '': '' @ show_nat n) counts) @ ''}''"

definition policy_retention :: "'k lab \<Rightarrow> ('k pipeline, string option) act" where
  "policy_retention l =
     bindA (mapA (\<lambda>g. bindA (stored l g) (\<lambda>kept. ret (g, kept))) [''errors'', ''slow'', ''debug'']) (\<lambda>results.
     let missing = map (\<lambda>(g, kept). (g, count_list kept False)) (filter (\<lambda>(_, kept). \<not> list_all id kept) results) in
     bindA (expect_that (missing = []) (''traces dropped despite their policy: '' @ show_counts missing)) (\<lambda>_.
     ret (Some ''5/5 error, 5/5 slow, 5/5 debug traces stored'')))"

definition baseline_rate :: "'k lab \<Rightarrow> ('k pipeline, string option) act" where
  "baseline_rate l =
     bindA (stored l ''baseline'') (\<lambda>flags.
     let kept = int (count_list flags True) in
     bindA (liftE (binomial_band BASELINE_TRACES BASELINE_PROBABILITY (9 / 2))) (\<lambda>b.
     bindA (expect_that (contains b kept)
              (show_int kept @ '' of 400 kept; expected '' @ show_int (low b) @ CHR ''-'' # show_int (high b))) (\<lambda>_.
     ret None)))"

definition unsampled_metrics :: "'k lab \<Rightarrow> ('k pipeline, string option) act" where
  "unsampled_metrics l =
     bindA (wait_for_delta l ''baseline_calls'' (of_int BASELINE_TRACES) 90) (\<lambda>counted.
     bindA (expect_that (counted = of_int BASELINE_TRACES) ''span metrics counted another number of calls'') (\<lambda>_. ret None))"

definition late_spans :: "'k lab \<Rightarrow> ('k pipeline, string option) act" where
  "late_spans l =
     bindA (first_of ''late'') (\<lambda>root.
     bindA (inner (child_span l ''probe.late.child'' [] root)) (\<lambda>late_child.
     bindA (inner (send_synthetic l 200 [late_child])) (\<lambda>_.
     bindA (inner (wait_for_trace (client l) (syn_trace_id root) 45 (\<lambda>t. length (spans t) = 2))) (\<lambda>found.
     bindA (expect_that (case found of None \<Rightarrow> False | Some t \<Rightarrow> length (spans t) = 2)
              ''the late child span was not stored with its kept trace'') (\<lambda>_.
     ret (Some ''late child stored next to its root''))))))"

definition safe_filtering :: "'k lab \<Rightarrow> ('k pipeline, string option) act" where
  "safe_filtering l =
     bindA (first_of ''health_root'') (\<lambda>root.
     bindA (inner (get_trace (client l) (syn_trace_id root))) (\<lambda>health_root.
     bindA (first_of ''health_child'') (\<lambda>parent.
     bindA (inner (get_trace (client l) (syn_trace_id parent))) (\<lambda>parent_trace.
     bindA (expect_that (health_root = None) ''a parentless health span reached trace storage'') (\<lambda>_.
     bindA (expect_that (case parent_trace of None \<Rightarrow> False | Some t \<Rightarrow> length (spans t) = 2)
              ''a child span was filtered out of its trace'') (\<lambda>_.
     bindA (delta l ''health_calls'') (\<lambda>counted.
     bindA (expect_that (counted = 0) ''filtered health spans were still counted'') (\<lambda>_.
     ret (Some ''health root dropped everywhere; child span kept inside its trace'')))))))))"

definition SENSITIVE_KEYS :: "string list" where
  "SENSITIVE_KEYS = [''http.request.header.authorization'', ''user.password'', ''payment.card_number'', ''http.url'']"

definition leaked_keys :: "attrs \<Rightarrow> string list" where
  "leaked_keys d = filter (\<lambda>key. dict_get d key \<noteq> None) SENSITIVE_KEYS"

definition check_attributes :: "string \<Rightarrow> attrs \<Rightarrow> ('w, unit) act" where
  "check_attributes rid d =
     bindA (expect_that (leaked_keys d = []) (''sensitive attributes stored: '' @ listed (leaked_keys d))) (\<lambda>_.
     bindA (expect_that (attr d ''url.path'' = PStr ''/orders'') (''the URL path was not kept: '' @ py_str (attr d ''url.path''))) (\<lambda>_.
     expect_that (attr d ''order.id'' = PStr (''order-'' @ rid)) ''a harmless attribute was removed''))"

definition clear_addresses :: "attrs \<Rightarrow> string list" where
  "clear_addresses d = filter (\<lambda>key. case dict_get d key of None \<Rightarrow> False | Some v \<Rightarrow> looks_like_ip v) CLIENT_ADDRESS_KEYS"

definition gateway_root :: "trace \<Rightarrow> span result" where
  "gateway_root t = (case first_such (\<lambda>s. service s = ''kong-gateway'') (roots t) of None \<Rightarrow> Inl StopIteration | Some s \<Rightarrow> Inr s)"

definition sanitation :: "'k lab \<Rightarrow> string \<Rightarrow> ('k pipeline, string option) act" where
  "sanitation l rid =
     bindA (first_of ''sensitive'') (\<lambda>probe.
     bindA (inner (get_trace (client l) (syn_trace_id probe))) (\<lambda>synthetic_trace.
     bindA (recalled (\<lambda>m. found_in (real_ids m) ''trace_id'' ''trace_id'')) (\<lambda>tid.
     bindA (inner (wait_for_trace (client l) tid 30 (\<lambda>_. True))) (\<lambda>gateway_trace.
     bindA (expect_that (synthetic_trace \<noteq> None) ''sensitive probe trace not stored'') (\<lambda>_.
     bindA (liftE (bindE (case synthetic_trace of None \<Rightarrow> Inl AttributeError | Some t \<Rightarrow> first_item (spans t)) (\<lambda>s. Inr (span_attrs s)))) (\<lambda>d.
     bindA (check_attributes rid d) (\<lambda>_.
     bindA (expect_that (gateway_trace \<noteq> None) ''real gateway trace not stored'') (\<lambda>_.
     bindA (liftE (case gateway_trace of None \<Rightarrow> Inl AttributeError | Some t \<Rightarrow> gateway_root t)) (\<lambda>kong_root.
     bindA (expect_that (clear_addresses (span_attrs kong_root) = [])
              (''client addresses stored in clear text: '' @ listed (clear_addresses (span_attrs kong_root)))) (\<lambda>_.
     ret None))))))))))"

definition normalization :: "'k lab \<Rightarrow> ('k pipeline, string option) act" where
  "normalization l =
     bindA (wait_for_delta l ''kong_401'' 1 60) (\<lambda>counted.
     bindA (expect_that (counted \<ge> 1) ''no new kong-gateway span metrics with http_response_status_code=401'') (\<lambda>_. ret None))"

definition cardinality :: "'k lab \<Rightarrow> ('k world, string option) act" where
  "cardinality l =
     bindA (current_label_names (client l) (''{__name__=~'' @ quoted ''traces_span_metrics_.*'' @ ''}'')) (\<lambda>labels.
     bindA (total (client l) (''{__name__=~'' @ quoted ''traces_span_metrics_calls(_total)?'' @ '',otel_metric_overflow='' @ quoted ''true'' @ ''}'')) (\<lambda>overflow.
     let forbidden = sorted_set (filter (\<lambda>name. name \<in> set FORBIDDEN_METRIC_LABELS) labels) in
     bindA (expect_that (forbidden = []) (''identifier labels on span metrics: '' @ listed forbidden)) (\<lambda>_.
     bindA (expect_that (overflow = 0) ''the span metrics cardinality limit was reached'') (\<lambda>_.
     ret (Some (''labels: '' @ listed labels))))))"

text \<open>The metric points of all series of an answer of the Monitor API.\<close>

definition points_of :: "pyval \<Rightarrow> pyval list result" where
  "points_of v =
     bindE (bindE (py_get v ''metrics'' (PList [])) py_iter) (\<lambda>series.
     bindE (mapE (\<lambda>one. bindE (py_get one ''metricPoints'' (PList [])) py_iter) series) (\<lambda>pss. Inr (concat pss)))"

definition monitor_params :: "real \<Rightarrow> (string, string) dict" where
  "monitor_params now =
     [(''service'', ''order-service''), (''lookback'', ''900000''), (''step'', ''60000''), (''ratePer'', ''60000''),
      (''endTs'', show_int (trunc (now * 1000)))]"

definition monitor :: "'k lab \<Rightarrow> string \<Rightarrow> (string, string) dict \<Rightarrow> ('k world, http_response) act" where
  "monitor l path params = call (http (client l) JaegerPort ''GET'' path params None)"

text \<open>The loop ends with the parameters of its last request, the answer and the points.\<close>

fun call_rates :: "nat \<Rightarrow> 'k lab \<Rightarrow> real \<Rightarrow> ('k world, (string, string) dict \<times> pyval list) act" where
  "call_rates 0 l deadline = raise TimeoutError"
| "call_rates (Suc n) l deadline =
     bindA (call (wall_clock (client l))) (\<lambda>now.
     bindA (monitor l ''/api/metrics/calls'' (monitor_params now)) (\<lambda>response.
     bindA (liftE (bindE (json_ok response) points_of)) (\<lambda>points.
     if points \<noteq> [] then ret (monitor_params now, points)
     else
       bindA (call (monotonic_clock (client l))) (\<lambda>t.
       if t > deadline then ret (monitor_params now, points)
       else bindA (call (sleep_for (client l) 10)) (\<lambda>_. call_rates n l deadline)))))"

definition spm_api :: "'k lab \<Rightarrow> ('k world, string option) act" where
  "spm_api l =
     bindA (call (monotonic_clock (client l))) (\<lambda>t.
     bindA (call_rates 11 l (t + 90)) (\<lambda>(params, points).
     bindA (monitor l ''/api/metrics/errors'' params) (\<lambda>errors.
     bindA (monitor l ''/api/metrics/latencies'' (params @ [(''quantile'', ''0.95'')])) (\<lambda>latencies.
     bindA (expect_that (points \<noteq> []) ''no call-rate data for order-service'') (\<lambda>_.
     bindA (expect_that (resp_status errors = 200 \<and> resp_status latencies = 200)
              (''errors='' @ show_int (resp_status errors) @ '', latencies='' @ show_int (resp_status latencies))) (\<lambda>_.
     ret None))))))"

definition self_metrics :: "'k lab \<Rightarrow> ('k pipeline, string option) act" where
  "self_metrics l =
     bindA (wait_for_delta l ''errors_policy_sampled'' 5 60) (\<lambda>sampled_errors.
     bindA (delta l ''dropped_too_early'') (\<lambda>dropped_early.
     bindA (delta l ''refused'') (\<lambda>refused.
     bindA (delta l ''export_failed'') (\<lambda>export_failed.
     bindA (expect_that (dropped_early = 0) ''traces were evicted before a sampling decision'') (\<lambda>_.
     bindA (expect_that (refused = 0 \<and> export_failed = 0) ''spans were refused or not exported'') (\<lambda>_.
     bindA (expect_that (sampled_errors \<ge> 5) ''the errors policy did not sample the 5 error traces'') (\<lambda>_. ret None)))))))"

text \<open>Every check begins with \<open>after_decision()\<close>.\<close>

definition decided_check :: "'k lab \<Rightarrow> string \<Rightarrow> ('k pipeline, string option) act \<Rightarrow> ('k pipeline, string option) act" where
  "decided_check l rid body = bindA (after_decision l rid) (\<lambda>_. body)"

definition pipeline_checks :: "'k lab \<Rightarrow> string \<Rightarrow> (string \<times> ('k pipeline, string option) act) list" where
  "pipeline_checks l rid =
     [(''error, slow and debug traces are always kept'', policy_retention l),
      (''normal traces are kept at the baseline rate'', baseline_rate l),
      (''span metrics count every span, including traces that sampling dropped'', unsampled_metrics l),
      (''late spans join traces that were already kept'', late_spans l),
      (''health spans are filtered without breaking traces'', safe_filtering l),
      (''sensitive attributes are removed and client addresses hashed'', sanitation l rid),
      (''Kong's legacy HTTP status becomes the standard metric dimension'', normalization l),
      (''span metrics carry no high-cardinality identifiers'', inner (cardinality l)),
      (''Jaeger's Monitor API returns RED metrics for real services'', inner (spm_api l)),
      (''Collector self-metrics show healthy sampling and ingestion'', self_metrics l)]"

definition telemetry_suite :: "'k lab \<Rightarrow> string \<Rightarrow> 'k pipeline suite" where
  "telemetry_suite l rid =
     \<lparr>suite_name = ''telemetry-pipeline'',
      suite_description = ''tail sampling, unsampled span metrics, safe filtering, sanitation, cardinality, SPM, self-metrics'',
      suite_checks = map (\<lambda>(name, body). (name, decided_check l rid body)) (pipeline_checks l rid),
      suite_cleanup = None\<rparr>"

definition run_telemetry :: "'k lab \<Rightarrow> exn_texts \<Rightarrow> ('k world, check_outcome list) act" where
  "run_telemetry l t =
     bindA (call (uuid_hex (station l))) (\<lambda>uuid. run_with l t nothing_sent (telemetry_suite l (take 8 uuid)))"

subsection \<open>The memory of the suite is well typed\<close>

text \<open>Once the time of sending is noted, every entry that a check reads is there, with the number of spans it expects.\<close>

definition GROUP_SIZES :: "(string \<times> nat) list" where
  "GROUP_SIZES = [(''errors'', 5), (''slow'', 5), (''debug'', 5), (''baseline'', nat BASELINE_TRACES), (''health_root'', 1),
     (''health_child'', 2), (''sensitive'', 1), (''late'', 1)]"

definition holds_groups :: "probe_memory \<Rightarrow> bool" where
  "holds_groups m \<longleftrightarrow> list_all (\<lambda>(g, n). \<exists>ss. dict_get (sent_groups m) g = Some ss \<and> length ss = n) GROUP_SIZES"

definition holds_counters :: "probe_memory \<Rightarrow> bool" where
  "holds_counters m \<longleftrightarrow> list_all (\<lambda>k. dict_get (counted_before m) k \<noteq> None) (dict_keys COUNTERS)"

definition typed :: "probe_memory \<Rightarrow> bool" where
  "typed m \<longleftrightarrow> sent_at m = [] \<or> holds_groups m \<and> holds_counters m \<and> dict_get (real_ids m) ''trace_id'' \<noteq> None"

definition keeps_memory :: "'k pipeline \<Rightarrow> 'k pipeline \<Rightarrow> bool" where
  "keeps_memory s s' \<longleftrightarrow> (typed (fst s) \<longrightarrow> typed (fst s')) \<and> (sent_at (fst s) \<noteq> [] \<longrightarrow> fst s' = fst s)"

interpretation memory: step_rel "keeps_memory :: 'k pipeline \<Rightarrow> 'k pipeline \<Rightarrow> bool"
  by unfold_locales (auto simp: keeps_memory_def)

definition same_memory :: "'k pipeline \<Rightarrow> 'k pipeline \<Rightarrow> bool" where
  "same_memory s s' \<longleftrightarrow> fst s' = fst s"

interpretation looking: step_rel "same_memory :: 'k pipeline \<Rightarrow> 'k pipeline \<Rightarrow> bool"
  by unfold_locales (auto simp: same_memory_def)

definition same_times :: "'k pipeline \<Rightarrow> 'k pipeline \<Rightarrow> bool" where
  "same_times s s' \<longleftrightarrow> sent_at (fst s') = sent_at (fst s)"

interpretation sending: step_rel "same_times :: 'k pipeline \<Rightarrow> 'k pipeline \<Rightarrow> bool"
  by unfold_locales (auto simp: same_times_def)

named_theorems looking_steps \<open>actions that leave the memory alone\<close>

declare looking.steps_intros [looking_steps]

lemma looking_inner [looking_steps]: "steps same_memory (inner a)"
  by (auto simp: steps_def same_memory_def inner_def split: prod.splits)

lemma looking_recalled [looking_steps]: "steps same_memory (recalled f)"
  by (auto simp: steps_def same_memory_def recalled_def)

lemma looking_expect [looking_steps]: "steps same_memory (expect_that b m)"
  by (simp add: expect_that_def looking.steps_intros)

lemma looking_reread [looking_steps]:
  "steps same_memory clock \<Longrightarrow> steps same_memory pause \<Longrightarrow> steps same_memory m \<Longrightarrow> steps same_memory (reread n clock pause again m deadline v)"
  by (induction n arbitrary: v) (auto intro!: looking_steps)

lemma looking_groups [looking_steps]: "steps same_memory (group_of g)" "steps same_memory (first_of g)" "steps same_memory (stored l g)"
  by (auto simp: group_of_def first_of_def stored_def intro!: looking_steps)

lemma looking_delta [looking_steps]: "steps same_memory (delta l key)" "steps same_memory (wait_for_delta l key expected timeout)"
  by (auto simp: delta_def wait_for_delta_def intro!: looking_steps)

lemma looking_bodies: "list_all (\<lambda>(name, body). steps same_memory body) (pipeline_checks l rid)"
  by (auto simp: pipeline_checks_def policy_retention_def baseline_rate_def unsampled_metrics_def late_spans_def safe_filtering_def
    sanitation_def check_attributes_def normalization_def self_metrics_def Let_def intro!: looking_steps)

lemma memory_of_looking: "steps same_memory a \<Longrightarrow> steps keeps_memory a"
  by (auto simp: steps_def same_memory_def keeps_memory_def)

lemma times_of_looking: "steps same_memory a \<Longrightarrow> steps same_times a"
  by (auto simp: steps_def same_memory_def same_times_def)

lemma times_remember: "(\<And>m. sent_at (f m) = sent_at m) \<Longrightarrow> steps same_times (remember f)"
  by (auto simp: steps_def same_times_def remember_def)

lemma times_make_group: "steps same_times (make_group g)"
  by (cases g) (auto simp: make_group_def intro!: sending.steps_intros times_of_looking [OF looking_inner] times_remember)

lemma times_send: "steps same_times (send_everything l rid)"
  unfolding send_everything_def
  by (intro sending.steps_intros times_make_group times_of_looking [OF looking_inner] times_of_looking [OF looking_recalled] times_remember)
    simp_all

subsection \<open>What sending leaves in the memory\<close>

lemma mapA_each: "mapA f xs w = (Inr ys, w') \<Longrightarrow> list_all2 (\<lambda>x y. \<exists>v v'. f x v = (Inr y, v')) xs ys"
  by (induction xs arbitrary: w ys) (auto elim!: bindA_InrE, blast)

lemma mapA_length: "mapA f xs w = (Inr ys, w') \<Longrightarrow> length ys = length xs"
  using mapA_each list_all2_lengthD by force

lemma several_length: "several l n name d f w = (Inr ss, w') \<Longrightarrow> length ss = n"
  unfolding several_def by (drule mapA_length) simp

lemma pair_length: "health_pair l w = (Inr ss, w') \<Longrightarrow> length ss = 2"
  by (auto simp: health_pair_def elim!: bindA_InrE)

definition makes :: "nat \<Rightarrow> ('k world, synthetic_span list) act \<Rightarrow> bool" where
  "makes n build_it \<longleftrightarrow> (\<forall>w ss w'. build_it w = (Inr ss, w') \<longrightarrow> length ss = n)"

lemma groups_make: "list_all2 (\<lambda>(g, build_it) (g', n). g = g' \<and> makes n build_it) (probe_groups l rid) GROUP_SIZES"
  by (auto simp: probe_groups_def GROUP_SIZES_def makes_def dest: several_length pair_length)

lemma make_group_Inr:
  assumes "make_group (g, build_it) (m, w) = (Inr u, (m', w'))" and "makes n build_it"
  shows "\<exists>ss. length ss = n \<and> m' = m\<lparr>sent_groups := dict_put g ss (sent_groups m)\<rparr>"
  using assms unfolding make_group_def prod.case makes_def
  by (elim bindA_InrE) (auto simp: remember_def inner_def split: prod.splits)

lemma make_groups_Inr:
  assumes "forA gs make_group (m, w) = (Inr u, (m', w'))" and "list_all2 (\<lambda>(g, build_it) (g', n). g = g' \<and> makes n build_it) gs sizes"
    and "distinct (map fst sizes)"
  shows "counted_before m' = counted_before m \<and>
    list_all (\<lambda>(g, n). \<exists>ss. dict_get (sent_groups m') g = Some ss \<and> length ss = n) sizes \<and>
    (\<forall>g. g \<notin> fst ` set sizes \<longrightarrow> dict_get (sent_groups m') g = dict_get (sent_groups m) g)"
  using assms
proof (induction gs arbitrary: m w sizes)
  case (Cons gm gs)
  obtain g build_it where gm: "gm = (g, build_it)" by (cases gm)
  obtain n rest where sizes: "sizes = (g, n) # rest" "makes n build_it"
    "list_all2 (\<lambda>(g, build_it) (g', n). g = g' \<and> makes n build_it) gs rest"
    using Cons.prems(2) unfolding gm list_all2_Cons1 by auto
  obtain v s1 where one: "make_group (g, build_it) (m, w) = (Inr v, s1)" and more: "forA gs make_group s1 = (Inr u, (m', w'))"
    using Cons.prems(1) unfolding gm forA.simps by (rule bindA_InrE)
  obtain m1 w1 where s1: "s1 = (m1, w1)" by (cases s1)
  obtain ss where ss: "length ss = n" "m1 = m\<lparr>sent_groups := dict_put g ss (sent_groups m)\<rparr>"
    using make_group_Inr [OF one [unfolded s1] sizes(2)] by blast
  have d: "distinct (map fst rest)" "g \<notin> fst ` set rest" using Cons.prems(3) sizes(1) by auto
  note IH = Cons.IH [OF more [unfolded s1] sizes(3) d(1)]
  have "dict_get (sent_groups m') g = Some ss" using IH d(2) ss(2) by (simp add: dict_get_put)
  then show ?case using IH ss sizes(1) by (auto simp: dict_get_put)
qed simp

lemma fold_put_keys: "k \<in> fst ` set vs \<Longrightarrow> dict_get (fold (\<lambda>(k, v). dict_put k v) vs d) k \<noteq> None"
proof (induction vs rule: rev_induct)
  case (snoc x xs)
  then show ?case by (cases x) (auto simp: dict_get_put)
qed simp

lemma counters_keys:
  assumes "read_counters l w = (Inr vs, w')"
  shows "fst ` set vs = set (dict_keys COUNTERS)"
proof -
  have "list_all2 (\<lambda>x y. \<exists>v v'. (\<lambda>(key, sel). bindA (total (client l) sel) (\<lambda>v. ret (key, v))) x v = (Inr y, v')) COUNTERS vs"
    using assms unfolding read_counters_def by (rule mapA_each)
  then have "list_all2 (\<lambda>x y. fst x = fst y) COUNTERS vs"
    by (rule list_all2_mono) (auto elim!: bindA_InrE)
  then have "map fst COUNTERS = map fst vs" by (induction rule: list_all2_induct) simp_all
  then show ?thesis unfolding dict_keys_def by (metis set_map)
qed

lemma memory_after:
  "inner a s = (r, s') \<Longrightarrow> fst s' = fst s"
  "recalled f s = (r, s') \<Longrightarrow> fst s' = fst s"
  "remember g s = (r', s') \<Longrightarrow> fst s' = g (fst s)"
  by (auto simp: inner_def recalled_def remember_def split: prod.splits)

lemma send_everything_fills:
  assumes "send_everything l rid (m, w) = (Inr t, (m', w'))"
  shows "holds_groups m' \<and> holds_counters m' \<and> dict_get (real_ids m') ''trace_id'' \<noteq> None"
proof -
  obtain vs s1 u1 s2 u2 s3 ss s4 u3 s5 response s6 u4 s7 u5 s8 where
    s: "inner (read_counters l) (m, w) = (Inr vs, s1)"
       "remember (\<lambda>m. m\<lparr>counted_before := fold (\<lambda>(k, v). dict_put k v) vs (counted_before m)\<rparr>) s1 = (Inr u1, s2)"
       "forA (probe_groups l rid) make_group s2 = (Inr u2, s3)"
       "recalled (\<lambda>m. Inr (concat (map snd (sent_groups m)))) s3 = (Inr ss, s4)"
       "inner (send_synthetic l 200 ss) s4 = (Inr u3, s5)" "inner (place_order l True) s5 = (Inr response, s6)"
       "remember (\<lambda>m. m\<lparr>real_ids := dict_put ''trace_id'' (trace_id_of response) (real_ids m)\<rparr>) s6 = (Inr u4, s7)"
       "inner (post_order l GATEWAY_URL []) s7 = (Inr u5, s8)" "inner (call (monotonic_clock (client l))) s8 = (Inr t, (m', w'))"
    using assms unfolding send_everything_def by (elim bindA_InrE)
  have m1: "fst s2 = m\<lparr>counted_before := fold (\<lambda>(k, v). dict_put k v) vs (counted_before m)\<rparr>"
    using memory_after(3) [OF s(2)] memory_after(1) [OF s(1)] by simp
  obtain w1 where "read_counters l w = (Inr vs, w1)" using s(1) by (auto simp: inner_def split: prod.splits)
  from counters_keys [OF this] have counters: "list_all (\<lambda>k. dict_get (counted_before (fst s2)) k \<noteq> None) (dict_keys COUNTERS)"
    unfolding m1 list_all_iff by (auto intro: fold_put_keys [simplified])
  have "forA (probe_groups l rid) make_group (fst s2, snd s2) = (Inr u2, (fst s3, snd s3))" using s(3) by simp
  moreover have "distinct (map fst GROUP_SIZES)" by (simp add: GROUP_SIZES_def)
  ultimately have groups: "counted_before (fst s3) = counted_before (fst s2)" "holds_groups (fst s3)"
    using make_groups_Inr groups_make unfolding holds_groups_def by blast+
  have m6: "fst s6 = fst s3" using memory_after(1) [OF s(6)] memory_after(1) [OF s(5)] memory_after(2) [OF s(4)] by simp
  have "m' = fst s7" using memory_after(1) [OF s(9)] memory_after(1) [OF s(8)] by simp
  then have "m' = (fst s3)\<lparr>real_ids := dict_put ''trace_id'' (trace_id_of response) (real_ids (fst s3))\<rparr>"
    using memory_after(3) [OF s(7)] m6 by simp
  then show ?thesis using groups counters by (simp add: holds_groups_def holds_counters_def dict_get_put)
qed

lemma memory_prepare: "steps keeps_memory (prepare l rid)"
proof (rule stepsI)
  fix s r s' assume run: "prepare l rid s = (r, s' :: 'a pipeline)"
  obtain m w m' w' where s: "s = (m, w)" "s' = (m', w')" by (cases s; cases s')
  show "keeps_memory s s'"
  proof (cases "sent_at m = []")
    case False
    then have "s' = s" using run by (auto simp: prepare_def s recalled_def bindA_apply)
    then show ?thesis by (simp add: memory.step_refl)
  next
    case True
    have send: "bindA (send_everything l rid) (\<lambda>t. remember (\<lambda>m. m\<lparr>sent_at := sent_at m @ [t]\<rparr>)) (m, w) = (r, s')"
      using run True by (simp add: prepare_def s recalled_def bindA_apply)
    then have "typed m'"
    proof (cases rule: bindA_cases)
      case (Raise e)
      then have "sent_at m' = []" using stepsD [OF times_send Raise(1)] True by (simp add: same_times_def s)
      then show ?thesis by (simp add: typed_def)
    next
      case (Cont t s1)
      obtain m1 w1 where s1: "s1 = (m1, w1)" by (cases s1)
      have "m' = m1\<lparr>sent_at := sent_at m1 @ [t]\<rparr>" using memory_after(3) [OF Cont(2)] by (simp add: s s1)
      then show ?thesis using send_everything_fills [OF Cont(1)[unfolded s1]]
        by (simp add: typed_def holds_groups_def holds_counters_def)
    qed
    then show ?thesis using True by (simp add: keeps_memory_def s)
  qed
qed

lemma memory_decided: "steps same_memory body \<Longrightarrow> steps keeps_memory (decided_check l rid body)"
  unfolding decided_check_def after_decision_def Let_def
  by (intro memory.steps_intros memory_prepare memory_of_looking) (auto intro!: looking_steps)

text \<open>
  Property C28. The variables that the checks of a run share are well typed at every moment: they start empty, and a
  check that starts when they are well typed leaves them so however it ends. Well typed means that from the
  moment the time of sending is noted each group has its number of spans, each counter its first value, and
  the real trace its id; and after that moment no check changes any of them.
\<close>

theorem shared_memory_typed:
  "typed nothing_sent \<and> list_all (\<lambda>(name, f). steps keeps_memory f) (suite_checks (telemetry_suite l rid))"
proof
  show "typed nothing_sent" by (simp add: typed_def nothing_sent_def)
  have "list_all (\<lambda>(name, body). steps keeps_memory (decided_check l rid body)) (pipeline_checks l rid)"
    using looking_bodies memory_decided by (fastforce simp: list_all_iff)
  then show "list_all (\<lambda>(name, f). steps keeps_memory f) (suite_checks (telemetry_suite l rid))"
    by (auto simp: telemetry_suite_def list_all_iff)
qed

text \<open>So no lookup of a check raises: the first span of each group, each group, each counter and the real trace are there.\<close>

lemma typed_lookups:
  assumes "typed m" and "sent_at m \<noteq> []"
  shows "(g, Suc n) \<in> set GROUP_SIZES \<Longrightarrow> \<exists>sp. first_of g (m, w) = (Inr sp, (m, w))"
    and "k \<in> set (dict_keys COUNTERS) \<Longrightarrow> \<exists>v. found_in (counted_before m) k k = Inr v"
    and "\<exists>v. found_in (real_ids m) ''trace_id'' ''trace_id'' = Inr v"
proof -
  have t: "holds_groups m" "holds_counters m" "dict_get (real_ids m) ''trace_id'' \<noteq> None"
    using assms by (auto simp: typed_def)
  show "\<exists>sp. first_of g (m, w) = (Inr sp, (m, w))" if member: "(g, Suc n) \<in> set GROUP_SIZES"
  proof -
    obtain ss where "dict_get (sent_groups m) g = Some ss" "length ss = Suc n"
      using bspec [OF t(1)[unfolded holds_groups_def list_all_iff] member] by auto
    then show ?thesis by (cases ss) (auto simp: first_of_def group_of_def recalled_def found_in_def bindA_apply)
  qed
  show "\<exists>v. found_in (counted_before m) k k = Inr v" if "k \<in> set (dict_keys COUNTERS)"
    using t(2) that by (auto simp: holds_counters_def list_all_iff found_in_def)
  show "\<exists>v. found_in (real_ids m) ''trace_id'' ''trace_id'' = Inr v"
    using t(3) by (auto simp: found_in_def)
qed

text \<open>
  Sending is not repeated once the time is noted. But when the order after it, or the request without a token,
  raises, it is not noted, so the next check sends everything again.
\<close>

lemma failed_sending_repeats:
  assumes "prepare l rid (m, w) = (Inl e, (m', w'))"
  shows "sent_at m' = []"
proof (cases "sent_at m = []")
  case True
  then have "bindA (send_everything l rid) (\<lambda>t. remember (\<lambda>m. m\<lparr>sent_at := sent_at m @ [t]\<rparr>)) (m, w) = (Inl e, (m', w'))"
    using assms by (simp add: prepare_def recalled_def bindA_apply)
  then show ?thesis
  proof (cases rule: bindA_cases)
    case (Raise e')
    then show ?thesis using stepsD [OF times_send Raise(1)] True by (simp add: same_times_def)
  qed (simp add: remember_def)
qed (use assms in \<open>simp add: prepare_def recalled_def bindA_apply\<close>)

subsection \<open>No check looks too early\<close>

lemma sent_time:
  assumes "prepare l rid s = (Inr u, s')"
  shows "sent_at (fst s') \<noteq> []"
proof (cases "sent_at (fst s) = []")
  case True
  then obtain t s1 where "remember (\<lambda>m. m\<lparr>sent_at := sent_at m @ [t]\<rparr>) s1 = (Inr u, s')"
    using assms by (cases s) (auto simp: prepare_def recalled_def bindA_apply split: prod.splits sum.splits)
  then show ?thesis using memory_after(3) by fastforce
next
  case False
  obtain m w where s: "s = (m, w)" by (cases s)
  then have "s' = s" using assms False by (simp add: prepare_def recalled_def bindA_apply)
  then show ?thesis using False by simp
qed

lemma after_decision_waits:
  assumes "ticking (client l) clk" and "after_decision l rid s = (Inr u, (m, w))"
  shows "\<exists>sent rest. sent_at m = sent # rest \<and> sent + DECISION_WINDOW \<le> clk (ext w)"
proof -
  let ?wait = "\<lambda>sent. bindA (inner (call (monotonic_clock (client l)))) (\<lambda>t.
     let remaining = sent + DECISION_WINDOW - t in
     if remaining > 0 then inner (call (sleep_for (client l) remaining)) else ret ())"
  obtain v s1 where more: "bindA (recalled (\<lambda>m. first_item (sent_at m))) ?wait s1 = (Inr u, (m, w))"
    using assms(2) unfolding after_decision_def by (rule bindA_InrE)
  obtain sent s2 where found: "recalled (\<lambda>m. first_item (sent_at m)) s1 = (Inr sent, s2)" and rest2: "?wait sent s2 = (Inr u, (m, w))"
    using more by (rule bindA_InrE)
  obtain m1 w1 where s2: "s2 = (m1, w1)" by (cases s2)
  then have f: "first_item (sent_at m1) = Inr sent" using found by (auto simp: recalled_def split: prod.splits)
  note rest = rest2 [unfolded s2]
  obtain w2 where w2: "call (monotonic_clock (client l)) w1 = (Inr (clk (ext w1)), w2)" "clk (ext w1) \<le> clk (ext w2)"
    using call_clock [OF assms(1)] by blast
  obtain w3 where w3: "call (sleep_for (client l) (sent + DECISION_WINDOW - clk (ext w1))) w2 = (Inr (), w3)"
    "clk (ext w2) + (sent + DECISION_WINDOW - clk (ext w1)) \<le> clk (ext w3)"
    using call_sleep [OF assms(1)] by blast
  have "m = m1 \<and> sent + DECISION_WINDOW \<le> clk (ext w)"
    using rest w2 w3 by (auto simp: bindA_apply inner_def Let_def split: if_splits)
  moreover obtain rest' where "sent_at m1 = sent # rest'" using f by (cases "sent_at m1") auto
  ultimately show ?thesis by blast
qed


definition quiet_lab :: "real lab" where
  "quiet_lab = blank_lab\<lparr>station := blank_host\<lparr>cluster := quiet_api\<rparr>\<rparr>"


subsection \<open>Addresses in clear text are found\<close>

definition dotted :: "nat \<Rightarrow> nat \<Rightarrow> nat \<Rightarrow> nat \<Rightarrow> string" where
  "dotted a b c d = show_nat a @ CHR ''.'' # show_nat b @ CHR ''.'' # show_nat c @ CHR ''.'' # show_nat d"

lemma octet_show: "n < 256 \<Longrightarrow> octet (show_nat n)"
proof -
  assume small: "n < 256"
  have digits: "list_all is_digit (show_nat n)" using show_nat_is_digit by (auto simp: list_all_iff)
  have len: "length (show_nat n) \<le> 3" using small length_show_nat [of 3 n] by simp
  have lead: "hd (show_nat n) \<noteq> CHR ''0'' \<or> length (show_nat n) = 1" using show_nat_leading [of n] by (cases "n = 0") (auto simp: show_nat.simps [of 0])
  have "digits_value False 0 (show_nat n) = Some (int n)" by (simp add: digits_value_show_nat)
  with digits len lead small show "octet (show_nat n)" by (simp add: octet_def)
qed

lemma dotted_is_ip:
  assumes "a < 256" and "b < 256" and "c < 256" and "d < 256"
  shows "looks_like_ip (PStr (dotted a b c d))"
proof -
  have dot: "CHR ''.'' \<notin> set (show_nat n)" for n by (rule not_digit_not_in_show_nat) (simp add: is_digit_def less_eq_char_def)
  have "split_on CHR ''.'' (dotted a b c d) = [show_nat a, show_nat b, show_nat c, show_nat d]"
    unfolding dotted_def using dot by (simp add: split_on_append split_on_no_sep)
  then show ?thesis using assms octet_show by (simp add: looks_like_ip_def looks_like_ipv4_def)
qed

lemma clear_address_found:
  assumes "key \<in> set CLIENT_ADDRESS_KEYS" and "dict_get d key = Some (PStr (dotted a b c e))"
    and "a < 256" and "b < 256" and "c < 256" and "e < 256"
  shows "key \<in> set (clear_addresses d)"
  using assms dotted_is_ip by (simp add: clear_addresses_def)

end
