(* ===== verification/ObservabilitySuite.thy ===== *)
theory ObservabilitySuite
  imports SuiteLaws
begin

section \<open>The observability suite (validation/observability.py)\<close>

text \<open>
  Six checks of the stores and roles of the telemetry platform. One of them runs the real cleaner of the trace
  indices once, as a job with another prefix; the theorem says that this job is always deleted, and the lemma after it
  what a run leaves behind whose job does not succeed. The variable \<open>state\<close> of \<open>build\<close> is written and never read.
\<close>

definition INDEX_PREFIX :: string where "INDEX_PREFIX = ''txplatform''"

text \<open>Requests to OpenSearch over a forwarded port.\<close>

definition search :: "'k lab \<Rightarrow> (string \<Rightarrow> ('k world, 'a) act) \<Rightarrow> ('k world, 'a) act" where
  "search l body = forwarded l NS_OBSERVABILITY ''svc/opensearch-traces'' 9200 (\<lambda>address. body (''http://'' @ address))"

definition cat_indices :: "'k lab \<Rightarrow> string \<Rightarrow> ('k world, pyval list) act" where
  "cat_indices l base =
     bindA (call (request l base ''GET'' ''/_cat/indices'' [(''format'', ''json'')] [] None)) (\<lambda>response.
     liftE (bindE (bindE (json_of response) py_iter) (mapE (\<lambda>row. py_item row ''index''))))"

definition components_ready :: "'k lab \<Rightarrow> ('k world, string option) act" where
  "components_ready l =
     bindA (statefulset_ready (client l) NS_OBSERVABILITY ''opensearch-traces'') (\<lambda>ready.
     bindA (expect_that ready ''OpenSearch is not ready'') (\<lambda>_.
     bindA (forA [''jaeger-collector'', ''jaeger-query'', ''prometheus-server''] (\<lambda>name.
       bindA (deployment_available (client l) NS_OBSERVABILITY name) (\<lambda>there.
       expect_that there (name @ '' is not available'')))) (\<lambda>_.
     bindA (search l (\<lambda>base. bindA (get_page l base ''/_cluster/health'' []) (\<lambda>response. liftE (json_ok response)))) (\<lambda>health.
     bindA (liftE (py_item health ''status'')) (\<lambda>status.
     bindA (expect_that (status = PStr ''green'') (''OpenSearch cluster status is '' @ py_str status)) (\<lambda>_.
     ret (Some ''all ready, OpenSearch green'')))))))"

definition count_query :: "string \<Rightarrow> pyval" where
  "count_query tid = PDict [(''query'', PDict [(''term'', PDict [(''traceID'', PStr tid)])])]"

definition span_pattern :: string where "span_pattern = CHR ''/'' # INDEX_PREFIX @ ''-jaeger-span-*''"

definition count_spans :: "'k lab \<Rightarrow> string \<Rightarrow> ('k world, pyval \<times> pyval list) act" where
  "count_spans l tid =
     search l (\<lambda>base.
       bindA (call (request l base ''POST'' (span_pattern @ ''/_refresh'') [] [] None)) (\<lambda>_.
       bindA (call (request l base ''POST'' (span_pattern @ ''/_count'') [] [] (Some (count_query tid)))) (\<lambda>response.
       bindA (liftE (bindE (json_ok response) (\<lambda>v. py_item v ''count''))) (\<lambda>hits.
       bindA (cat_indices l base) (\<lambda>indices. ret (hits, indices))))))"

definition stored_and_served :: "'k lab \<Rightarrow> ('k world, string option) act" where
  "stored_and_served l =
     bindA (place_order l True) (\<lambda>response.
     bindA (expect_that (resp_status response = 201) (''order returned '' @ show_int (resp_status response))) (\<lambda>_.
     let tid = trace_id_of response in
     bindA (wait_for_trace (client l) tid 60 (\<lambda>t. {''kong-gateway'', ''shipping-service''} \<subseteq> services t)) (\<lambda>served.
     bindA (expect_that (served \<noteq> None) (''trace '' @ tid @ '' not served by Jaeger Query'')) (\<lambda>_.
     bindA (call (today l)) (\<lambda>day.
     bindA (call (sleep_for (client l) 5)) (\<lambda>_.
     bindA (count_spans l tid) (\<lambda>(hits, indices).
     bindA (get_trace (client l) tid) (\<lambda>again.
     bindA (expect_that (case again of None \<Rightarrow> False | Some t \<Rightarrow> py_eq hits (PInt (int (length (spans t)))))
              (''OpenSearch holds '' @ py_str hits @ '' spans, Query served '' @
               show_nat (case again of None \<Rightarrow> 0 | Some t \<Rightarrow> length (spans t)))) (\<lambda>_.
     let index = INDEX_PREFIX @ ''-jaeger-span-'' @ day in
     bindA (expect_that (PStr index \<in> set indices) ''today's span index missing'') (\<lambda>_.
     ret (Some (py_str hits @ '' spans of trace '' @ tid @ '' in '' @ index))))))))))))"

definition target_health :: "pyval \<Rightarrow> (pyval \<times> pyval) result" where
  "target_health t =
     bindE (bindE (py_item t ''labels'') (\<lambda>labels. py_item labels ''job'')) (\<lambda>job.
     bindE (py_item t ''health'') (\<lambda>health. if hashable job then Inr (job, health) else Inl TypeError))"

definition scrape_targets :: "'k lab \<Rightarrow> ('k world, string option) act" where
  "scrape_targets l =
     bindA (targets (client l)) (\<lambda>active.
     bindA (liftE (bindE (py_iter active) (mapE target_health))) (\<lambda>pairs.
     bindA (forA [''jaeger-collector'', ''jaeger-query''] (\<lambda>job.
       let health = (case dict_get (dict_of pairs) (PStr job) of None \<Rightarrow> PNone | Some h \<Rightarrow> h) in
       expect_that (health = PStr ''up'') (''target '' @ job @ '' is '' @ py_str health))) (\<lambda>_.
     ret None)))"

definition sum_of :: "'k lab \<Rightarrow> string \<Rightarrow> ('k world, real) act" where
  "sum_of l name = total (client l) (metric_selector name [])"

text \<open>\<open>while time.monotonic() < deadline\<close>, with a break once both counters are positive.\<close>

fun first_samples :: "nat \<Rightarrow> 'k lab \<Rightarrow> real \<Rightarrow> real \<times> real \<Rightarrow> ('k world, real \<times> real) act" where
  "first_samples 0 l deadline counts = raise TimeoutError"
| "first_samples (Suc n) l deadline counts =
     bindA (call (monotonic_clock (client l))) (\<lambda>t.
       if t < deadline
       then
         bindA (sum_of l ''otelcol_receiver_accepted_spans'') (\<lambda>accepted.
         bindA (sum_of l ''otelcol_exporter_sent_spans'') (\<lambda>sent.
           if accepted > 0 \<and> sent > 0 then ret (accepted, sent)
           else bindA (call (sleep_for (client l) 5)) (\<lambda>_. first_samples n l deadline (accepted, sent))))
       else ret counts)"

definition collector_health :: "'k lab \<Rightarrow> ('k world, string option) act" where
  "collector_health l =
     bindA (call (monotonic_clock (client l))) (\<lambda>t.
     bindA (first_samples (polls 60 5) l (t + 60) (0, 0)) (\<lambda>(accepted, sent).
     bindA (sum_of l ''otelcol_receiver_refused_spans'') (\<lambda>refused.
     bindA (sum_of l ''otelcol_exporter_send_failed_spans'') (\<lambda>failed.
     bindA (expect_that (accepted > 0 \<and> sent > 0) ''the Collector accepted or exported nothing'') (\<lambda>_.
     bindA (expect_that (refused = 0 \<and> failed = 0) ''the Collector refused spans or failed to export'') (\<lambda>_. ret None))))))"

subsection \<open>The retention job\<close>

definition first_and_rest :: "string list \<Rightarrow> (string \<times> string list) result" where
  "first_and_rest xs = (case xs of [] \<Rightarrow> Inl IndexError | x # rest \<Rightarrow> Inr (x, rest))"

definition throwaway_index :: "string \<Rightarrow> string" where
  "throwaway_index day = ''retention-check-jaeger-span-'' @ day"

definition index_settings :: pyval where
  "index_settings = PDict [(''settings'', PDict [(''number_of_shards'', PInt 1), (''number_of_replicas'', PInt 0)])]"

definition job_done :: "'k lab \<Rightarrow> string \<Rightarrow> ('k world, bool) act" where
  "job_done l job = bindA (call (job_succeeded l job)) (\<lambda>n. ret (or0 n > 0))"

definition run_cleaner :: "'k lab \<Rightarrow> string \<Rightarrow> string list \<Rightarrow> ('k world, unit) act" where
  "run_cleaner l job args =
     bindA (created ''Job'' NS_OBSERVABILITY job (create_job l job args [(''INDEX_PREFIX'', ''retention-check'')])) (\<lambda>_.
     finallyA (wait_for (client l) (truth (job_done l job)) 180 2)
       (deleted ''Job'' NS_OBSERVABILITY job (delete_job l job)))"

definition clean_throwaway :: "'k lab \<Rightarrow> string \<Rightarrow> string list \<Rightarrow> string \<Rightarrow> string \<Rightarrow> ('k world, pyval list) act" where
  "clean_throwaway l job args day base =
     bindA (created ''Index'' [] (throwaway_index day)
       (request l base ''PUT'' (CHR ''/'' # throwaway_index day) [] [] (Some index_settings))) (\<lambda>response.
     bindA (liftE (raise_for_status response)) (\<lambda>_.
     bindA (run_cleaner l job args) (\<lambda>_.
     bindA (cat_indices l base) (\<lambda>indices.
     liftE (as_set indices)))))"

definition retention :: "'k lab \<Rightarrow> ('k world, string option) act" where
  "retention l =
     bindA (call (today l)) (\<lambda>day.
     bindA (call (cleaner_args l)) (\<lambda>args.
     bindA (liftE (first_and_rest args)) (\<lambda>(days, rest).
     bindA (call (uuid_hex (station l))) (\<lambda>uuid.
     let platform_index = INDEX_PREFIX @ ''-jaeger-span-'' @ day in
     bindA (search l (clean_throwaway l (''index-cleaner-check-'' @ take 6 uuid) (''0'' # rest) day)) (\<lambda>indices.
     bindA (expect_that (PStr (throwaway_index day) \<notin> set indices) (throwaway_index day @ '' survived the cleaner'')) (\<lambda>_.
     bindA (expect_that (PStr platform_index \<in> set indices) (platform_index @ '' was deleted although it has another prefix'')) (\<lambda>_.
     ret (Some (''deleted '' @ throwaway_index day @ '', kept '' @ platform_index @ ''; the nightly job keeps '' @ days @ '' days'')))))))))"

subsection \<open>Network policies and the suite\<close>

definition private_connections :: "(string \<times> string option \<times> target \<times> bool) list" where
  "private_connections =
     [(NS_OBSERVABILITY, Some ''jaeger-collector'', svc NS_OBSERVABILITY ''opensearch-traces'' 9200, True),
      (NS_OBSERVABILITY, Some ''prometheus'', svc NS_OBSERVABILITY ''opensearch-traces'' 9200, False),
      (NS_APP, Some ''order-service'', svc NS_OBSERVABILITY ''opensearch-traces'' 9200, False),
      (NS_APP, Some ''order-service'', svc NS_OBSERVABILITY ''jaeger-query'' 16686, False),
      (NS_APP, Some ''order-service'', svc NS_OBSERVABILITY ''prometheus-server'' 9090, False),
      (NS_APP, Some ''order-service'', svc NS_OBSERVABILITY ''jaeger-collector'' 4317, True),
      (''default'', None, svc NS_OBSERVABILITY ''jaeger-collector'' 4317, False)]"

definition connection_mismatch :: "'k lab \<Rightarrow> string \<times> string option \<times> target \<times> bool \<Rightarrow> ('k world, string list) act" where
  "connection_mismatch l = (\<lambda>(ns, ident, t, allowed).
     bindA (probe_one l ns ident t) (\<lambda>reachable.
     ret (if reachable \<noteq> allowed
          then [(case ident of None \<Rightarrow> ''anonymous'' | Some i \<Rightarrow> i) @ CHR ''@'' # ns @ '' -> '' @ target_text t @ '' is '' @
                (if reachable then ''reachable'' else ''blocked'')]
          else [])))"

definition policies :: "'k lab \<Rightarrow> ('k world, string option) act" where
  "policies l =
     bindA (mapA (connection_mismatch l) private_connections) (\<lambda>found.
     bindA (expect_that (concat found = []) (join ''; '' (concat found))) (\<lambda>_.
     ret (Some (show_nat (length private_connections) @ '' connections behave as declared''))))"

definition observability_suite :: "'k lab \<Rightarrow> 'k world suite" where
  "observability_suite l =
     \<lparr>suite_name = ''observability'',
      suite_description = ''OpenSearch storage, split Jaeger roles, Prometheus self-monitoring, retention, policies'',
      suite_checks =
        [(''OpenSearch, Collector, Query and Prometheus are ready'', components_ready l),
         (''a gateway order is stored in OpenSearch and served by Jaeger Query'', stored_and_served l),
         (''Prometheus scrapes Collector and Query telemetry'', scrape_targets l),
         (''Collector accepts spans without refusals or export failures'', collector_health l),
         (''retention job deletes trace indices of its own prefix only'', retention l),
         (''only Collector, Query and the cleaner reach OpenSearch; Query and Prometheus stay private'', policies l)],
      suite_cleanup = None\<rparr>"

subsection \<open>The job of the retention check is deleted\<close>

fun job_created :: "event \<Rightarrow> string option" where
  "job_created (ResourceCreated kind ns name) = (if kind = ''Job'' then Some name else None)"
| "job_created _ = None"

fun job_deleted :: "event \<Rightarrow> string option" where
  "job_deleted (ResourceDeleted kind ns name) = (if kind = ''Job'' then Some name else None)"
| "job_deleted _ = None"

definition balanced :: "'k world \<Rightarrow> 'k world \<Rightarrow> bool" where
  "balanced w w' \<longleftrightarrow> (\<exists>es. trail w' = trail w @ es \<and> List.map_filter job_created es = List.map_filter job_deleted es)"

lemma map_filter_append: "List.map_filter f (xs @ ys) = List.map_filter f xs @ List.map_filter f ys"
  by (simp add: List.map_filter_def)

interpretation tidying: step_rel "balanced :: 'k world \<Rightarrow> 'k world \<Rightarrow> bool"
proof
  fix u v w :: "'k world" assume "balanced u v" and "balanced v w"
  then obtain xs ys where xs: "trail v = trail u @ xs" "List.map_filter job_created xs = List.map_filter job_deleted xs"
    and ys: "trail w = trail v @ ys" "List.map_filter job_created ys = List.map_filter job_deleted ys"
    unfolding balanced_def by blast
  then show "balanced u w" unfolding balanced_def by (intro exI [of _ "xs @ ys"]) (simp add: map_filter_append)
qed (simp add: balanced_def List.map_filter_def)

definition jobless :: "event set" where
  "jobless = {ev. job_created ev = None \<and> job_deleted ev = None}"

lemma jobless_members [simp]:
  "ToolStarted tool args \<in> jobless" "TrafficSent s \<in> jobless" "probes_in ns \<subseteq> jobless"
  "kind \<noteq> ''Job'' \<Longrightarrow> ResourceCreated kind ns name \<in> jobless"
  by (auto simp: jobless_def probes_in_def)

lemma balanced_jobless: "steps (only jobless) m \<Longrightarrow> steps balanced m"
proof -
  have "balanced w w'" if jl: "only jobless w w'" for w w' :: "'a world"
  proof -
    obtain es where es: "trail w' = trail w @ es" "set es \<subseteq> jobless" using jl unfolding only_def by blast
    then have "List.map_filter job_created es = []" "List.map_filter job_deleted es = []"
      by (auto simp: List.map_filter_def jobless_def filter_empty_conv)
    with es(1) show ?thesis unfolding balanced_def by auto
  qed
  then show "steps (only jobless) m \<Longrightarrow> steps balanced m" unfolding steps_def by blast
qed

definition creates_jobs :: "'k lab \<Rightarrow> bool" where
  "creates_jobs l \<longleftrightarrow> (\<forall>job args env k. \<exists>k'. create_job l job args env k = (Inr (), k'))"

lemma balanced_cleaner:
  assumes "creates_jobs l"
  shows "steps balanced (run_cleaner l job args)"
proof (rule stepsI)
  fix w r w' assume run: "run_cleaner l job args w = (r, w')"
  obtain w1 where w1: "created ''Job'' NS_OBSERVABILITY job (create_job l job args [(''INDEX_PREFIX'', ''retention-check'')]) w = (Inr (), w1)"
    "trail w1 = trail w @ [ResourceCreated ''Job'' NS_OBSERVABILITY job]"
  proof -
    obtain k' where "create_job l job args [(''INDEX_PREFIX'', ''retention-check'')] (ext w) = (Inr (), k')"
      using assms unfolding creates_jobs_def by blast
    then show thesis using that by (simp add: created_def effect_def call_def)
  qed
  obtain v w2 where w2: "wait_for (client l) (truth (job_done l job)) 180 2 w1 = (v, w2)"
    by (cases "wait_for (client l) (truth (job_done l job)) 180 2 w1")
  have del: "w' = snd (deleted ''Job'' NS_OBSERVABILITY job (delete_job l job) w2)"
    using run w1(1) w2 by (auto simp: run_cleaner_def bindA_def finallyA_def split: prod.splits sum.splits)
  have "steps (only {}) (wait_for (client l) (truth (job_done l job)) 180 2)"
    by (auto simp: job_done_def intro!: only_steps)
  then have "only {} w1 w2" using w2 unfolding steps_def by (metis snd_conv)
  then have "trail w2 = trail w1" by (rule only_trail)
  then have "trail w' = trail w @ [ResourceCreated ''Job'' NS_OBSERVABILITY job, ResourceDeleted ''Job'' NS_OBSERVABILITY job]"
    using w1(2) del by (simp add: deleted_trail)
  then show "balanced w w'" unfolding balanced_def by (auto simp: List.map_filter_def)
qed

lemma balanced_forwarded:
  assumes "\<And>base. steps balanced (body base)"
  shows "steps balanced (forwarded l ns target port body)"
  unfolding forwarded_def forward_def Let_def
  by (intro tidying.steps_intros assms balanced_jobless only_require only_start only_call only_await_port only_terminate) simp

lemma balanced_retention:
  assumes "creates_jobs l"
  shows "steps balanced (retention l)"
proof -
  have listing: "steps balanced (cat_indices l base)" for base
    by (rule balanced_jobless) (auto simp: cat_indices_def intro!: only_steps)
  have calls: "steps balanced (call (today l))" "steps balanced (call (cleaner_args l))" "steps balanced (call (uuid_hex (station l)))"
    by (auto intro!: balanced_jobless only_steps)
  have "steps balanced (clean_throwaway l job args day base)" for job args day base
    unfolding clean_throwaway_def created_def
    by (intro tidying.steps_intros balanced_cleaner assms listing balanced_jobless [OF only_effect] tidying.steps_liftE) simp
  then have "steps balanced (search l (clean_throwaway l job args day))" for job args day
    unfolding search_def by (rule balanced_forwarded)
  then show ?thesis unfolding retention_def Let_def
    by (auto simp: case_prod_beta intro!: tidying.steps_intros calls balanced_jobless [OF only_expect])
qed

lemma jobless_checks:
  "steps (only jobless) (components_ready l)" "steps (only jobless) (stored_and_served l)" "steps (only jobless) (scrape_targets l)"
  "steps (only jobless) (collector_health l)" "steps (only jobless) (policies l)"
proof -
  have counts: "steps (only jobless) (first_samples n l deadline cs)" for n deadline cs
    by (induction n arbitrary: cs) (auto simp: sum_of_def intro!: only_steps)
  have probing: "x \<in> probes_in ns \<Longrightarrow> x \<in> jobless" for x ns using jobless_members(3) by blast
  show "steps (only jobless) (components_ready l)" "steps (only jobless) (stored_and_served l)" "steps (only jobless) (scrape_targets l)"
    "steps (only jobless) (collector_health l)" "steps (only jobless) (policies l)"
    by (auto simp: components_ready_def stored_and_served_def scrape_targets_def collector_health_def policies_def statefulset_ready_def
      deployment_available_def search_def get_page_def place_order_def post_order_def count_spans_def cat_indices_def targets_def sum_of_def
      connection_mismatch_def Let_def intro!: only_steps counts dest: probing split: prod.splits)
qed

text \<open>
  Property C31. A run of the observability suite leaves no job behind: if the API accepts the creation of jobs, the run
  deletes exactly the jobs it created, in the same order, whatever the cleaner does and whatever the checks raise.
\<close>

theorem observability_deletes_its_jobs:
  assumes "creates_jobs l"
  shows "\<exists>es. trail (snd (run_suite (call (monotonic_clock (client l))) t (observability_suite l) w)) = trail w @ es \<and>
    List.map_filter job_created es = List.map_filter job_deleted es"
proof -
  have "steps balanced (run_suite (call (monotonic_clock (client l))) t (observability_suite l))"
    by (intro tidying.steps_run_suite balanced_jobless [OF only_call])
      (auto simp: observability_suite_def intro: balanced_retention [OF assms] balanced_jobless [OF jobless_checks(1)]
        balanced_jobless [OF jobless_checks(2)] balanced_jobless [OF jobless_checks(3)] balanced_jobless [OF jobless_checks(4)]
        balanced_jobless [OF jobless_checks(5)])
  then show ?thesis unfolding steps_def balanced_def by blast
qed

text \<open>A cleaner whose job never succeeds, so that the check ends with a timeout.\<close>

definition stuck_lab :: "real lab" where
  "stuck_lab = blank_lab\<lparr>station := blank_host\<lparr>cluster := quiet_api\<rparr>, job_succeeded := (\<lambda>_. ret None), cleaner_args := ret [''7'']\<rparr>"

theorem observability_deletes_its_jobs_witness:
  "\<exists>es. trail (snd (run_suite (call (monotonic_clock (client stuck_lab))) plain_texts (observability_suite stuck_lab) (empty_world 0))) =
      trail (empty_world (0::real)) @ es \<and>
    List.map_filter job_created es = List.map_filter job_deleted es"
proof -
  have "creates_jobs stuck_lab" by (simp add: creates_jobs_def stuck_lab_def blank_lab_def)
  from observability_deletes_its_jobs [OF this, of plain_texts "empty_world 0"] show ?thesis .
qed

text \<open>
  The index with the throwaway prefix is not looked after in the same way: whatever happens, the check itself
  deletes no index, so one whose job failed stays, and the next run of that day asks for it again.
\<close>

lemma retention_deletes_no_index:
  "steps (only {ev. \<forall>ns name. ev \<noteq> ResourceDeleted ''Index'' ns name}) (retention l)"
  by (auto simp: retention_def search_def clean_throwaway_def run_cleaner_def created_def deleted_def job_done_def cat_indices_def Let_def
    intro!: only_steps split: prod.splits)

end
