(* ===== verification/Suites.thy ===== *)
theory Suites
  imports FoundationSuite SecuritySuite EdgeSuite ResilienceSuite RecoverySuite TracingSuite TelemetrySuite ObservabilitySuite
begin

section \<open>All suites under their names (validation/suites.py)\<close>

text \<open>
  \<open>run_suite(suites.build(name))\<close> for a name of the registry. Whatever the suite, a run that returns has one outcome
  for each of its checks, under its name and in its order.
\<close>

definition run_named :: "'k lab \<Rightarrow> exn_texts \<Rightarrow> string \<Rightarrow> ('k world, check_outcome list) act" where
  "run_named l t name =
     (let plain = run_suite (call (monotonic_clock (client l))) t in
      if name = ''foundation'' then run_foundation l t
      else if name = ''security'' then plain (security_suite l)
      else if name = ''tracing'' then run_tracing l t
      else if name = ''edge'' then run_edge l t
      else if name = ''observability'' then plain (observability_suite l)
      else if name = ''telemetry-pipeline'' then run_telemetry l t
      else if name = ''observability-resilience'' then plain (resilience_suite l)
      else if name = ''recovery'' then plain (recovery_suite l)
      else raise (KeyError name))"

text \<open>The names of the checks of a suite.\<close>

definition check_names :: "'w suite \<Rightarrow> string list" where
  "check_names s = map fst (suite_checks s)"

definition checks_named :: "'k lab \<Rightarrow> exn_texts \<Rightarrow> string \<Rightarrow> string list" where
  "checks_named l t name =
     (if name = ''foundation'' then check_names (foundation_suite l t [])
      else if name = ''security'' then check_names (security_suite l)
      else if name = ''tracing'' then check_names (tracing_suite l)
      else if name = ''edge'' then check_names (edge_suite l [])
      else if name = ''observability'' then check_names (observability_suite l)
      else if name = ''telemetry-pipeline'' then check_names (telemetry_suite l [])
      else if name = ''observability-resilience'' then check_names (resilience_suite l)
      else if name = ''recovery'' then check_names (recovery_suite l)
      else [])"


lemma outcome_named:
  assumes "run_check clock t s (name, f) w = (Inr out, w')"
  shows "outcome_name out = name"
proof -
  have fixed: "outcome_name out = name" if "outcome_of clock s name t0 ok detail v = (Inr out, w')" for t0 ok detail v
    using that unfolding outcome_of_def by (rule bindA_InrE) auto
  obtain t0 w1 where run: "excepting (bindA f (\<lambda>d. outcome_of clock s name t0 True (case d of None \<Rightarrow> [] | Some text \<Rightarrow> text)))
         (\<lambda>e. case e of
            CheckFailed m \<Rightarrow> outcome_of clock s name t0 False m
          | _ \<Rightarrow> bindA (liftE (describe_error t e)) (\<lambda>detail. outcome_of clock s name t0 False detail)) w1 = (Inr out, w')"
    using assms unfolding run_check_def prod.case by (rule bindA_InrE)
  then show ?thesis unfolding excepting_def
  proof (cases rule: catchA_cases)
    case (Handler e w2)
    then show ?thesis using fixed by (cases e) (auto split: if_splits elim!: bindA_InrE)
  qed (auto elim!: bindA_InrE intro: fixed)
qed

lemma outcomes_named: "mapA (run_check clock t s) cs w = (Inr os, w') \<Longrightarrow> map outcome_name os = map fst cs"
proof (induction cs arbitrary: w os)
  case (Cons c cs)
  obtain name f where c: "c = (name, f)" by (cases c)
  obtain out w1 ys where "run_check clock t s c w = (Inr out, w1)" "mapA (run_check clock t s) cs w1 = (Inr ys, w')" "os = out # ys"
    using Cons.prems by (auto elim!: bindA_InrE)
  then show ?case using Cons.IH outcome_named unfolding c by fastforce
qed simp

lemma suite_named: "run_suite clock t s w = (Inr os, w') \<Longrightarrow> map outcome_name os = check_names s"
  unfolding run_suite_def check_names_def finallyA_def
  by (auto dest: outcomes_named split: prod.splits sum.splits)

lemma run_with_named: "run_with l t m s w = (Inr os, w') \<Longrightarrow> map outcome_name os = check_names s"
  unfolding run_with_def with_memory_def by (auto dest: suite_named split: prod.splits)

text \<open>The names do not depend on the identifiers drawn for a run.\<close>

lemma check_names_fixed:
  "check_names (foundation_suite l t ns) = check_names (foundation_suite l t [])"
  "check_names (edge_suite l route) = check_names (edge_suite l [])"
  "check_names (telemetry_suite l rid) = check_names (telemetry_suite l [])"
  by (simp_all add: check_names_def foundation_suite_def edge_suite_def telemetry_suite_def pipeline_checks_def)

lemma named_outcomes: "run_named l t name w = (Inr os, w') \<Longrightarrow> map outcome_name os = checks_named l t name"
  unfolding run_named_def checks_named_def Let_def
  by (auto simp: run_foundation_def run_tracing_def run_edge_def run_telemetry_def check_names_fixed(1) [of _ _ "_ @ _"]
    dest!: suite_named run_with_named elim!: bindA_InrE split: if_splits)
   (simp_all add: check_names_def foundation_suite_def edge_suite_def telemetry_suite_def pipeline_checks_def)

end
