(* ===== verification/Status.thy ===== *)
theory Status
  imports SuiteLaws FoundationSuite Times
begin

section \<open>What the operator sees (status.py, console.py, and ui of platform_cli.py)\<close>

text \<open>
  \<open>platformctl status\<close> only looks; what it prints is kept, one line per call of \<open>console\<close>, in the first part of the
  state. \<open>platformctl ui\<close> forwards a port until Ctrl+C; its loop has no end of its own, so it is bounded by the number of
  seconds after which the operator has interrupted it.
\<close>

datatype line = Step string | Info string | Okay string | Warning string | Failure string

definition printed :: "line \<Rightarrow> string" where
  "printed out =
     (case out of
        Step m \<Rightarrow> ''==> '' @ m
      | Info m \<Rightarrow> ''    '' @ m
      | Okay m \<Rightarrow> ''[ OK ] '' @ m
      | Warning m \<Rightarrow> ''[WARN] '' @ m
      | Failure m \<Rightarrow> ''[FAIL] '' @ m)"

definition to_stderr :: "line \<Rightarrow> bool" where
  "to_stderr out = (case out of Failure _ \<Rightarrow> True | _ \<Rightarrow> False)"

type_synonym 'k screen = "line list \<times> 'k world"

definition say :: "line \<Rightarrow> ('k screen, unit) act" where
  "say out = modW (\<lambda>(ls, w). (ls @ [out], w))"

text \<open>\<open>{text:<n}\<close> of a text, and of a value of a JSON document: lists, objects and null have no such format.\<close>

definition pad_right :: "nat \<Rightarrow> string \<Rightarrow> string" where
  "pad_right n s = s @ replicate (n - length s) CHR '' ''"

definition padded :: "nat \<Rightarrow> pyval \<Rightarrow> string result" where
  "padded n v =
     (case v of
        PNone \<Rightarrow> Inl TypeError
      | PList _ \<Rightarrow> Inl TypeError
      | PDict _ \<Rightarrow> Inl TypeError
      | PBool b \<Rightarrow> Inr (pad_right n (if b then ''1'' else ''0''))
      | _ \<Rightarrow> Inr (pad_right n (py_str v)))"

subsection \<open>The sections of the overview\<close>

definition show_node :: "node_view \<Rightarrow> ('k screen, unit) act" where
  "show_node n =
     bindA (liftE (node_is_ready n)) (\<lambda>ready.
     say (Info (pad_right 28 (node_name n) @ '' '' @ pad_right 9 (if ready then ''Ready'' else ''NotReady'') @ '' '' @ kubelet_version n)))"

definition show_namespace :: "'k lab \<Rightarrow> string \<Rightarrow> ('k screen, unit) act" where
  "show_namespace l ns =
     bindA (inner (namespace_exists (station l) ns)) (\<lambda>there.
       if \<not> there then say (Info (pad_right 22 ns @ '' missing''))
       else
         bindA (inner (call (read_namespace (station l) ns))) (\<lambda>found.
         let labels = (case found of None \<Rightarrow> [] | Some ls \<Rightarrow> ls);
             level = (case dict_get labels ''pod-security.kubernetes.io/enforce'' of None \<Rightarrow> ''-'' | Some v \<Rightarrow> v) in
         say (Info (pad_right 22 ns @ '' pod-security='' @ level))))"

definition release_line :: "pyval \<Rightarrow> string result" where
  "release_line rel =
     bindE (bindE (py_item rel ''name'') (padded 24)) (\<lambda>name.
     bindE (bindE (py_item rel ''namespace'') (padded 22)) (\<lambda>ns.
     bindE (bindE (py_item rel ''status'') (padded 10)) (\<lambda>status.
     bindE (py_item rel ''chart'') (\<lambda>chart.
     Inr (name @ '' '' @ ns @ '' '' @ status @ '' '' @ py_str chart)))))"

definition show_releases :: "'k lab \<Rightarrow> ('k screen, unit) act" where
  "show_releases l =
     bindA (inner (list_releases (station l))) (\<lambda>releases.
     bindA (liftE (py_iter releases)) (\<lambda>rs.
     forA rs (\<lambda>r. bindA (liftE (release_line r)) (\<lambda>text. say (Info text)))))"

definition workload_line :: "string \<Rightarrow> string \<Rightarrow> nat \<Rightarrow> replica_view \<Rightarrow> line" where
  "workload_line ns kind width v =
     Info (pad_right 22 ns @ CHR '' '' # kind @ CHR ''/'' # pad_right width (replicas_of v) @ '' '' @
       show_int (or0 (replicas_ready v)) @ CHR ''/'' # show_int (or0 (replicas_wanted v)) @ '' ready'')"

definition show_workloads :: "'k lab \<Rightarrow> string \<Rightarrow> ('k screen, unit) act" where
  "show_workloads l ns =
     bindA (inner (namespace_exists (station l) ns)) (\<lambda>there.
       if \<not> there then ret ()
       else
         bindA (inner (call (deployment_replicas l ns))) (\<lambda>ds.
         bindA (forA ds (\<lambda>d. say (workload_line ns ''deploy'' 30 d))) (\<lambda>_.
         bindA (inner (call (stateful_replicas l ns))) (\<lambda>ss.
         forA ss (\<lambda>s. say (workload_line ns ''sts'' 33 s))))))"

definition time_of_day :: "real \<Rightarrow> string" where
  "time_of_day t = (let s = nat (\<lfloor>t\<rfloor> mod 86400) in clock_text (s div 3600) (s div 60 mod 60) (s mod 60))"

definition lock_line :: "lease_state option \<Rightarrow> real \<Rightarrow> line" where
  "lock_line lock now =
     (case lock of
        None \<Rightarrow> Info ''experiment lock: free''
      | Some st \<Rightarrow>
          Info (''experiment lock: held for '' @ ls_purpose st @ '' by '' @ ls_holder st @ '', renewed '' @
            time_of_day (ls_renewed_at st) @ '' UTC'' @ (if is_expired st now then '' (expired, may be taken over)'' else [])))"

definition runs_line :: "run_record list \<Rightarrow> line" where
  "runs_line unrestored =
     (if unrestored \<noteq> []
      then Warning (''runs that were not restored (run `scenarioctl reset`): '' @ join '', '' (map run_ident unrestored))
      else Info ''every recorded run was restored'')"

definition show_experiments :: "'k lab \<Rightarrow> ('k screen, unit) act" where
  "show_experiments l =
     bindA (inner (namespace_exists (station l) NS_APP)) (\<lambda>there.
     bindA (if there then inner (current_lock (client l)) else ret None) (\<lambda>lock.
     bindA (if lock = None then ret 0 else inner (call (wall_clock (client l)))) (\<lambda>now.
     bindA (say (lock_line lock now)) (\<lambda>_.
     bindA (inner (getW unrestored_runs)) (\<lambda>rs. say (runs_line rs))))))"

definition show_certificate :: "'k lab \<Rightarrow> ('k screen, unit) act" where
  "show_certificate l =
     (let pki = local_state_dir (station l) @ ''/pki/'' in
      bindA (inner (call (is_file (station l) (pki @ ''tls.crt'')))) (\<lambda>there.
        if \<not> there then ret ()
        else
          bindA (inner (call (read_bytes (station l) (pki @ ''tls.crt'')))) (\<lambda>pem.
          bindA (liftE (view_certificate (station l) pem)) (\<lambda>cert.
          bindA (inner (call (wall_clock (client l)))) (\<lambda>now.
          bindA (say (Step ''Certificates'')) (\<lambda>_.
          say (Info (''server certificate valid for '' @ show_int \<lfloor>(cv_not_after cert - now) / 86400\<rfloor> @
            '' more days (CA: '' @ pki @ ''ca.crt)''))))))))"

text \<open>The first use of \<open>kube.clients\<close> in a process checks the context; the later ones are cached.\<close>

definition clients :: "'k lab \<Rightarrow> ('k world, unit) act" where
  "clients l = guard (station l)"

definition status_show :: "'k lab \<Rightarrow> ('k screen, bool) act" where
  "status_show l =
     bindA (inner (cluster_exists (station l))) (\<lambda>there.
       if \<not> there
       then bindA (say (Warning (''kind cluster '' @ CHR 0x27 # CLUSTER_NAME @ CHR 0x27 # '' does not exist; run `platformctl bootstrap`''))) (\<lambda>_.
         ret False)
       else
         bindA (inner (guard (station l))) (\<lambda>_.
         bindA (inner (clients l)) (\<lambda>_.
         bindA (say (Step ''Nodes'')) (\<lambda>_.
         bindA (bindA (inner (call (node_items l))) (\<lambda>nodes. forA nodes show_node)) (\<lambda>_.
         bindA (say (Step ''Namespaces'')) (\<lambda>_.
         bindA (forA PLATFORM_NAMESPACES (show_namespace l)) (\<lambda>_.
         bindA (say (Step ''Helm releases'')) (\<lambda>_.
         bindA (show_releases l) (\<lambda>_.
         bindA (say (Step ''Workloads'')) (\<lambda>_.
         bindA (forA PLATFORM_NAMESPACES (show_workloads l)) (\<lambda>_.
         bindA (say (Step ''Experiments'')) (\<lambda>_.
         bindA (show_experiments l) (\<lambda>_.
         bindA (show_certificate l) (\<lambda>_. ret True))))))))))))))"

subsection \<open>A user interface on a local port\<close>

definition UI_TARGETS :: "(string, string \<times> string \<times> int \<times> int \<times> string) dict" where
  "UI_TARGETS =
     [(''jaeger'', (NS_OBSERVABILITY, ''svc/jaeger-query'', 16686, 16686, ''/search'')),
      (''prometheus'', (NS_OBSERVABILITY, ''svc/prometheus-server'', 9090, 9090, ''/targets''))]"

text \<open>\<open>while True: time.sleep(1)\<close>, for at most so many seconds.\<close>

fun sleep_on :: "nat \<Rightarrow> 'k api \<Rightarrow> ('k world, unit) act" where
  "sleep_on 0 a = raise TimeoutError"
| "sleep_on (Suc n) a = bindA (call (sleep_for a 1)) (\<lambda>_. sleep_on n a)"

definition until_interrupted :: "nat \<Rightarrow> 'k api \<Rightarrow> ('k world, unit) act" where
  "until_interrupted n a = catchA (sleep_on n a) (\<lambda>e. if e = KeyboardInterrupt then ret () else raise e)"

definition open_ui :: "nat \<Rightarrow> 'k lab \<Rightarrow> string \<Rightarrow> int \<Rightarrow> ('k world, int) act" where
  "open_ui n l name port =
     bindA (liftE (case dict_get UI_TARGETS name of None \<Rightarrow> Inl (KeyError name) | Some t \<Rightarrow> Inr t)) (\<lambda>(ns, target, remote_port, local_port, path).
     bindA (forward (station l) (rounds l) ns target remote_port (if port \<noteq> 0 then port else local_port) 30
              (\<lambda>_. until_interrupted n (client l))) (\<lambda>_.
     ret 0))"

subsection \<open>Looking only adds lines\<close>

text \<open>Between two states of the screen, lines were added and only the given programs were started.\<close>

definition looking :: "event set \<Rightarrow> 'k screen \<Rightarrow> 'k screen \<Rightarrow> bool" where
  "looking evs s s' \<longleftrightarrow> only evs (snd s) (snd s') \<and> prefix (fst s) (fst s')"

interpretation look: step_rel "looking evs :: 'k screen \<Rightarrow> 'k screen \<Rightarrow> bool"
  by unfold_locales (auto simp: looking_def intro: few.step_refl few.step_trans prefix_order.trans)

lemma look_say: "steps (looking evs) (say out)"
  by (auto simp: steps_def say_def modW_def looking_def intro: few.step_refl)

lemma look_inner: "steps (only evs) m \<Longrightarrow> steps (looking evs) (inner m)"
  by (auto simp: steps_def inner_def looking_def split: prod.splits) (metis snd_conv)

lemma only_reads: "steps (only evs) (getW f)"
  by (auto simp: steps_def getW_def intro: few.step_refl)

lemma only_current_lock: "steps (only evs) (current_lock a)"
  by (auto simp: current_lock_def read_lock_def intro!: only_steps split: option.splits)

lemma only_there: "steps (only evs) (namespace_exists h ns)"
  by (auto simp: namespace_exists_def intro!: only_steps)

text \<open>The programs \<open>status\<close> starts, and the one \<open>ui\<close> starts.\<close>

definition status_programs :: "event set" where
  "status_programs =
     {ToolStarted ''kind'' [''get'', ''clusters''],
      ToolStarted ''kubectl''
        [''config'', ''view'', ''--minify'', ''--context'', CONTEXT, ''-o'', ''jsonpath={.clusters[0].cluster.server}''],
      ToolStarted ''helm'' (helm_args [''list'', ''--all-namespaces'', ''-o'', ''json''])}"

definition ui_programs :: "event set" where
  "ui_programs = {ev. \<exists>ns target remote_port local_port. ev = ToolStarted ''kubectl'' (forward_args ns target remote_port local_port)}"

lemma only_cluster_exists: "steps (only status_programs) (cluster_exists h)"
  by (auto simp: cluster_exists_def status_programs_def intro!: only_steps)

lemma only_guard: "steps (only status_programs) (guard h)"
  by (auto simp: guard_def context_server_def status_programs_def Let_def intro!: only_steps)

lemma only_releases: "steps (only status_programs) (list_releases h)"
  by (auto simp: list_releases_def helm_def status_programs_def intro!: only_steps)

lemmas look_steps = look.steps_intros look_say look_inner only_reads only_current_lock only_there only_cluster_exists only_guard
  only_releases only_call

lemma status_sections:
  "steps (looking status_programs) (show_node n)" "steps (looking status_programs) (show_namespace l ns)"
  "steps (looking status_programs) (show_releases l)" "steps (looking status_programs) (show_workloads l ns)"
  "steps (looking status_programs) (show_experiments l)" "steps (looking status_programs) (show_certificate l)"
  by (auto simp: show_node_def show_namespace_def show_releases_def show_workloads_def show_experiments_def show_certificate_def
    Let_def intro!: look_steps)

lemma status_looks: "steps (looking status_programs) (status_show l)"
  by (auto simp: status_show_def clients_def intro!: look_steps status_sections)

lemma ui_looks: "steps (only ui_programs) (open_ui n l name port)"
proof -
  have "steps (only ui_programs) (sleep_on n a)" for a :: "'a api"
    by (induction n) (auto intro!: only_steps)
  then show ?thesis
    by (auto simp: open_ui_def forward_def until_interrupted_def Let_def ui_programs_def case_prod_beta intro!: only_steps)
qed

text \<open>The section on experiments ends with the lock and with the runs that were not restored.\<close>

lemma experiments_reported:
  assumes "show_experiments l (ls, w) = (Inr (), (ls', w'))"
  shows "\<exists>lock now. ls' = ls @ [lock_line lock now, runs_line (unrestored_runs w')]"
  using assms
  by (auto simp: show_experiments_def say_def modW_def inner_def getW_def split: prod.splits if_splits elim!: bindA_InrE) blast+

subsection \<open>Ctrl+C ends the user interface\<close>

text \<open>Ctrl+C comes in the second after m whole seconds.\<close>

fun interrupted :: "nat \<Rightarrow> 'k api \<Rightarrow> 'k world \<Rightarrow> 'k world \<Rightarrow> bool" where
  "interrupted 0 a w w' = (call (sleep_for a 1) w = (Inl KeyboardInterrupt, w'))"
| "interrupted (Suc m) a w w' = (\<exists>w1. call (sleep_for a 1) w = (Inr (), w1) \<and> interrupted m a w1 w')"

lemma sleep_interrupted: "interrupted m a w w' \<Longrightarrow> m < n \<Longrightarrow> sleep_on n a w = (Inl KeyboardInterrupt, w')"
proof (induction m arbitrary: n w)
  case 0
  then show ?case by (cases n) (auto simp: bindA_Inl)
next
  case (Suc m)
  then obtain n' where "n = Suc n'" "m < n'" by (cases n) auto
  with Suc show ?case by (auto simp: bindA_Inr)
qed

text \<open>However long the operator waits, the interface is closed normally, and any larger bound gives the same result.\<close>

lemma interface_ends: "interrupted m a w w' \<Longrightarrow> m < n \<Longrightarrow> until_interrupted n a w = (Inr (), w')"
  by (simp add: until_interrupted_def catchA_def sleep_interrupted)

end
