(* ===== verification/Catalog.thy ===== *)
theory Catalog
  imports Host Readonly
begin

section \<open>The scenario definitions (scenarios/catalog.py)\<close>

text \<open>
  Every file \<open>scenarios/<id>.yaml\<close> is one scenario. Reading YAML is a function of the host, and turning its
  document into the typed fields of a scenario is pydantic's: \<open>typed\<close> gives \<open>None\<close> where a value has the
  wrong type or an unknown name. Then the constraints of the schema are checked.
\<close>

definition parse_scenario :: "'k host \<Rightarrow> (pyval \<Rightarrow> scenario option) \<Rightarrow> string \<Rightarrow> scenario result" where
  "parse_scenario h typed text =
     bindE (parse_yaml h text) (\<lambda>doc.
       case typed doc of
         None \<Rightarrow> Inl CatalogError
       | Some sc \<Rightarrow> if scenario_valid sc then Inr sc else Inl CatalogError)"

text \<open>\<open>glob("*.yaml")\<close> is the part of the listing with one component and this ending; \<open>file.stem\<close> drops it.\<close>

definition scenario_files :: "(string list \<times> bool) list \<Rightarrow> string list" where
  "scenario_files paths =
     sort (map (\<lambda>(parts, _). concat parts) (filter (\<lambda>(parts, _). length parts = 1 \<and> suffix ''.yaml'' (concat parts)) paths))"

definition stem :: "string \<Rightarrow> string" where
  "stem name = (if name = ''.yaml'' then name else take (length name - length ''.yaml'') name)"

definition load_scenario :: "'k host \<Rightarrow> (pyval \<Rightarrow> scenario option) \<Rightarrow> string \<Rightarrow> ('k world, scenario) act" where
  "load_scenario h typed file =
     bindA (call (read_text h (scenarios_dir h @ CHR ''/'' # file))) (\<lambda>text.
     bindA (liftE (parse_scenario h typed text)) (\<lambda>sc.
       if scenario_id sc \<noteq> stem file then raise CatalogError else ret sc))"

definition add_scenario ::
  "'k host \<Rightarrow> (pyval \<Rightarrow> scenario option) \<Rightarrow> (string, scenario) dict \<Rightarrow> string \<Rightarrow> ('k world, (string, scenario) dict) act" where
  "add_scenario h typed scenarios file =
     bindA (load_scenario h typed file) (\<lambda>sc. ret (dict_put (scenario_id sc) sc scenarios))"

definition load_all :: "'k host \<Rightarrow> (pyval \<Rightarrow> scenario option) \<Rightarrow> ('k world, (string, scenario) dict) act" where
  "load_all h typed =
     bindA (call (rglob h (scenarios_dir h))) (\<lambda>paths.
     foldA (add_scenario h typed)
       [] (scenario_files paths))"

definition catalog_get :: "'k host \<Rightarrow> (pyval \<Rightarrow> scenario option) \<Rightarrow> string \<Rightarrow> ('k world, scenario) act" where
  "catalog_get h typed name =
     bindA (load_all h typed) (\<lambda>scenarios.
       case dict_get scenarios name of None \<Rightarrow> raise CatalogError | Some sc \<Rightarrow> ret sc)"

subsection \<open>What the catalog hands out is valid\<close>

lemma load_scenarioD:
  "load_scenario h typed file w = (Inr sc, w') \<Longrightarrow> scenario_valid sc \<and> scenario_id sc = stem file"
  unfolding load_scenario_def
  by (auto elim!: bindA_cases simp: parse_scenario_def bindE_Inr_iff split: if_splits option.splits)

lemma add_scenario_Inr:
  "add_scenario h typed scs file w = (Inr scs', w') \<Longrightarrow>
   \<exists>sc. load_scenario h typed file w = (Inr sc, w') \<and> scs' = dict_put (scenario_id sc) sc scs"
  by (auto simp: add_scenario_def elim!: bindA_cases)

definition valid_catalog :: "(string, scenario) dict \<Rightarrow> bool" where
  "valid_catalog scs \<longleftrightarrow> (\<forall>name sc. dict_get scs name = Some sc \<longrightarrow> scenario_valid sc \<and> scenario_id sc = name)"

lemma add_all_valid:
  "foldA (add_scenario h typed) scs0 fs w = (Inr scs, w') \<Longrightarrow> valid_catalog scs0 \<Longrightarrow> valid_catalog scs"
proof (induction fs arbitrary: scs0 w)
  case (Cons f fs)
  from Cons.prems(1) obtain scs1 w1 where one: "add_scenario h typed scs0 f w = (Inr scs1, w1)"
    and rest: "foldA (add_scenario h typed) scs1 fs w1 = (Inr scs, w')"
    by (auto elim: bindA_cases)
  obtain sc where sc: "load_scenario h typed f w = (Inr sc, w1)" "scs1 = dict_put (scenario_id sc) sc scs0"
    using add_scenario_Inr [OF one] by blast
  have "valid_catalog scs1"
    using load_scenarioD [OF sc(1)] Cons.prems(2) by (auto simp: sc(2) valid_catalog_def dict_get_put split: if_splits)
  with rest show ?case by (rule Cons.IH)
qed simp

lemma load_all_valid:
  assumes "load_all h typed w = (Inr scs, w')"
  shows "valid_catalog scs"
proof -
  obtain paths w1 where "foldA (add_scenario h typed) [] (scenario_files paths) w1 = (Inr scs, w')"
    using assms unfolding load_all_def by (auto elim: bindA_cases)
  then show ?thesis by (rule add_all_valid) (simp add: valid_catalog_def)
qed

lemma catalog_getD:
  "catalog_get h typed name w = (Inr sc, w') \<Longrightarrow> scenario_valid sc \<and> scenario_id sc = name"
  unfolding catalog_get_def
  by (auto elim!: bindA_cases dest!: load_all_valid simp: valid_catalog_def split: option.splits)

lemma only_catalog_get: "steps (only {}) (catalog_get h typed name)"
  by (auto simp: catalog_get_def load_all_def add_scenario_def load_scenario_def intro!: few.steps_intros only_call
    split: option.splits)

lemma looks_catalog_get: "steps unchanged (catalog_get h typed name)"
  by (auto simp: catalog_get_def load_all_def add_scenario_def load_scenario_def intro!: look.steps_intros
    split: option.splits)

end
