(* ===== verification/Cli.thy ===== *)
theory Cli
  imports Suites Status Catalog
begin

section \<open>The command lines (scenario_cli.py, platform_cli.py)\<close>

text \<open>
  The parsed arguments of the two programs are values of a datatype, and a handler is an action that
  returns an exit code. What is printed is dropped. The interleaving of the Kubernetes actions of the nth
  repetition of a run is \<open>scheds n\<close>; \<open>patience\<close> bounds the seconds an operator keeps a user interface open.
\<close>

datatype scenario_command =
    ListScenarios
  | ShowScenario string
  | RunScenario string int bool
  | VerifyRun "string option"
  | ReportRun "string option"
  | ResetPlatform bool

datatype platform_command =
    Preflight
  | Bootstrap bool
  | Deploy "string list"
  | Validate "string list"
  | ShowStatus
  | OpenUi string int
  | Destroy bool

subsection \<open>scenarioctl\<close>

definition cmd_list :: "'k host \<Rightarrow> (pyval \<Rightarrow> scenario option) \<Rightarrow> ('k world, int) act" where
  "cmd_list h typing = bindA (load_all h typing) (\<lambda>_. ret 0)"

definition cmd_show :: "'k host \<Rightarrow> (pyval \<Rightarrow> scenario option) \<Rightarrow> string \<Rightarrow> ('k world, int) act" where
  "cmd_show h typing name = bindA (catalog_get h typing name) (\<lambda>_. ret 0)"

text \<open>The bits of the codes of all repetitions are collected.\<close>

definition run_once :: "'k host \<Rightarrow> nat list \<times> nat list \<Rightarrow> scenario \<Rightarrow> bool \<Rightarrow> ('k world, int) act" where
  "run_once h sched sc skip_telemetry =
     bindA (run (cluster h) sched sc (\<not> skip_telemetry)) (\<lambda>r. ret (if run_status r = Passed then 0 else 1))"

definition add_run :: "'k host \<Rightarrow> (nat \<Rightarrow> nat list \<times> nat list) \<Rightarrow> scenario \<Rightarrow> bool \<Rightarrow> int \<Rightarrow> nat \<Rightarrow> ('k world, int) act" where
  "add_run h scheds sc skip_telemetry exit_code n =
     bindA (run_once h (scheds n) sc skip_telemetry) (\<lambda>c. ret (or exit_code c))"

definition cmd_run ::
  "'k host \<Rightarrow> (pyval \<Rightarrow> scenario option) \<Rightarrow> (nat \<Rightarrow> nat list \<times> nat list) \<Rightarrow> string \<Rightarrow> int \<Rightarrow> bool \<Rightarrow> ('k world, int) act" where
  "cmd_run h typing scheds name repeat skip_telemetry =
     bindA (catalog_get h typing name) (\<lambda>sc.
     foldA (add_run h scheds sc skip_telemetry) 0 [0..<nat repeat])"

text \<open>\<open>args.run or records.latest_run_id()\<close>.\<close>

definition chosen_run :: "string option \<Rightarrow> ('k world, string option) act" where
  "chosen_run arg =
     (if arg \<noteq> None \<and> arg \<noteq> Some [] then ret arg else getW (\<lambda>w. latest_run_id (dict_keys (record_files w)) None))"

definition application_part :: "run_record \<Rightarrow> run_record" where
  "application_part r = r\<lparr>checks := filter (\<lambda>c. check_layer c \<noteq> TelemetryLayer) (checks r)\<rparr>"

definition decided :: "run_record \<Rightarrow> run_record" where
  "decided r = r\<lparr>run_status := (if passed r then Passed else Failed)\<rparr>"

definition cmd_verify :: "'k host \<Rightarrow> (pyval \<Rightarrow> scenario option) \<Rightarrow> string option \<Rightarrow> ('k world, int) act" where
  "cmd_verify h typing arg =
     bindA (chosen_run arg) (\<lambda>chosen.
       case chosen of
         None \<Rightarrow> ret 1
       | Some rid \<Rightarrow>
           bindA (load rid) (\<lambda>r.
           bindA (catalog_get h typing (run_scenario r)) (\<lambda>sc.
           bindA (verify (cluster h) sc (application_part r)) (\<lambda>r'.
           bindA (save_record (decided r')) (\<lambda>_.
           ret (if run_status (decided r') = Passed then 0 else 1))))))"

definition cmd_report :: "string option \<Rightarrow> ('k world, int) act" where
  "cmd_report arg =
     bindA (chosen_run arg) (\<lambda>chosen.
       case chosen of None \<Rightarrow> ret 1 | Some rid \<Rightarrow> bindA (load rid) (\<lambda>_. ret 0))"

definition cmd_reset :: "'k host \<Rightarrow> bool \<Rightarrow> ('k world, int) act" where
  "cmd_reset h force = bindA (reset (cluster h) force) (\<lambda>_. ret 0)"

definition scenario_handler ::
  "'k host \<Rightarrow> (pyval \<Rightarrow> scenario option) \<Rightarrow> (nat \<Rightarrow> nat list \<times> nat list) \<Rightarrow> scenario_command \<Rightarrow> ('k world, int) act" where
  "scenario_handler h typing scheds command =
     (case command of
        ListScenarios \<Rightarrow> cmd_list h typing
      | ShowScenario name \<Rightarrow> cmd_show h typing name
      | RunScenario name repeat skip \<Rightarrow> cmd_run h typing scheds name repeat skip
      | VerifyRun arg \<Rightarrow> cmd_verify h typing arg
      | ReportRun arg \<Rightarrow> cmd_report arg
      | ResetPlatform force \<Rightarrow> cmd_reset h force)"

text \<open>Ctrl+C is exit code 130, any other exception is 1.\<close>

definition scenario_main ::
  "'k host \<Rightarrow> (pyval \<Rightarrow> scenario option) \<Rightarrow> (nat \<Rightarrow> nat list \<times> nat list) \<Rightarrow> scenario_command \<Rightarrow> ('k world, int) act" where
  "scenario_main h typing scheds command =
     catchA (scenario_handler h typing scheds command) (\<lambda>e. ret (if is_exception e then 1 else 130))"

subsection \<open>platformctl\<close>

definition cmd_preflight :: "'k host \<Rightarrow> ('k world, int) act" where
  "cmd_preflight h =
     bindA (host_preflight h) (\<lambda>findings. ret (if list_ex (\<lambda>f. level_of f = Fail) findings then 1 else 0))"

text \<open>Without the namespace of the lock there is nothing an experiment could run on.\<close>

definition platform_lock :: "'k host \<Rightarrow> string \<Rightarrow> ('k world, 'a) act \<Rightarrow> ('k world, 'a) act" where
  "platform_lock h purpose m =
     bindA (cluster_exists h) (\<lambda>there.
     bindA (if there then namespace_exists h NS_APP else ret False) (\<lambda>lockable.
       if lockable then held (cluster h) purpose m else m))"

definition run_suites :: "'k lab \<Rightarrow> exn_texts \<Rightarrow> string list \<Rightarrow> ('k world, int) act" where
  "run_suites l t names =
     catchA
       (bindA (platform_lock (station l) (''validation of '' @ join '', '' names) (mapA (run_named l t) names)) (\<lambda>outcomes.
        ret (if summarize (concat outcomes) then 0 else 1)))
       (\<lambda>e. case e of LockHeldError _ _ \<Rightarrow> ret 1 | _ \<Rightarrow> raise e)"

definition cmd_bootstrap :: "'k lab \<Rightarrow> exn_texts \<Rightarrow> bool \<Rightarrow> ('k world, int) act" where
  "cmd_bootstrap l t skip_validation =
     bindA (platform_lock (station l) ''bootstrap'' (bootstrap (station l))) (\<lambda>done.
       if \<not> done then ret 1
       else if skip_validation then ret 0
       else run_suites l t smoke_suite_names)"

definition cmd_deploy :: "'k host \<Rightarrow> string list \<Rightarrow> ('k world, int) act" where
  "cmd_deploy h chosen_names =
     bindA (platform_lock h ''deployment'' (deploy h (if chosen_names = [] then component_names else chosen_names))) (\<lambda>_. ret 0)"

definition cmd_validate :: "'k lab \<Rightarrow> exn_texts \<Rightarrow> string list \<Rightarrow> ('k world, int) act" where
  "cmd_validate l t chosen_names = run_suites l t (if chosen_names = [] then default_suite_names else chosen_names)"

definition cmd_status :: "'k lab \<Rightarrow> ('k world, int) act" where
  "cmd_status l = bindA (with_memory [] (status_show l)) (\<lambda>shown. ret (if shown then 0 else 1))"

definition cmd_destroy :: "'k host \<Rightarrow> bool \<Rightarrow> ('k world, int) act" where
  "cmd_destroy h purge = bindA (destroy h purge) (\<lambda>_. ret 0)"

definition platform_handler :: "nat \<Rightarrow> 'k lab \<Rightarrow> exn_texts \<Rightarrow> platform_command \<Rightarrow> ('k world, int) act" where
  "platform_handler patience l t command =
     (case command of
        Preflight \<Rightarrow> cmd_preflight (station l)
      | Bootstrap skip \<Rightarrow> cmd_bootstrap l t skip
      | Deploy chosen_names \<Rightarrow> cmd_deploy (station l) chosen_names
      | Validate chosen_names \<Rightarrow> cmd_validate l t chosen_names
      | ShowStatus \<Rightarrow> cmd_status l
      | OpenUi name port \<Rightarrow> open_ui patience l name port
      | Destroy purge \<Rightarrow> cmd_destroy (station l) purge)"

definition platform_main :: "nat \<Rightarrow> 'k lab \<Rightarrow> exn_texts \<Rightarrow> platform_command \<Rightarrow> ('k world, int) act" where
  "platform_main patience l t command =
     catchA (platform_handler patience l t command) (\<lambda>e. ret (if is_exception e then 1 else 130))"

subsection \<open>The exit code of a run\<close>

lemma or_code: "c \<in> {0, 1} \<Longrightarrow> d \<in> {0, 1} \<Longrightarrow> or c d = (if c = 0 \<and> d = 0 then 0 else (1 :: int))"
  by auto

lemma add_run_Inr:
  "add_run h scheds sc skip c n w = (Inr code, w') \<Longrightarrow>
   \<exists>r. run (cluster h) (scheds n) sc (\<not> skip) w = (Inr r, w') \<and> code = or c (if run_status r = Passed then 0 else 1)"
  by (auto simp: add_run_def run_once_def elim!: bindA_cases)

lemma add_run_step:
  "run (cluster h) (scheds n) sc (\<not> skip) w = (Inr r, w') \<Longrightarrow>
   add_run h scheds sc skip c n w = (Inr (or c (if run_status r = Passed then 0 else 1)), w')"
  by (simp add: add_run_def run_once_def bindA_Inr)

lemma collected_codes:
  assumes "foldA (add_run h scheds sc skip) c0 ns w = (Inr code, w')"
    and "c0 \<in> {0, 1}"
  shows "\<exists>rs. mapA (\<lambda>n. run (cluster h) (scheds n) sc (\<not> skip)) ns w = (Inr rs, w') \<and>
    code = (if c0 = 0 \<and> list_all (\<lambda>r. run_status r = Passed) rs then 0 else 1)"
  using assms
proof (induction ns arbitrary: c0 w)
  case (Cons n ns)
  from Cons.prems(1) obtain c w1 where one: "add_run h scheds sc skip c0 n w = (Inr c, w1)"
    and rest: "foldA (add_run h scheds sc skip) c ns w1 = (Inr code, w')"
    by (auto elim: bindA_cases)
  obtain r where r: "run (cluster h) (scheds n) sc (\<not> skip) w = (Inr r, w1)" "c = or c0 (if run_status r = Passed then 0 else 1)"
    using add_run_Inr [OF one] by blast
  have c: "c = (if c0 = 0 \<and> run_status r = Passed then 0 else 1)"
    unfolding r(2) using Cons.prems(2) by (subst or_code) auto
  then have "c \<in> {0, 1}" by auto
  from Cons.IH [OF rest this] obtain rs where "mapA (\<lambda>n. run (cluster h) (scheds n) sc (\<not> skip)) ns w1 = (Inr rs, w')"
    and "code = (if c = 0 \<and> list_all (\<lambda>r. run_status r = Passed) rs then 0 else 1)" by blast
  then show ?case using r(1) by (intro exI [of _ "r # rs"]) (simp add: bindA_Inr c)
qed auto

lemma passed_codes:
  assumes "mapA (\<lambda>n. run (cluster h) (scheds n) sc (\<not> skip)) ns w = (Inr rs, w')" and "\<forall>r \<in> set rs. run_status r = Passed"
  shows "foldA (add_run h scheds sc skip) 0 ns w = (Inr 0, w')"
  using assms
proof (induction ns arbitrary: rs w)
  case (Cons n ns)
  then obtain r w1 rs' where one: "run (cluster h) (scheds n) sc (\<not> skip) w = (Inr r, w1)" "run_status r = Passed"
    and rest: "mapA (\<lambda>n. run (cluster h) (scheds n) sc (\<not> skip)) ns w1 = (Inr rs', w')" "\<forall>r \<in> set rs'. run_status r = Passed"
    by (auto elim!: bindA_cases)
  then show ?case using Cons.IH [OF rest] by (simp add: bindA_Inr [OF add_run_step])
qed auto

text \<open>
  Property C16. The exit code can be trusted: \<open>scenarioctl run\<close> ends with 0 exactly when the scenario is a
  valid one of the catalog, every repetition returned its record, and every record has the status passed.
  A repetition that fails is not forgotten when a later one passes.
\<close>

theorem exit_zero_iff_all_passed:
  "scenario_main h typing scheds (RunScenario name repeat skip) w = (Inr 0, w') \<longleftrightarrow>
   (\<exists>sc rs w1. catalog_get h typing name w = (Inr sc, w1) \<and> scenario_valid sc \<and> scenario_id sc = name \<and>
      mapA (\<lambda>n. run (cluster h) (scheds n) sc (\<not> skip)) [0..<nat repeat] w1 = (Inr rs, w') \<and>
      list_all (\<lambda>r. run_status r = Passed) rs)"
proof -
  have "scenario_main h typing scheds (RunScenario name repeat skip) w = (Inr 0, w') \<longleftrightarrow>
    cmd_run h typing scheds name repeat skip w = (Inr 0, w')"
    by (auto simp: scenario_main_def scenario_handler_def catchA_def split: prod.splits sum.splits if_splits)
  also have "\<dots> \<longleftrightarrow> (\<exists>sc rs w1. catalog_get h typing name w = (Inr sc, w1) \<and> scenario_valid sc \<and> scenario_id sc = name \<and>
      mapA (\<lambda>n. run (cluster h) (scheds n) sc (\<not> skip)) [0..<nat repeat] w1 = (Inr rs, w') \<and>
      list_all (\<lambda>r. run_status r = Passed) rs)" (is "_ \<longleftrightarrow> ?rhs")
  proof
    assume "cmd_run h typing scheds name repeat skip w = (Inr 0, w')"
    then obtain sc w1 where sc: "catalog_get h typing name w = (Inr sc, w1)"
      and "foldA (add_run h scheds sc skip) 0 [0..<nat repeat] w1 = (Inr 0, w')"
      unfolding cmd_run_def by (auto elim!: bindA_cases)
    from collected_codes [OF this(2)] sc catalog_getD [OF sc] show ?rhs
      by (auto simp: list_all_iff split: if_splits)
  next
    assume ?rhs
    then obtain sc rs w1 where sc: "catalog_get h typing name w = (Inr sc, w1)"
      and rs: "mapA (\<lambda>n. run (cluster h) (scheds n) sc (\<not> skip)) [0..<nat repeat] w1 = (Inr rs, w')" "\<forall>r \<in> set rs. run_status r = Passed"
      by (auto simp: list_all_iff)
    show "cmd_run h typing scheds name repeat skip w = (Inr 0, w')" using passed_codes [OF rs] sc by (simp add: cmd_run_def bindA_Inr)
  qed
  finally show ?thesis .
qed

subsection \<open>Verifying a recorded run again\<close>

definition telemetry_added :: "run_record \<Rightarrow> run_record \<Rightarrow> bool" where
  "telemetry_added r r' \<longleftrightarrow> (\<exists>cs. (\<forall>c \<in> set cs. check_layer c = TelemetryLayer) \<and> r' = r\<lparr>checks := checks r @ cs\<rparr>)"

lemma telemetry_added_refl: "telemetry_added r r"
  unfolding telemetry_added_def by (intro exI [of _ "[]"]) simp

lemma telemetry_added_trans:
  assumes "telemetry_added r s" and "telemetry_added s t"
  shows "telemetry_added r t"
proof -
  obtain cs ds where "\<forall>c \<in> set cs. check_layer c = TelemetryLayer" "s = r\<lparr>checks := checks r @ cs\<rparr>"
    and "\<forall>c \<in> set ds. check_layer c = TelemetryLayer" "t = s\<lparr>checks := checks s @ ds\<rparr>"
    using assms unfolding telemetry_added_def by blast
  then show ?thesis unfolding telemetry_added_def by (intro exI [of _ "cs @ ds"]) auto
qed

lemma telemetry_add_check: "telemetry_added r (add_check nm ok TelemetryLayer r)"
  unfolding telemetry_added_def add_check_def by (rule exI, rule conjI [rotated], rule refl) simp

lemma telemetry_foldl: "(\<And>r x. telemetry_added r (f r x)) \<Longrightarrow> telemetry_added r (foldl f r xs)"
  by (induction xs arbitrary: r) (auto intro: telemetry_added_refl telemetry_added_trans)

lemma telemetry_report: "telemetry_added r (report_context c r)"
proof -
  let ?r1 = "foldl (\<lambda>r (nm, ps). add_check nm (ps = []) TelemetryLayer r) r (ctx_problems c)"
  let ?r2 = "foldl (\<lambda>r (nm, _). add_check nm True TelemetryLayer r) ?r1 (ctx_notes c)"
  have "telemetry_added r ?r1" by (rule telemetry_foldl) (auto intro: telemetry_add_check split: prod.splits)
  moreover have "telemetry_added ?r1 ?r2" by (rule telemetry_foldl) (auto intro: telemetry_add_check split: prod.splits)
  ultimately have "telemetry_added r ?r2" by (rule telemetry_added_trans)
  then show ?thesis
    by (auto simp: report_context_def Let_def intro: telemetry_added_trans telemetry_add_check)
qed

lemma telemetry_verify: "verify a sc r w = (Inr r', w') \<Longrightarrow> telemetry_added r r'"
  by (auto simp: verify_def Let_def telemetry_report telemetry_added_refl telemetry_add_check
    split: option.splits elim!: bindA_InrE)

text \<open>
  Verifying a recorded run again replaces its telemetry checks and nothing else: the checks of
  the application and everything else in the record are kept, the status is decided by all checks
  together, the exit code says the same, and the only thing that changed is the file of the record.
\<close>

theorem verify_again:
  assumes "dict_get (record_files w) rid = Some r" and "rid \<noteq> []"
    and "cmd_verify h typing (Some rid) w = (Inr code, w')"
  shows "\<exists>cs final. (\<forall>c \<in> set cs. check_layer c = TelemetryLayer) \<and>
    final = decided (r\<lparr>checks := checks (application_part r) @ cs\<rparr>) \<and>
    code = (if passed final then 0 else 1) \<and>
    record_files w' = dict_put (run_ident r) final (record_files w) \<and>
    journal_files w' = journal_files w \<and> trail w' = trail w @ [RecordSaved final]"
proof -
  obtain sc r' w1 w2 where sc: "catalog_get h typing (run_scenario r) w = (Inr sc, w1)"
    and r': "verify (cluster h) sc (application_part r) w1 = (Inr r', w2)"
    and final: "save_record (decided r') w2 = (Inr (), w')" "code = (if run_status (decided r') = Passed then 0 else 1)"
    using assms unfolding cmd_verify_def chosen_run_def load_def by (auto elim!: bindA_InrE)
  have "unchanged w w1" "unchanged w1 w2"
    using stepsD [OF looks_catalog_get sc] stepsD [OF looks_verify r'] by blast+
  then have same: "trail w2 = trail w" "journal_files w2 = journal_files w" "record_files w2 = record_files w"
    by (simp_all add: unchanged_def)
  obtain cs where cs: "\<forall>c \<in> set cs. check_layer c = TelemetryLayer"
    "r' = (application_part r)\<lparr>checks := checks (application_part r) @ cs\<rparr>"
    using telemetry_verify [OF r'] unfolding telemetry_added_def by blast
  then have "r' = r\<lparr>checks := checks (application_part r) @ cs\<rparr>" by (simp add: application_part_def)
  moreover from this have "run_ident (decided r') = run_ident r" by (simp add: decided_def)
  moreover have "code = (if passed (decided r') then 0 else 1)" using final(2) by (auto simp: decided_def passed_def)
  ultimately show ?thesis using cs(1) final(1) same
    by (intro exI [of _ cs] exI [of _ "decided r'"]) (auto simp: save_record_def)
qed

subsection \<open>A busy platform\<close>

definition lock_purpose :: "platform_command \<Rightarrow> string option" where
  "lock_purpose command =
     (case command of
        Bootstrap _ \<Rightarrow> Some ''bootstrap''
      | Deploy _ \<Rightarrow> Some ''deployment''
      | Validate names \<Rightarrow> Some (''validation of '' @ join '', '' (if names = [] then default_suite_names else names))
      | _ \<Rightarrow> None)"

lemma busy_lock:
  assumes "cluster_exists h w = (Inr True, w1)" and "namespace_exists h NS_APP w1 = (Inr True, w2)"
    and "acquire (cluster h) purpose w2 = (Inl e, w3)"
  shows "platform_lock h purpose m w = (Inl e, w3)"
  using assms by (simp add: platform_lock_def bindA_apply held_def)

text \<open>
  A scenario that runs is not disturbed: while another process holds the lock, bootstrapping,
  deploying and validating end with exit code 1, and all they did was to list the clusters and to try to
  create the lease.
\<close>

theorem busy_platform_untouched:
  assumes "lock_purpose command = Some purpose"
    and "cluster_exists (station l) w = (Inr True, w1)" and "namespace_exists (station l) NS_APP w1 = (Inr True, w2)"
    and "acquire (client l) purpose w2 = (Inl (LockHeldError reason holder), w3)"
  shows "platform_main patience l t command w = (Inr 1, w3) \<and>
    only {ToolStarted ''kind'' [''get'', ''clusters''], LeaseWritten (own_identity (client l))} w w3"
proof
  note busy = busy_lock [OF assms(2-4)]
  show "platform_main patience l t command w = (Inr 1, w3)"
  proof (cases command)
    case (Bootstrap skip)
    then show ?thesis using assms(1) busy [of "bootstrap (station l)"]
      by (simp add: lock_purpose_def platform_main_def platform_handler_def cmd_bootstrap_def catchA_def bindA_Inl is_exception_def)
  next
    case (Deploy chosen_names)
    then show ?thesis using assms(1) busy [of "deploy (station l) (if chosen_names = [] then component_names else chosen_names)"]
      by (simp add: lock_purpose_def platform_main_def platform_handler_def cmd_deploy_def catchA_def bindA_Inl is_exception_def)
  next
    case (Validate chosen_names)
    let ?names = "if chosen_names = [] then default_suite_names else chosen_names"
    show ?thesis using assms(1) Validate busy [of "mapA (run_named l t) ?names"]
      by (simp add: lock_purpose_def platform_main_def platform_handler_def cmd_validate_def run_suites_def catchA_def bindA_Inl)
  qed (use assms(1) in \<open>simp_all add: lock_purpose_def\<close>)
  let ?evs = "{ToolStarted ''kind'' [''get'', ''clusters''], LeaseWritten (own_identity (client l))}"
  have "steps (only ?evs) (cluster_exists (station l))"
    by (auto simp: cluster_exists_def intro!: few.steps_intros only_run_tool)
  moreover have "steps (only ?evs) (namespace_exists (station l) NS_APP)" by (rule only_there)
  moreover have "steps (only ?evs) (acquire (client l) purpose)" by (rule only_mono [OF only_acquire]) simp
  ultimately have "only ?evs w w1" "only ?evs w1 w2" "only ?evs w2 w3"
    using assms(2-4) by (auto dest: stepsD)
  then show "only ?evs w w3" by (blast intro: few.step_trans)
qed

subsection \<open>Validating\<close>

lemma locked_result:
  assumes "platform_lock h purpose m w = (Inr x, w')"
  shows "\<exists>v v'. m v = (Inr x, v')"
  using assms
  by (auto simp: platform_lock_def held_def finallyA_def split: if_splits prod.splits sum.splits elim!: bindA_InrE) blast+

lemma suites_named: "mapA (run_named l t) names w = (Inr oss, w') \<Longrightarrow> map outcome_name (concat oss) = concat (map (checks_named l t) names)"
proof (induction names arbitrary: w oss)
  case (Cons name names)
  then obtain os w1 rest where "run_named l t name w = (Inr os, w1)" "mapA (run_named l t) names w1 = (Inr rest, w')" "oss = os # rest"
    by (auto elim!: bindA_InrE)
  then show ?case using Cons.IH named_outcomes by fastforce
qed simp

lemma suites_exit_zero:
  "run_suites l t names w = (Inr 0, w') \<longleftrightarrow>
   (\<exists>oss. platform_lock (station l) (''validation of '' @ join '', '' names) (mapA (run_named l t) names) w = (Inr oss, w') \<and>
      summarize (concat oss))"
  by (auto simp: run_suites_def catchA_def bindA_apply split: prod.splits sum.splits exn.splits if_splits)


subsection \<open>Commands that only look\<close>

lemma screen_dropped: "steps (looking evs) m \<Longrightarrow> steps (only evs) (with_memory ls m)"
  by (auto simp: steps_def with_memory_def looking_def split: prod.splits) (metis snd_conv)

lemma main_steps: "steps (only evs) (platform_handler patience l t command) \<Longrightarrow> steps (only evs) (platform_main patience l t command)"
  by (auto simp: platform_main_def intro!: few.steps_intros)

text \<open>
  Property C18. \<open>platformctl preflight\<close>, \<open>status\<close> and \<open>ui\<close> change nothing: all they do beside reading is to start programs that
  look, whatever happens while they run.
\<close>

theorem looking_commands:
  "only preflight_events w (snd (platform_main patience l t Preflight w)) \<and>
   only status_programs w (snd (platform_main patience l t ShowStatus w)) \<and>
   only ui_programs w (snd (platform_main patience l t (OpenUi name port) w))"
proof -
  have "steps (only preflight_events) (platform_main patience l t Preflight)"
    by (auto simp: platform_handler_def cmd_preflight_def intro!: main_steps few.steps_intros only_host_preflight)
  moreover have "steps (only status_programs) (platform_main patience l t ShowStatus)"
    by (auto simp: platform_handler_def cmd_status_def intro!: main_steps few.steps_intros screen_dropped status_looks)
  moreover have "steps (only ui_programs) (platform_main patience l t (OpenUi name port))"
    by (auto simp: platform_handler_def intro!: main_steps ui_looks)
  ultimately show ?thesis unfolding steps_def by blast
qed

subsection \<open>Examples\<close>

text \<open>A catalog with one scenario, a recorded run of it with a failed telemetry check, and a busy cluster.\<close>

definition quick_step :: workload_step where
  "quick_step = \<lparr>profile_of = Single, requests = 1, concurrency = 1, rate_per_second = None, duration_seconds = None,
     spike_rate_per_second = None, spike_seconds = None, order = Normal, identity = ScenarioRunner, debug = False,
     delay_seconds = 0, label = []\<rparr>"

definition quick_check :: scenario where
  "quick_check = \<lparr>scenario_id = ''quick-check'', title = ''t'', description = ''d'', category_of = Workload, faults = [],
     kubernetes = [], workload = [quick_step], expect = \<lparr>application = \<lparr>statuses = [], states = [], compensation = None,
       authorizations_per_order = None\<rparr>, telemetry = None\<rparr>\<rparr>"

definition catalog_host :: "unit host" where
  "catalog_host = blank_host\<lparr>rglob := (\<lambda>_. ret [([''quick-check.yaml''], True), ([''notes.md''], True)]),
     read_text := (\<lambda>_. ret []), parse_yaml := (\<lambda>_. Inr PNone)\<rparr>"

lemma quick_valid: "scenario_valid quick_check"
proof -
  have "id_pattern ''quick-check''" by code_simp
  moreover have "validate_step quick_step = Inr quick_step"
    by (simp add: quick_step_def validate_step_def step_field_errors_def check_profile_def in_bounds_gt_def)
  ultimately show ?thesis by (simp add: scenario_valid_def quick_check_def in_bounds_def)
qed

lemma quick_get: "catalog_get catalog_host (\<lambda>_. Some quick_check) ''quick-check'' w = (Inr quick_check, w)"
proof -
  have "scenario_files [([''quick-check.yaml''], True), ([''notes.md''], True)] = [''quick-check.yaml'']" by code_simp
  moreover have "stem ''quick-check.yaml'' = scenario_id quick_check" by (simp add: stem_def quick_check_def)
  moreover have "scenario_id quick_check = ''quick-check''" by (simp add: quick_check_def)
  ultimately show ?thesis
    by (simp add: catalog_get_def load_all_def add_scenario_def load_scenario_def parse_scenario_def catalog_host_def
      bindA_apply call_def quick_valid dict_get_put)
qed

definition recorded :: run_record where
  "recorded = (new_record ''r1'' ''quick-check'' [])\<lparr>restored := True, run_status := Failed,
     checks := [\<lparr>check_layer = ApplicationLayer, check_name = ''statuses'', check_passed = True\<rparr>,
                \<lparr>check_layer = TelemetryLayer, check_name = ''traces'', check_passed = False\<rparr>]\<rparr>"

theorem verify_again_witness:
  "fst (cmd_verify catalog_host (\<lambda>_. Some quick_check) (Some ''r1'') ((empty_world ())\<lparr>record_files := [(''r1'', recorded)]\<rparr>)) = Inr 0 \<and>
   (\<exists>cs final. list_all (\<lambda>c. check_layer c = TelemetryLayer) cs \<and>
      final = decided (recorded\<lparr>checks := checks (application_part recorded) @ cs\<rparr>) \<and> passed final)"
proof -
  let ?w = "(empty_world ())\<lparr>record_files := [(''r1'', recorded)]\<rparr>"
  have rec: "run_scenario recorded = ''quick-check''" "telemetry (expect quick_check) = None"
    "passed (application_part recorded)"
    by (simp_all add: recorded_def new_record_def quick_check_def passed_def application_part_def)
  then have verified: "verify (cluster catalog_host) quick_check (application_part recorded) w = (Inr (application_part recorded), w)" for w
    by (simp add: verify_def)
  obtain code w' where run: "cmd_verify catalog_host (\<lambda>_. Some quick_check) (Some ''r1'') ?w = (Inr code, w')" and code: "code = 0"
    by (simp add: cmd_verify_def chosen_run_def load_def dict_get_def bindA_apply rec quick_get verified save_record_def decided_def)
  have "dict_get (record_files ?w) ''r1'' = Some recorded" by (simp add: dict_get_def)
  from verify_again [OF this _ run] code run show ?thesis by (auto simp: list_all_iff split: if_splits)
qed

definition busy_host :: "real host" where
  "busy_host = blank_host\<lparr>cluster := busy_api, communicate := (\<lambda>_ _ _. ret (''txplatform'', [], 0)), read_namespace := (\<lambda>_. ret None)\<rparr>"

theorem busy_platform_untouched_witness:
  "fst (platform_main 0 (blank_lab\<lparr>station := busy_host\<rparr>) plain_texts (Deploy []) (empty_world 0)) = Inr 1"
proof -
  let ?w1 = "(empty_world 0)\<lparr>trail := [ToolStarted ''kind'' [''get'', ''clusters'']]\<rparr> :: real world"
  have words: "CLUSTER_NAME \<in> set (words_of ''txplatform'')" unfolding CLUSTER_NAME_def by code_simp
  have "cluster_exists busy_host (empty_world 0) = (Inr True, ?w1)"
    by (simp add: cluster_exists_def run_tool_def require_tool_def find_tool_def start_tool_def busy_host_def blank_host_def
      bindA_apply catchA_def call_def effect_def empty_world_def Let_def words)
  moreover have "namespace_exists busy_host NS_APP ?w1 = (Inr True, ?w1)"
    by (simp add: namespace_exists_def catchA_def bindA_apply call_def busy_host_def)
  moreover have "acquire (cluster busy_host) ''deployment'' ?w1 = (Inl (LockHeldError ''other'' ''host/2''), ?w1)"
    by (simp add: busy_host_def acquire_def read_lock_def take_over_def bindA_apply catchA_def busy_api_def quiet_api_def
      quiet_calls empty_world_def or_empty_def is_expired_def)
  ultimately show ?thesis
    using busy_platform_untouched [of "Deploy []" "''deployment''" "blank_lab\<lparr>station := busy_host\<rparr>"] by (simp add: lock_purpose_def)
qed

end
