(* ===== verification/JournalText.thy ===== *)
theory JournalText
  imports World Json
begin

section \<open>The journal as a file (Journal in scenarios/journal.py)\<close>

text \<open>
  In \<open>World\<close> a journal is the list of its objects. Here it is the text of its file: \<open>record\<close> appends one line
  of JSON, \<open>entries\<close> splits the text into lines, skips blank ones and parses the others. The theorem says
  that the list is what the text means, so the properties of the engine hold for the file.
\<close>

text \<open>The text of the file, \<open>None\<close> while there is none.\<close>

type_synonym file_text = "string option"

definition journal_line :: "attrs \<Rightarrow> string" where
  "journal_line obj = json_dumps (PDict obj) @ [newline]"

definition record_text :: "file_text \<Rightarrow> attrs \<Rightarrow> file_text" where
  "record_text file obj = Some ((case file of None \<Rightarrow> [] | Some t \<Rightarrow> t) @ journal_line obj)"

definition text_entries :: "file_text \<Rightarrow> pyval list result" where
  "text_entries file =
     (case file of
        None \<Rightarrow> Inr []
      | Some t \<Rightarrow> mapE json_loads (filter (\<lambda>line. strip line \<noteq> []) (splitlines t)))"

text \<open>\<open>restore_plan\<close> asks every entry for a key, which only a dictionary has.\<close>

definition as_attrs :: "pyval \<Rightarrow> attrs result" where
  "as_attrs v = (case v of PDict d \<Rightarrow> Inr d | _ \<Rightarrow> Inl TypeError)"

definition plan_of_file :: "file_text \<Rightarrow> restore_step list result" where
  "plan_of_file file = bindE (text_entries file) (\<lambda>vs. bindE (mapE as_attrs vs) restore_plan)"

subsection \<open>The list of objects is what the text means\<close>

lemma printable_in_line: "printable c \<Longrightarrow> \<not> is_break c"
  by (auto simp: printable_def is_break_def)

lemma dump_line:
  assumes "storable (PDict obj)"
  shows "\<forall>c \<in> set (json_dumps (PDict obj)). \<not> is_break c" and "strip (json_dumps (PDict obj)) \<noteq> []"
proof -
  show "\<forall>c \<in> set (json_dumps (PDict obj)). \<not> is_break c"
    using json_dumps_printable [OF assms] printable_in_line by blast
  have brace: "\<not> is_space CHR ''{''" by code_simp
  then have "lstrip (json_dumps (PDict obj)) = json_dumps (PDict obj)" by (simp add: lstrip_def)
  moreover have "lstrip (rev (json_dumps (PDict obj))) \<noteq> []"
    using brace by (auto simp: lstrip_def dropWhile_eq_Nil_conv)
  ultimately show "strip (json_dumps (PDict obj)) \<noteq> []" by (simp add: strip_def)
qed

lemma entries_of_lines:
  "list_all (\<lambda>obj. storable (PDict obj)) objs \<Longrightarrow>
   text_entries (Some (concat (map journal_line objs))) = Inr (map PDict objs)"
proof (induction objs)
  case Nil
  show ?case by (simp add: text_entries_def splitlines_def)
next
  case (Cons obj objs)
  then have obj: "storable (PDict obj)" by simp
  have "splitlines (concat (map journal_line (obj # objs))) =
      json_dumps (PDict obj) # splitlines (concat (map journal_line objs))"
    using splitlines_line [OF dump_line(1) [OF obj]] by (simp add: journal_line_def del: json_dumps.simps)
  then show ?case
    using Cons dump_line(2) [OF obj] json_roundtrip [OF obj] by (simp add: text_entries_def del: json_dumps.simps)
qed

lemma record_lines: "foldl record_text (Some t) objs = Some (t @ concat (map journal_line objs))"
  by (induction objs arbitrary: t) (simp_all add: record_text_def)

lemma recorded_text:
  "foldl record_text None objs = (if objs = [] then None else Some (concat (map journal_line objs)))"
  by (cases objs) (simp_all add: record_text_def record_lines)

lemma entry_storable: "storable (PDict (entry_object e))"
  by (cases e) (simp_all add: journal_object_def)

lemma as_attrs_dicts: "mapE as_attrs (map PDict objs) = Inr objs"
  by (induction objs) (simp_all add: as_attrs_def)

text \<open>
  Property C7. The journal file holds what was written to it, whatever characters the names in it have: the
  text built by appending any entries one by one reads back as exactly these entries, in their order, and
  the restore plan made from the text is the plan of the entries.
\<close>

theorem journal_file_faithful:
  "text_entries (foldl record_text None (map entry_object es)) = Inr (map (\<lambda>e. PDict (entry_object e)) es) \<and>
   plan_of_file (foldl record_text None (map entry_object es)) = restore_plan (map entry_object es)"
proof -
  let ?objs = "map entry_object es"
  have "list_all (\<lambda>obj. storable (PDict obj)) ?objs" by (simp add: list_all_iff entry_storable del: storable.simps)
  then have "text_entries (foldl record_text None ?objs) = Inr (map PDict ?objs)"
    using entries_of_lines [of ?objs] by (auto simp: recorded_text text_entries_def)
  then show ?thesis using as_attrs_dicts [of ?objs] by (simp add: plan_of_file_def comp_def)
qed

text \<open>
  A write that stopped in the middle of a line is not skipped: reading the journal raises, and with it the
  restore that would have undone the entries before.
\<close>

lemma torn_line_raises:
  "plan_of_file (Some (journal_line (entry_object (RestartEntry ''fraud-service'')) @
     take 12 (journal_line (entry_object (RestartEntry ''fraud-service''))))) = Inl ValueError"
  by code_simp

end
