(* ===== verification/PkiLaws.thy ===== *)
theory PkiLaws
  imports Pki "HOL-Library.Countable"
begin

section \<open>One call settles the certificates\<close>

text \<open>
  What the file system, the clock and the cryptography library promise, over a view \<open>stored\<close> of the files,
  the time \<open>clk\<close> (a certificate keeps whole seconds) and the relation \<open>pair\<close> of a certificate of an authority and its private key; and that one
  call of \<open>ensure\<close> leaves files the next call accepts as they are.
\<close>

type_synonym 'k files_view = "'k \<Rightarrow> string \<Rightarrow> bytes option"

definition later :: "'k files_view \<Rightarrow> ('k \<Rightarrow> real) \<Rightarrow> 'k \<Rightarrow> 'k \<Rightarrow> bool" where
  "later stored clk k k' \<longleftrightarrow> stored k' = stored k \<and> clk k \<le> clk k'"

definition keeps_files :: "'k host \<Rightarrow> 'k files_view \<Rightarrow> ('k \<Rightarrow> real) \<Rightarrow> bool" where
  "keeps_files h stored clk \<longleftrightarrow>
     (\<forall>p k. \<exists>k'. is_file h p k = (Inr (stored k p \<noteq> None), k') \<and> later stored clk k k') \<and>
     (\<forall>p k. \<exists>r k'. read_bytes h p k = (r, k') \<and> later stored clk k k' \<and>
        (case stored k p of Some b \<Rightarrow> r = Inr b | None \<Rightarrow> isl r)) \<and>
     (\<forall>p b k. \<exists>k'. write_bytes h p b k = (Inr (), k') \<and> stored k' = (stored k)(p := Some b) \<and> clk k \<le> clk k') \<and>
     (\<forall>p k. \<exists>k'. make_dirs h p k = (Inr (), k') \<and> later stored clk k k') \<and>
     (\<forall>k. \<exists>k'. wall_clock (cluster h) k = (Inr (clk k), k') \<and> later stored clk k k')"

definition signs :: "'k host \<Rightarrow> 'k files_view \<Rightarrow> ('k \<Rightarrow> real) \<Rightarrow> (bytes \<Rightarrow> bytes \<Rightarrow> bool) \<Rightarrow> bool" where
  "signs h stored clk pair \<longleftrightarrow>
     (\<forall>k. \<exists>key k'. new_private_key h k = (Inr key, k') \<and> later stored clk k k' \<and> load_private_key h key = Inr key) \<and>
     (\<forall>req key k. \<exists>c k'. sign_certificate h req key k = (Inr c, k') \<and> later stored clk k k' \<and>
        view_certificate h c = Inr \<lparr>cv_not_after = of_int \<lfloor>cr_not_after req\<rfloor>, cv_names = cr_names req, cv_subject = cr_subject req\<rparr> \<and>
        (cr_authority req \<and> cr_key req = key \<longrightarrow> pair c key) \<and>
        (case cr_issuer_certificate req of None \<Rightarrow> True | Some ca \<Rightarrow> pair ca key \<longrightarrow> directly_issued h c ca))"

text \<open>An authority on disk comes with its own key.\<close>

definition matching :: "'k host \<Rightarrow> pki_files \<Rightarrow> (bytes \<Rightarrow> bytes \<Rightarrow> bool) \<Rightarrow> (string \<Rightarrow> bytes option) \<Rightarrow> bool" where
  "matching h files pair st \<longleftrightarrow>
     (case (st (ca_cert files), st (ca_key files)) of
        (Some ca, Some pem) \<Rightarrow> (case load_private_key h pem of Inr key \<Rightarrow> pair ca key | Inl _ \<Rightarrow> True)
      | _ \<Rightarrow> True)"

text \<open>The files are good at time \<open>t\<close>: both decisions are to reuse what is there.\<close>

definition good_at :: "'k host \<Rightarrow> pki_files \<Rightarrow> (string \<Rightarrow> bytes option) \<Rightarrow> real \<Rightarrow> bool" where
  "good_at h files st t \<longleftrightarrow>
     (\<exists>ca pem key f leaf g. st (ca_cert files) = Some ca \<and> st (ca_key files) = Some pem \<and> load_private_key h pem = Inr key \<and>
        facts_of h ca None = Inr f \<and> decide (Some f) t False = Reuse \<and>
        st (tls_cert files) = Some leaf \<and> st (tls_key files) \<noteq> None \<and>
        facts_of h leaf (Some ca) = Inr g \<and> decide (Some g) t True = Reuse)"

definition separate :: "pki_files \<Rightarrow> bool" where
  "separate files \<longleftrightarrow> distinct [ca_cert files, ca_key files, tls_cert files, tls_key files]"

subsection \<open>Calls under these promises\<close>

lemma call_InrD: "call m w = (Inr a, w') \<Longrightarrow> m (ext w) = (Inr a, ext w')"
  by (auto simp: call_def split: prod.splits)

lemma is_file_call:
  assumes "keeps_files h stored clk" and "call (is_file h p) w = (Inr b, w')"
  shows "b = (stored (ext w) p \<noteq> None) \<and> later stored clk (ext w) (ext w')"
proof -
  obtain k' where "is_file h p (ext w) = (Inr (stored (ext w) p \<noteq> None), k')" "later stored clk (ext w) k'"
    using assms(1) unfolding keeps_files_def by blast
  then show ?thesis using call_InrD [OF assms(2)] by simp
qed

lemma read_bytes_call:
  assumes "keeps_files h stored clk" and "call (read_bytes h p) w = (Inr b, w')"
  shows "stored (ext w) p = Some b \<and> later stored clk (ext w) (ext w')"
proof -
  obtain r k' where "read_bytes h p (ext w) = (r, k')" "later stored clk (ext w) k'"
    "case stored (ext w) p of Some b \<Rightarrow> r = Inr b | None \<Rightarrow> isl r"
    using assms(1) unfolding keeps_files_def by blast
  then show ?thesis using call_InrD [OF assms(2)] by (auto split: option.splits)
qed

lemma clock_call:
  assumes "keeps_files h stored clk" and "now_utc h w = (Inr t, w')"
  shows "t = clk (ext w) \<and> later stored clk (ext w) (ext w')"
proof -
  obtain k' where "wall_clock (cluster h) (ext w) = (Inr (clk (ext w)), k')" "later stored clk (ext w) k'"
    using assms(1) unfolding keeps_files_def by blast
  then show ?thesis using call_InrD [OF assms(2) [unfolded now_utc_def]] by simp
qed

lemma make_dirs_call:
  assumes "keeps_files h stored clk" and "call (make_dirs h p) w = (Inr u, w')"
  shows "later stored clk (ext w) (ext w')"
proof -
  obtain k' where "make_dirs h p (ext w) = (Inr (), k')" "later stored clk (ext w) k'"
    using assms(1) unfolding keeps_files_def by blast
  then show ?thesis using call_InrD [OF assms(2)] by simp
qed

lemma write_file_call:
  assumes "keeps_files h stored clk" and "write_file h p b w = (Inr u, w')"
  shows "stored (ext w') = (stored (ext w))(p := Some b) \<and> clk (ext w) \<le> clk (ext w')"
proof -
  have "write_bytes h p b (ext w) = (Inr u, ext w')"
    using assms(2) unfolding write_file_def effect_def by (auto dest: call_InrD)
  moreover obtain k' where "write_bytes h p b (ext w) = (Inr (), k')" "stored k' = (stored (ext w))(p := Some b)" "clk (ext w) \<le> clk k'"
    using assms(1) unfolding keeps_files_def by blast
  ultimately show ?thesis by simp
qed

lemma new_key_call:
  assumes "signs h stored clk pair" and "call (new_private_key h) w = (Inr key, w')"
  shows "later stored clk (ext w) (ext w') \<and> load_private_key h key = Inr key"
proof -
  obtain key' k' where "new_private_key h (ext w) = (Inr key', k')" "later stored clk (ext w) k'" "load_private_key h key' = Inr key'"
    using assms(1) unfolding signs_def by blast
  then show ?thesis using call_InrD [OF assms(2)] by simp
qed

lemma sign_call:
  assumes "signs h stored clk pair" and "call (sign_certificate h req key) w = (Inr c, w')"
  shows "later stored clk (ext w) (ext w') \<and>
    view_certificate h c = Inr \<lparr>cv_not_after = of_int \<lfloor>cr_not_after req\<rfloor>, cv_names = cr_names req, cv_subject = cr_subject req\<rparr> \<and>
    (cr_authority req \<and> cr_key req = key \<longrightarrow> pair c key) \<and>
    (case cr_issuer_certificate req of None \<Rightarrow> True | Some ca \<Rightarrow> pair ca key \<longrightarrow> directly_issued h c ca)"
proof -
  obtain c' k' where "sign_certificate h req key (ext w) = (Inr c', k')" "later stored clk (ext w) k'"
    "view_certificate h c' = Inr \<lparr>cv_not_after = of_int \<lfloor>cr_not_after req\<rfloor>, cv_names = cr_names req, cv_subject = cr_subject req\<rparr>"
    "cr_authority req \<and> cr_key req = key \<longrightarrow> pair c' key"
    "case cr_issuer_certificate req of None \<Rightarrow> True | Some ca \<Rightarrow> pair ca key \<longrightarrow> directly_issued h c' ca"
    using assms(1) unfolding signs_def by meson
  then show ?thesis using call_InrD [OF assms(2)] by auto
qed

lemma load_cert_call:
  assumes "keeps_files h stored clk" and "load_cert h p w = (Inr c, w')"
  shows "c = stored (ext w) p \<and> later stored clk (ext w) (ext w') \<and>
    (case c of None \<Rightarrow> True | Some pem \<Rightarrow> \<not> isl (view_certificate h pem))"
proof -
  obtain there w1 where there: "call (is_file h p) w = (Inr there, w1)"
    and rest: "(if \<not> there then ret None else bindA (call (read_bytes h p)) (\<lambda>pem. bindA (liftE (view_certificate h pem)) (\<lambda>_. ret (Some pem)))) w1 = (Inr c, w')"
    using assms(2) unfolding load_cert_def by (auto elim: bindA_cases)
  note first = is_file_call [OF assms(1) there]
  show ?thesis
  proof (cases there)
    case False
    then show ?thesis using rest first by auto
  next
    case True
    then obtain pem w2 v where pem: "call (read_bytes h p) w1 = (Inr pem, w2)" and "view_certificate h pem = Inr v" "c = Some pem" "w' = w2"
      using rest by (auto elim!: bindA_cases)
    then show ?thesis using read_bytes_call [OF assms(1) pem] first by (auto simp: later_def)
  qed
qed

lemma facts_with_key_call:
  assumes "keeps_files h stored clk" and "facts_with_key h c p ca w = (Inr f, w')"
  shows "later stored clk (ext w) (ext w') \<and>
    (case f of None \<Rightarrow> c = None \<or> stored (ext w) p = None
     | Some facts \<Rightarrow> stored (ext w) p \<noteq> None \<and> (\<exists>pem. c = Some pem \<and> facts_of h pem ca = Inr facts))"
proof (cases c)
  case None
  then show ?thesis using assms(2) by (auto simp: facts_with_key_def later_def)
next
  case (Some pem)
  then obtain there w1 where there: "call (is_file h p) w = (Inr there, w1)"
    and rest: "(if \<not> there then ret None else bindA (liftE (facts_of h pem ca)) (\<lambda>f. ret (Some f))) w1 = (Inr f, w')"
    using assms(2) unfolding facts_with_key_def by (auto elim: bindA_cases)
  note first = is_file_call [OF assms(1) there]
  show ?thesis
  proof (cases there)
    case True
    then obtain facts where "facts_of h pem ca = Inr facts" "f = Some facts" "w' = w1"
      using rest by (auto elim!: bindA_cases)
    then show ?thesis using first True Some by simp
  qed (use rest first in simp)
qed

subsection \<open>What is created is good\<close>

definition good_ca :: "'k host \<Rightarrow> pki_files \<Rightarrow> (bytes \<Rightarrow> bytes \<Rightarrow> bool) \<Rightarrow> (string \<Rightarrow> bytes option) \<Rightarrow> real \<Rightarrow> bytes \<Rightarrow> bytes \<Rightarrow> bool" where
  "good_ca h files pair st t ca key \<longleftrightarrow>
     st (ca_cert files) = Some ca \<and> (\<exists>pem. st (ca_key files) = Some pem \<and> load_private_key h pem = Inr key) \<and>
     pair ca key \<and> (\<exists>f. facts_of h ca None = Inr f \<and> decide (Some f) t False = Reuse)"

lemma create_ca_good:
  assumes "keeps_files h stored clk" and "signs h stored clk pair" and "separate files"
    and "create_ca h files w = (Inr (ca, key), w')" and "t \<le> clk (ext w)"
  shows "good_ca h files pair (stored (ext w')) t ca key \<and> clk (ext w) \<le> clk (ext w') \<and>
    stored (ext w') (tls_cert files) = stored (ext w) (tls_cert files) \<and> stored (ext w') (tls_key files) = stored (ext w) (tls_key files)"
proof -
  obtain now w1 w2 w3 w4 w5 where
    new: "call (new_private_key h) w = (Inr key, w1)" and now: "now_utc h w1 = (Inr now, w2)"
    and sign: "call (sign_certificate h (ca_request key now) key) w2 = (Inr ca, w3)"
    and dirs: "call (make_dirs h (fst (rpartition CHR ''/'' (ca_key files)))) w3 = (Inr (), w4)"
    and writes: "write_file h (ca_key files) key w4 = (Inr (), w5)" "write_file h (ca_cert files) ca w5 = (Inr (), w')"
    using assms(4) unfolding create_ca_def by (auto elim!: bindA_cases)
  note steps = new_key_call [OF assms(2) new] clock_call [OF assms(1) now] sign_call [OF assms(2) sign]
    make_dirs_call [OF assms(1) dirs] write_file_call [OF assms(1) writes(1)] write_file_call [OF assms(1) writes(2)]
  have files: "stored (ext w') = (stored (ext w))(ca_key files := Some key, ca_cert files := Some ca)" and time: "clk (ext w) \<le> now" "clk (ext w) \<le> clk (ext w')"
    using steps unfolding later_def by auto
  have view: "view_certificate h ca = Inr \<lparr>cv_not_after = of_int \<lfloor>now + CA_VALIDITY\<rfloor>, cv_names = None, cv_subject = ''txplatform local development CA''\<rparr>"
    and "pair ca key" and "load_private_key h key = Inr key"
    using steps unfolding later_def by (simp_all add: ca_request_def)
  moreover have "decide (Some \<lparr>not_after = of_int \<lfloor>now + CA_VALIDITY\<rfloor>, dns_names = {}, ip_addresses = {}, issued_by_current_ca = True\<rparr>) t False = Reuse"
    using time(1) assms(5) real_of_int_floor_gt_diff_one [of "now + CA_VALIDITY"] by (simp add: decide_def CA_VALIDITY_def RENEW_BEFORE_def)
  moreover have "facts_of h ca None = Inr \<lparr>not_after = of_int \<lfloor>now + CA_VALIDITY\<rfloor>, dns_names = {}, ip_addresses = {}, issued_by_current_ca = True\<rparr>"
    by (simp add: facts_of_def view)
  ultimately show ?thesis using files time(2) assms(3) unfolding good_ca_def separate_def by auto
qed

lemma create_leaf_good:
  assumes "keeps_files h stored clk" and "signs h stored clk pair" and "separate files"
    and "create_leaf h files ca key w = (Inr (), w')" and "t \<le> clk (ext w)" and "pair ca key"
  shows "\<exists>leaf g. stored (ext w') (tls_cert files) = Some leaf \<and> stored (ext w') (tls_key files) \<noteq> None \<and>
    facts_of h leaf (Some ca) = Inr g \<and> decide (Some g) t True = Reuse \<and>
    stored (ext w') (ca_cert files) = stored (ext w) (ca_cert files) \<and> stored (ext w') (ca_key files) = stored (ext w) (ca_key files)"
proof -
  obtain own now v leaf w1 w2 w3 w4 where
    new: "call (new_private_key h) w = (Inr own, w1)" and now: "now_utc h w1 = (Inr now, w2)"
    and "view_certificate h ca = Inr v"
    and sign: "call (sign_certificate h (leaf_request own now ca (cv_subject v)) key) w2 = (Inr leaf, w3)"
    and writes: "write_file h (tls_key files) own w3 = (Inr (), w4)" "write_file h (tls_cert files) leaf w4 = (Inr (), w')"
    using assms(4) unfolding create_leaf_def by (auto elim!: bindA_cases)
  note steps = new_key_call [OF assms(2) new] clock_call [OF assms(1) now] sign_call [OF assms(2) sign]
    write_file_call [OF assms(1) writes(1)] write_file_call [OF assms(1) writes(2)]
  have files: "stored (ext w') = (stored (ext w))(tls_key files := Some own, tls_cert files := Some leaf)" and time: "clk (ext w) \<le> now"
    using steps unfolding later_def by auto
  have view: "view_certificate h leaf = Inr \<lparr>cv_not_after = of_int \<lfloor>now + LEAF_VALIDITY\<rfloor>, cv_names = Some (REQUIRED_DNS_NAMES, REQUIRED_IP_ADDRESSES), cv_subject = ''localhost''\<rparr>"
    and issued: "directly_issued h leaf ca"
    using steps assms(6) by (simp_all add: leaf_request_def)
  let ?g = "\<lparr>not_after = of_int \<lfloor>now + LEAF_VALIDITY\<rfloor>, dns_names = set REQUIRED_DNS_NAMES, ip_addresses = set REQUIRED_IP_ADDRESSES, issued_by_current_ca = True\<rparr>"
  have "facts_of h leaf (Some ca) = Inr ?g" by (simp add: facts_of_def view issued)
  moreover have "decide (Some ?g) t True = Reuse"
    using time assms(5) real_of_int_floor_gt_diff_one [of "now + LEAF_VALIDITY"] by (simp add: decide_def LEAF_VALIDITY_def RENEW_BEFORE_def)
  ultimately show ?thesis using files assms(3) by (auto simp: separate_def)
qed

lemma settle_ca_good:
  assumes "keeps_files h stored clk" and "signs h stored clk pair" and "separate files"
    and "matching h files pair (stored (ext w))" and "settle_ca h files t w = (Inr (act, ca, key), w')" and "t \<le> clk (ext w)"
  shows "good_ca h files pair (stored (ext w')) t ca key \<and> t \<le> clk (ext w')"
proof -
  obtain cert facts w1 w2 where cert: "load_cert h (ca_cert files) w = (Inr cert, w1)"
    and facts: "facts_with_key h cert (ca_key files) None w1 = (Inr facts, w2)"
    and rest: "(case (decide facts t False, cert) of
         (Reuse, Some c) \<Rightarrow> bindA (call (read_bytes h (ca_key files))) (\<lambda>pem. bindA (liftE (load_private_key h pem)) (\<lambda>key. ret (c, key)))
       | _ \<Rightarrow> create_ca h files) w2 = (Inr (ca, key), w')"
    using assms(5) unfolding settle_ca_def Let_def by (auto elim!: bindA_cases)
  note known = load_cert_call [OF assms(1) cert] facts_with_key_call [OF assms(1) facts]
  have same: "stored (ext w2) = stored (ext w)" "t \<le> clk (ext w2)" using known assms(6) unfolding later_def by auto
  show ?thesis
  proof (cases "decide facts t False = Reuse \<and> cert \<noteq> None")
    case True
    then obtain c f where c: "cert = Some c" and f: "facts = Some f" "facts_of h c None = Inr f"
      using known by (cases facts) (auto simp: decide_def)
    obtain pem where pem: "call (read_bytes h (ca_key files)) w2 = (Inr pem, w')" and "load_private_key h pem = Inr key" "ca = c"
      using rest True c by (auto elim!: bindA_cases)
    moreover have "stored (ext w) (ca_key files) = Some pem" using read_bytes_call [OF assms(1) pem] same by simp
    moreover have "stored (ext w) (ca_cert files) = Some c" using known c by simp
    ultimately show ?thesis
      using read_bytes_call [OF assms(1) pem] same f True assms(4) unfolding good_ca_def matching_def later_def by auto
  next
    case False
    then have "create_ca h files w2 = (Inr (ca, key), w')"
      using rest by (auto split: pki_action.splits option.splits)
    from create_ca_good [OF assms(1-3) this same(2)] same(2) show ?thesis by auto
  qed
qed

lemma settle_leaf_good:
  assumes "keeps_files h stored clk" and "signs h stored clk pair" and "separate files"
    and "good_ca h files pair (stored (ext w)) t ca key" and "settle_leaf h files t ca key w = (Inr act, w')" and "t \<le> clk (ext w)"
  shows "good_at h files (stored (ext w')) t"
proof -
  obtain cert facts w1 w2 where cert: "load_cert h (tls_cert files) w = (Inr cert, w1)"
    and facts: "facts_with_key h cert (tls_key files) (Some ca) w1 = (Inr facts, w2)"
    and rest: "(if decide facts t True \<noteq> Reuse then create_leaf h files ca key else ret ()) w2 = (Inr (), w')"
    using assms(5) unfolding settle_leaf_def Let_def by (auto elim!: bindA_cases)
  note known = load_cert_call [OF assms(1) cert] facts_with_key_call [OF assms(1) facts]
  have same: "stored (ext w2) = stored (ext w)" "t \<le> clk (ext w2)" using known assms(6) unfolding later_def by auto
  show ?thesis
  proof (cases "decide facts t True = Reuse")
    case True
    then obtain c f where "cert = Some c" "facts = Some f" "facts_of h c (Some ca) = Inr f" "stored (ext w) (tls_key files) \<noteq> None"
      using known same unfolding later_def by (cases facts) (auto simp: decide_def)
    then show ?thesis using rest True known same assms(4) unfolding good_at_def good_ca_def by auto
  next
    case False
    then have "create_leaf h files ca key w2 = (Inr (), w')" using rest by simp
    from create_leaf_good [OF assms(1-3) this same(2)] assms(4) same(1) show ?thesis
      unfolding good_at_def good_ca_def by metis
  qed
qed

subsection \<open>The next call\<close>

lemma is_file_there:
  assumes "keeps_files h stored clk" and "stored k p \<noteq> None"
  obtains k' where "is_file h p k = (Inr True, k')" and "stored k' = stored k"
proof -
  obtain k' where "is_file h p k = (Inr (stored k p \<noteq> None), k')" "later stored clk k k'"
    using assms(1) unfolding keeps_files_def by blast
  then show thesis using that assms(2) by (auto simp: later_def)
qed

lemma read_bytes_there:
  assumes "keeps_files h stored clk" and "stored k p = Some b"
  obtains k' where "read_bytes h p k = (Inr b, k')" and "stored k' = stored k"
proof -
  obtain r k' where "read_bytes h p k = (r, k')" "later stored clk k k'" "case stored k p of Some b \<Rightarrow> r = Inr b | None \<Rightarrow> isl r"
    using assms(1) unfolding keeps_files_def by blast
  then show thesis using that assms(2) by (auto simp: later_def)
qed

lemma load_cert_good:
  assumes "keeps_files h stored clk" and "stored k p = Some c" and "view_certificate h c = Inr v"
  obtains k' where "load_cert h p (w\<lparr>ext := k\<rparr>) = (Inr (Some c), w\<lparr>ext := k'\<rparr>)" and "stored k' = stored k"
proof -
  have "stored k p \<noteq> None" using assms(2) by simp
  from is_file_there [OF assms(1) this] obtain k1 where k1: "is_file h p k = (Inr True, k1)" "stored k1 = stored k" .
  then have "stored k1 p = Some c" using assms(2) by simp
  from read_bytes_there [OF assms(1) this] obtain k2 where k2: "read_bytes h p k1 = (Inr c, k2)" "stored k2 = stored k1" .
  show thesis using k1 k2 assms(3) by (intro that [of k2]) (simp_all add: load_cert_def bindA_apply call_def)
qed

lemma facts_good:
  assumes "keeps_files h stored clk" and "stored k p \<noteq> None" and "facts_of h c ca = Inr f"
  obtains k' where "facts_with_key h (Some c) p ca (w\<lparr>ext := k\<rparr>) = (Inr (Some f), w\<lparr>ext := k'\<rparr>)" and "stored k' = stored k"
proof -
  from is_file_there [OF assms(1,2)] obtain k1 where "is_file h p k = (Inr True, k1)" "stored k1 = stored k" .
  then show thesis using assms(3) by (intro that [of k1]) (simp_all add: facts_with_key_def bindA_apply call_def)
qed

lemma facts_view: "facts_of h c ca = Inr f \<Longrightarrow> \<exists>v. view_certificate h c = Inr v"
  by (auto simp: facts_of_def bindE_Inr_iff)

lemma good_reused:
  assumes "keeps_files h stored clk" and "good_at h files (stored (ext w)) (clk (ext w))"
  shows "\<exists>k. ensure_pki h files w =
    (Inr \<lparr>result_files = files, ca_action = Reuse, leaf_action = Reuse\<rparr>, w\<lparr>ext := k\<rparr>) \<and> stored k = stored (ext w)"
proof -
  obtain ca pem key f leaf g where st: "stored (ext w) (ca_cert files) = Some ca" "stored (ext w) (ca_key files) = Some pem"
      "stored (ext w) (tls_cert files) = Some leaf" "stored (ext w) (tls_key files) \<noteq> None"
    and key: "load_private_key h pem = Inr key" and f: "facts_of h ca None = Inr f" "decide (Some f) (clk (ext w)) False = Reuse"
    and g: "facts_of h leaf (Some ca) = Inr g" "decide (Some g) (clk (ext w)) True = Reuse"
    using assms(2) unfolding good_at_def by blast
  obtain k1 where k1: "wall_clock (cluster h) (ext w) = (Inr (clk (ext w)), k1)" "later stored clk (ext w) k1"
    using assms(1) unfolding keeps_files_def by blast
  obtain v1 v2 where v: "view_certificate h ca = Inr v1" "view_certificate h leaf = Inr v2"
    using facts_view [OF f(1)] facts_view [OF g(1)] by blast
  have s1: "stored k1 = stored (ext w)" using k1(2) by (simp add: later_def)
  from load_cert_good [OF assms(1) _ v(1), of k1 "ca_cert files" w] st(1) s1
  obtain k2 where k2: "load_cert h (ca_cert files) (w\<lparr>ext := k1\<rparr>) = (Inr (Some ca), w\<lparr>ext := k2\<rparr>)" "stored k2 = stored (ext w)" by metis
  from facts_good [OF assms(1) _ f(1), of k2 "ca_key files" w] st(2) k2(2)
  obtain k3 where k3: "facts_with_key h (Some ca) (ca_key files) None (w\<lparr>ext := k2\<rparr>) = (Inr (Some f), w\<lparr>ext := k3\<rparr>)" "stored k3 = stored (ext w)"
    by (metis option.distinct(1))
  from read_bytes_there [OF assms(1), of k3 "ca_key files" pem] st(2) k3(2)
  obtain k4 where k4: "read_bytes h (ca_key files) k3 = (Inr pem, k4)" "stored k4 = stored (ext w)" by metis
  from load_cert_good [OF assms(1) _ v(2), of k4 "tls_cert files" w] st(3) k4(2)
  obtain k5 where k5: "load_cert h (tls_cert files) (w\<lparr>ext := k4\<rparr>) = (Inr (Some leaf), w\<lparr>ext := k5\<rparr>)" "stored k5 = stored (ext w)" by metis
  from facts_good [OF assms(1) _ g(1), of k5 "tls_key files" w] st(4) k5(2)
  obtain k6 where k6: "facts_with_key h (Some leaf) (tls_key files) (Some ca) (w\<lparr>ext := k5\<rparr>) = (Inr (Some g), w\<lparr>ext := k6\<rparr>)" "stored k6 = stored (ext w)"
    by metis
  have "settle_ca h files (clk (ext w)) (w\<lparr>ext := k1\<rparr>) = (Inr (Reuse, ca, key), w\<lparr>ext := k4\<rparr>)"
    using k2(1) k3(1) k4(1) key f(2) by (simp add: settle_ca_def bindA_apply call_def Let_def)
  moreover have "settle_leaf h files (clk (ext w)) ca key (w\<lparr>ext := k4\<rparr>) = (Inr Reuse, w\<lparr>ext := k6\<rparr>)"
    using k5(1) k6(1) g(2) by (simp add: settle_leaf_def bindA_apply Let_def)
  ultimately show ?thesis using k1(1) k6(2)
    by (intro exI [of _ k6]) (simp add: ensure_pki_def now_utc_def bindA_apply call_def)
qed


subsection \<open>An example\<close>

text \<open>
  Files in memory and certificates that are the number of what was asked for: whole seconds, names, subject,
  the key of the subject and the key of the signer.
\<close>

type_synonym seal = "int \<times> (string list \<times> string list) option \<times> string \<times> bytes \<times> bytes"

definition seal_of :: "bytes \<Rightarrow> seal" where
  "seal_of c = from_nat (hd c)"

definition subject_key :: "bytes \<Rightarrow> bytes" where "subject_key c = (case seal_of c of (_, _, _, own, _) \<Rightarrow> own)"
definition signer_key :: "bytes \<Rightarrow> bytes" where "signer_key c = (case seal_of c of (_, _, _, _, signer) \<Rightarrow> signer)"

type_synonym disk = "(string \<Rightarrow> bytes option) \<times> real"

definition disk_api :: "disk api" where
  "disk_api = blank_api\<lparr>wall_clock := (\<lambda>k. (Inr (snd k), k))\<rparr>"

definition disk_host :: "disk host" where
  "disk_host = blank_host\<lparr>cluster := disk_api,
     is_file := (\<lambda>p k. (Inr (fst k p \<noteq> None), k)),
     read_bytes := (\<lambda>p k. (case fst k p of Some b \<Rightarrow> Inr b | None \<Rightarrow> Inl RuntimeError, k)),
     write_bytes := (\<lambda>p b k. (Inr (), ((fst k)(p := Some b), snd k))),
     new_private_key := ret [7],
     sign_certificate := (\<lambda>req key. ret [to_nat (\<lfloor>cr_not_after req\<rfloor>, cr_names req, cr_subject req, cr_key req, key)]),
     view_certificate := (\<lambda>c. case seal_of c of (t, names, subject, _, _) \<Rightarrow>
       Inr \<lparr>cv_not_after = of_int t, cv_names = names, cv_subject = subject\<rparr>),
     directly_issued := (\<lambda>c ca. signer_key c = subject_key ca)\<rparr>"

lemma disk_fields:
  "is_file disk_host p k = (Inr (fst k p \<noteq> None), k)"
  "read_bytes disk_host p k = (case fst k p of Some b \<Rightarrow> Inr b | None \<Rightarrow> Inl RuntimeError, k)"
  "write_bytes disk_host p b k = (Inr (), ((fst k)(p := Some b), snd k))"
  "make_dirs disk_host p k = (Inr (), k)"
  "wall_clock (cluster disk_host) k = (Inr (snd k), k)"
  "new_private_key disk_host k = (Inr [7], k)"
  "load_private_key disk_host b = Inr b"
  "sign_certificate disk_host req key k =
     (Inr [to_nat (\<lfloor>cr_not_after req\<rfloor>, cr_names req, cr_subject req, cr_key req, key)], k)"
  "view_certificate disk_host c = (case seal_of c of (t, names, subject, _, _) \<Rightarrow>
     Inr \<lparr>cv_not_after = of_int t, cv_names = names, cv_subject = subject\<rparr>)"
  "directly_issued disk_host c ca = (signer_key c = subject_key ca)"
  by (simp_all add: disk_host_def disk_api_def blank_host_def)

lemma disk_keeps: "keeps_files disk_host fst snd"
  by (auto simp: keeps_files_def later_def disk_fields split: option.splits)

lemma seal_parts: "seal_of [to_nat (x :: seal)] = x"
  by (simp add: seal_of_def)

lemma disk_signs: "signs disk_host fst snd (\<lambda>ca key. subject_key ca = key)"
  by (simp add: signs_def later_def disk_fields seal_parts subject_key_def signer_key_def split: option.splits)


end
