(* ===== verification/Spec2Isabelle.thy ===== *)
theory Spec2Isabelle
  imports Certification Stats Cli JournalText PkiLaws
begin

text \<open>
  A model of the Python automation of the distributed-transaction observability platform
  (src/automation/src/txplatform; file names below are relative to it).

  \<^bold>\<open>The program.\<close> \<open>platformctl\<close> builds the platform on a local kind cluster (bootstrap, deploy, destroy), checks
  it with eight validation suites, and shows its state. \<open>scenarioctl\<close> runs experiments on it: a scenario injects
  faults and changes workloads while traffic flows through the gateway, then decides from the responses, the ledger,
  the traces in Jaeger and the metrics in Prometheus whether the platform behaved as the scenario expects. Everything that is
  changed is written to a journal first, so that a run that crashed can be undone; a lease in the cluster keeps
  experiments, deployments and validations apart.

  \<^bold>\<open>How the code is modelled.\<close> A function that can raise is a value of \<open>'a result = exn + 'a\<close>; a function with
  effects is an action \<open>('w, 'a) act = 'w \<Rightarrow> 'a result \<times> 'w\<close>, so an exception keeps the changes made before it. \<open>try\<close> is
  \<open>catchA\<close> and \<open>finally\<close> is \<open>finallyA\<close> (Prelude). A world (World) has the files of journals and records, the record in
  progress, a trail of the events that change something or start a program, and the outside \<open>ext\<close>, of any type. What is not code of the
  repository acts on \<open>ext\<close> only and is a field of a record the definitions take: \<open>'k api\<close> (Kubernetes, HTTP, clocks, leases),
  \<open>'k host\<close> (processes, files, cryptography, YAML) and \<open>'k lab\<close> (what only the suites call). Dictionaries
  are association lists in insertion order, JSON values are \<open>pyval\<close>, Python integers are \<open>int\<close>, floats are exact reals, and strings are
  ASCII texts.

  \<^bold>\<open>Which theory models what.\<close>
  Prelude, PyLib, Values, Base64, Json and Times: the Python that the sources use (string methods, slices, dictionaries,
  \<open>json\<close>, \<open>base64\<close>, \<open>datetime.fromisoformat\<close>).
  Traces: traces.py. Tracechecks and TraceLaws: scenarios/tracechecks.py. Schema and Catalog: scenarios/schema.py and
  scenarios/catalog.py. Orders, Workload: orders.py, scenarios/workload.py. Expectations: scenarios/expectations.py.
  Contracts, ContractLaws, Certification: scenarios/contracts.py. Journal, JournalText: scenarios/journal.py. Records and
  World: scenarios/records.py. Control, Actions, Engine: scenarios/control.py and scenarios/engine.py. Runlock: runlock.py.
  Kube: kube.py. Jaeger, Prometheus, Otlp, Stats: the modules of the same names. Host: tools.py, kind.py, paths.py and the rest of
  kube.py. Portforward, Probes (with ProbeLaws), Identity, Secrets, Pki (with PkiLaws), Helm, Images, Versions, Lifecycle:
  the modules of the same names; HostPreflight: preflight.py. Framework and Suites: validation/framework.py and
  validation/suites.py. Lab and SuiteLaws: what the suites share. FoundationSuite, SecuritySuite, TracingSuite, EdgeSuite,
  ObservabilitySuite, TelemetrySuite, ResilienceSuite, RecoverySuite: the eight suites of validation/. Status:
  status.py, console.py and the user interfaces of platform_cli.py. Cli: scenario_cli.py and platform_cli.py.

  \<^bold>\<open>Interfaces.\<close> \<open>step_rel\<close> (Prelude) is the interface of every invariant of actions: a reflexive and transitive relation on worlds is
  preserved by all ways of composing actions. It is interpreted for the write-ahead order (\<open>ord\<close>), the events an action may cause (\<open>few\<close>),
  what only looks (\<open>look\<close>), running programs (\<open>calm\<close>), shared variables of a suite (\<open>memory\<close>, \<open>sending\<close>) and others; a lemma about an operation is then
  one step over its introduction rules (\<open>steps_intros\<close>, \<open>only_steps\<close>). \<open>keyed_store\<close> (PyLib) is what grouping needs of a
  dictionary, \<open>sound_check\<close> (TraceLaws) what a check promises about the trace it accepts, and \<open>trace_contract\<close> (ContractLaws) what
  the checks of a contract promise to the loop over its traces.

  \<^bold>\<open>What is shown.\<close> Runs: every change is journaled before it is made, in every interleaving of the Kubernetes
  actions with the traffic and of any crash; the plan of the journal undoes it; unrestored runs are found again; the
  journal file means the list the engine is proved for. The lock: acquire and release implement a step relation for any number of processes, in
  which prompt holders exclude each other and late ones need not. Deployment: only the project cluster is
  touched, and no release that may still be worked on. Certificates, secrets and started programs: one call settles, nothing
  is overwritten, nothing outlives its caller. Checks and contracts: what a verdict without problems says about the
  traces, up to the end-to-end statement for a normal order. Suites: all checks are reported, each suite cleans up
  after itself, and what passing means for the network matrix, the leak check, the tracing and the redeployment check.
  Command lines: what exit code 0 means, and which commands only look.

  \<^bold>\<open>Loops and their bounds.\<close> Polling loops (\<open>poll\<close>, \<open>trace_poll\<close>, \<open>reread\<close>, \<open>first_samples\<close>, \<open>call_rates\<close>) recurse at most
  \<open>polls timeout interval\<close> times, the timeout divided by the interval, rounded up, plus one; \<open>wait_for_enough_polls\<close>
  and \<open>reread_enough\<close> show that a clock on which sleeping takes the time asked for never reaches the bound. \<open>await_port\<close>
  has the bound \<open>rounds\<close> of the lab, and Portforward shows which value is enough. JSON is read with the length of the text as fuel, since every
  level consumes a character. The walk to the Kong ancestor may not end and is a partial function; \<open>kong_walk_ends_iff\<close> says when it does.
  The loop of \<open>ui\<close> is bounded by the seconds the operator waits (\<open>interface_ends\<close>).

  \<^bold>\<open>Not modelled.\<close> The libraries behind the parameters: the Kubernetes client, httpx, pydantic's conversion of types, PyYAML,
  cryptography and the operating system. The clients of Jaeger and Prometheus reach their service by a port-forward
  of their own, which is part of the HTTP call here; the guard that \<open>kube.clients\<close> runs once per process is modelled where \<open>status\<close> uses it and
  left out elsewhere. Printed texts other than those of \<open>status\<close>, the details of passed checks and argparse are left out. The services in C#, the
  Helm charts and the dashboards are other languages; of OrderService only the state machine of an order is modelled, where the contracts
  need it (ContractLaws).
\<close>

end
